(* ===== verification/Prelude.thy ===== *)
theory Prelude
  imports Main "HOL-Library.Word" "HOL-Library.AList"
begin

text \<open>
  The vocabulary the components share.

  A Python \<open>str\<close> is the list of its Unicode code points (\<open>pystr\<close>), so that \<open>len\<close>, slicing and
  the Russian texts of the source mean what they mean in Python.  \<open>lit\<close> writes an ASCII literal.
  The operations of \<open>str\<close> the source uses (\<open>strip\<close>, \<open>split\<close>, \<open>in\<close>, \<open>startswith\<close>, \<open>upper\<close>,
  \<open>casefold\<close>, \<open>lower\<close>) are written out; what they do beyond ASCII is the table of the Unicode
  database, a parameter (\<open>ucd\<close>).  White space is the exact set of \<open>str.isspace\<close>.  A Python
  \<open>int\<close> is \<open>int\<close>, printed in decimal by \<open>str_int\<close>; an aware \<open>datetime\<close> is the number of
  microseconds since the epoch, and a \<open>dict\<close> whose order matters is an association list.
\<close>

named_theorems prog_simps \<open>equations of the program monad\<close>
named_theorems sql_simps \<open>equations of the SQL statements on the tables\<close>

type_synonym pystr = "nat list"
type_synonym uuid = "128 word"
type_synonym datetime = int

section \<open>Lists\<close>

lemma distinct_map_filter_subset:
  "distinct (map f (filter q xs)) \<Longrightarrow> (\<And>x. p x \<Longrightarrow> q x) \<Longrightarrow> distinct (map f (filter p xs))"
  by (induction xs) (auto split: if_splits)

lemma distinct_map_update:
  assumes "\<And>x. x \<in> set xs \<Longrightarrow> f (g x) = f x" "distinct (map f xs)"
  shows "distinct (map f (map g xs))"
proof -
  have "map f (map g xs) = map f xs" using assms(1) by simp
  then show ?thesis using assms(2) by (simp only:)
qed

lemma distinct_middle: "distinct (xs @ x # ys) \<longleftrightarrow> distinct (xs @ ys) \<and> x \<notin> set (xs @ ys)"
  by auto

lemma filter_unique_cases:
  assumes "distinct (map f (filter p xs))" "\<And>x. q x \<longleftrightarrow> p x \<and> f x = k"
  shows "(filter q xs = [] \<and> (\<forall>x \<in> set xs. \<not> q x)) \<or>
         (\<exists>r \<in> set xs. q r \<and> filter q xs = [r])"
  using assms(1)
proof (induction xs)
  case Nil
  then show ?case by simp
next
  case (Cons a xs)
  then have d: "distinct (map f (filter p xs))" by (auto split: if_splits)
  show ?case
  proof (cases "q a")
    case True
    then have a: "p a" "f a = k" using assms(2) by auto
    then have "k \<notin> f ` set (filter p xs)" using Cons.prems by simp
    then have "\<forall>x \<in> set xs. \<not> q x" using assms(2) by auto
    then have "filter q xs = []" by (simp add: filter_empty_conv)
    with True show ?thesis by simp
  next
    case False
    with Cons.IH [OF d] show ?thesis by auto
  qed
qed

lemma filter_unique:
  assumes "distinct (map f (filter p xs))" "\<And>x. q x \<longleftrightarrow> p x \<and> f x = k" "r \<in> set xs" "q r"
  shows "filter q xs = [r]"
proof -
  have "filter q xs \<noteq> []" using assms(3,4) by (auto simp: filter_empty_conv)
  with filter_unique_cases [OF assms(1,2)] obtain r' where r': "filter q xs = [r']" by auto
  have "r \<in> set (filter q xs)" using assms(3,4) by simp
  with r' show ?thesis by simp
qed

lemma find_eq_filter: "find p xs = (case filter p xs of [] \<Rightarrow> None | r # _ \<Rightarrow> Some r)"
  by (induction xs) auto

lemma find_append: "find p (xs @ ys) = (case find p xs of None \<Rightarrow> find p ys | Some x \<Rightarrow> Some x)"
  by (induction xs) auto

section \<open>Strings\<close>

definition lit :: "string \<Rightarrow> pystr" where
  "lit s = map of_char s"

lemma lit_inject [simp]: "lit a = lit b \<longleftrightarrow> a = b"
proof -
  have "inj (of_char :: char \<Rightarrow> nat)" by (rule inj_of_char)
  then show ?thesis by (simp add: lit_def inj_map_eq_map)
qed

lemma length_lit [simp]: "length (lit s) = length s"
  by (simp add: lit_def)

lemma lit_Nil_iff [simp]: "lit s = [] \<longleftrightarrow> s = []"
  by (simp add: lit_def)

record ucd =
  u_upper :: "nat \<Rightarrow> nat list"
  u_lower :: "nat list \<Rightarrow> nat \<Rightarrow> nat list \<Rightarrow> nat list"
  u_casefold :: "nat \<Rightarrow> nat list"
  u_decimal :: "nat \<Rightarrow> nat option"
  u_digit :: "nat \<Rightarrow> bool"

definition py_isspace :: "nat \<Rightarrow> bool" where
  "py_isspace c \<longleftrightarrow> (9 \<le> c \<and> c \<le> 13) \<or> (28 \<le> c \<and> c \<le> 32) \<or> c = 133 \<or> c = 160 \<or> c = 5760 \<or>
     (8192 \<le> c \<and> c \<le> 8202) \<or> c = 8232 \<or> c = 8233 \<or> c = 8239 \<or> c = 8287 \<or> c = 12288"

definition py_lstrip :: "(nat \<Rightarrow> bool) \<Rightarrow> pystr \<Rightarrow> pystr" where
  "py_lstrip p s = dropWhile p s"

definition py_rstrip :: "(nat \<Rightarrow> bool) \<Rightarrow> pystr \<Rightarrow> pystr" where
  "py_rstrip p s = rev (dropWhile p (rev s))"

definition py_strip_chars :: "(nat \<Rightarrow> bool) \<Rightarrow> pystr \<Rightarrow> pystr" where
  "py_strip_chars p s = py_rstrip p (py_lstrip p s)"

definition py_strip :: "pystr \<Rightarrow> pystr" where
  "py_strip s = py_strip_chars py_isspace s"

function py_split :: "pystr \<Rightarrow> pystr list" where
  "py_split [] = []"
| "py_split (c # cs) =
     (if py_isspace c then py_split cs
      else (c # takeWhile (\<lambda>x. \<not> py_isspace x) cs)
           # py_split (dropWhile (\<lambda>x. \<not> py_isspace x) cs))"
  by pat_completeness auto
termination
  by (relation "measure length") (auto simp: le_imp_less_Suc length_dropWhile_le)

fun py_split_on :: "nat \<Rightarrow> pystr \<Rightarrow> pystr list" where
  "py_split_on d [] = [[]]"
| "py_split_on d (c # cs) =
     (if c = d then [] # py_split_on d cs
      else (case py_split_on d cs of [] \<Rightarrow> [[c]] | x # xs \<Rightarrow> (c # x) # xs))"

fun py_join :: "pystr \<Rightarrow> pystr list \<Rightarrow> pystr" where
  "py_join sep [] = []"
| "py_join sep [x] = x"
| "py_join sep (x # y # xs) = x @ sep @ py_join sep (y # xs)"

definition py_startswith :: "pystr \<Rightarrow> pystr \<Rightarrow> bool" where
  "py_startswith s p \<longleftrightarrow> take (length p) s = p"

fun py_contains :: "pystr \<Rightarrow> pystr \<Rightarrow> bool" where
  "py_contains p [] \<longleftrightarrow> p = []"
| "py_contains p (c # cs) \<longleftrightarrow> py_startswith (c # cs) p \<or> py_contains p cs"

definition upper_cp :: "ucd \<Rightarrow> nat \<Rightarrow> nat list" where
  "upper_cp u c = (if 97 \<le> c \<and> c \<le> 122 then [c - 32] else if c < 128 then [c] else u_upper u c)"

definition py_upper :: "ucd \<Rightarrow> pystr \<Rightarrow> pystr" where
  "py_upper u s = concat (map (upper_cp u) s)"

definition casefold_cp :: "ucd \<Rightarrow> nat \<Rightarrow> nat list" where
  "casefold_cp u c = (if 65 \<le> c \<and> c \<le> 90 then [c + 32] else if c < 128 then [c] else u_casefold u c)"

definition py_casefold :: "ucd \<Rightarrow> pystr \<Rightarrow> pystr" where
  "py_casefold u s = concat (map (casefold_cp u) s)"

fun py_lower_from :: "ucd \<Rightarrow> pystr \<Rightarrow> pystr \<Rightarrow> pystr" where
  "py_lower_from u before [] = []"
| "py_lower_from u before (c # cs) =
     (if 65 \<le> c \<and> c \<le> 90 then [c + 32] else if c < 128 then [c] else u_lower u before c cs)
     @ py_lower_from u (before @ [c]) cs"

definition py_lower :: "ucd \<Rightarrow> pystr \<Rightarrow> pystr" where
  "py_lower u s = py_lower_from u [] s"

section \<open>Decimal numbers\<close>

fun str_nat :: "nat \<Rightarrow> pystr" where
  "str_nat n = (if n < 10 then [48 + n] else str_nat (n div 10) @ [48 + n mod 10])"

declare str_nat.simps [simp del]

definition str_int :: "int \<Rightarrow> pystr" where
  "str_int i = (if i < 0 then 45 # str_nat (nat (- i)) else str_nat (nat i))"

definition val_nat :: "pystr \<Rightarrow> nat" where
  "val_nat ds = foldl (\<lambda>a d. 10 * a + (d - 48)) 0 ds"

lemma val_str_nat [simp]: "val_nat (str_nat n) = n"
proof (induction n rule: str_nat.induct)
  case (1 n)
  then show ?case
    by (subst str_nat.simps) (auto simp: val_nat_def)
qed

lemma str_nat_inject [simp]: "str_nat m = str_nat n \<longleftrightarrow> m = n"
  by (metis val_str_nat)

lemma str_nat_digits: "\<forall>d \<in> set (str_nat n). 48 \<le> d \<and> d \<le> 57"
proof (induction n rule: str_nat.induct)
  case (1 n)
  then show ?case by (subst str_nat.simps) auto
qed

lemma str_nat_not_minus: "str_nat n \<noteq> 45 # ds"
  using str_nat_digits [of n] by auto

lemma str_int_inject [simp]: "str_int i = str_int j \<longleftrightarrow> i = j"
  by (auto simp: str_int_def str_nat_not_minus [THEN not_sym] str_nat_not_minus nat_eq_iff split: if_splits)

section \<open>Properties of the string operations\<close>

lemma py_split_on_not_Nil [simp]: "py_split_on d s \<noteq> []"
  by (induction s) (auto split: list.splits)

lemma py_join_split_on: "py_join [d] (py_split_on d s) = s"
proof (induction s)
  case Nil
  then show ?case by simp
next
  case (Cons c cs)
  obtain x xs where x: "py_split_on d cs = x # xs" by (cases "py_split_on d cs") auto
  with Cons.IH show ?case by (cases xs) auto
qed

lemma dropWhile_all_append: "\<forall>c \<in> set a. p c \<Longrightarrow> dropWhile p (a @ s) = dropWhile p s"
  by (induction a) auto

lemma dropWhile_hd: "s \<noteq> [] \<Longrightarrow> \<not> p (hd s) \<Longrightarrow> dropWhile p s = s"
  by (cases s) auto

lemma strip_chars_surrounded:
  assumes "\<forall>c \<in> set a. p c" "\<forall>c \<in> set b. p c" "s \<noteq> []" "\<not> p (hd s)" "\<not> p (last s)"
  shows "py_strip_chars p (a @ s @ b) = s"
proof -
  have l: "dropWhile p (a @ s @ b) = s @ b"
    using assms by (simp add: dropWhile_all_append dropWhile_hd)
  have "dropWhile p (rev b @ rev s) = rev s"
    using assms by (simp add: dropWhile_all_append dropWhile_hd hd_rev)
  then show ?thesis by (simp add: py_strip_chars_def py_lstrip_def py_rstrip_def l)
qed

lemma strip_surrounded:
  assumes "\<forall>c \<in> set a. py_isspace c" "\<forall>c \<in> set b. py_isspace c" "s \<noteq> []"
    "\<forall>c \<in> set s. \<not> py_isspace c"
  shows "py_strip (a @ s @ b) = s"
  unfolding py_strip_def using assms by (intro strip_chars_surrounded) auto

lemma py_strip_clean: "py_strip s = [] \<or> \<not> py_isspace (hd (py_strip s)) \<and> \<not> py_isspace (last (py_strip s))"
proof (cases "py_strip s = []")
  case False
  let ?l = "dropWhile py_isspace s" and ?r = "dropWhile py_isspace (rev (dropWhile py_isspace s))"
  have t: "py_strip s = rev ?r" by (simp add: py_strip_def py_strip_chars_def py_rstrip_def py_lstrip_def)
  with False have r: "?r \<noteq> []" by auto
  then have "?l \<noteq> []" by (metis dropWhile.simps(1) rev.simps(1))
  then have "\<not> py_isspace (hd ?l)" by (rule hd_dropWhile)
  moreover have "?l = rev ?r @ rev (takeWhile py_isspace (rev ?l))"
    by (metis rev_append rev_rev_ident takeWhile_dropWhile_id)
  then have "hd ?l = hd (rev ?r)" using r by (metis hd_append2 rev_is_Nil_conv)
  ultimately show ?thesis using hd_dropWhile [OF r] r by (simp add: t last_rev)
qed simp

lemma py_split_no_space:
  assumes "s \<noteq> []" "\<forall>c \<in> set s. \<not> py_isspace c"
  shows "py_split s = [s]"
proof -
  obtain c cs where s: "s = c # cs" using assms(1) by (cases s) auto
  then have t: "takeWhile (\<lambda>x. \<not> py_isspace x) cs = cs" and d: "dropWhile (\<lambda>x. \<not> py_isspace x) cs = []"
    using assms(2) by (auto simp: takeWhile_eq_all_conv dropWhile_eq_Nil_conv)
  have "\<not> py_isspace c" using s assms(2) by simp
  then show ?thesis by (simp only: s py_split.simps t d if_False)
qed

lemma py_split_cons_word:
  assumes "w \<noteq> []" "\<forall>c \<in> set w. \<not> py_isspace c" "py_isspace b"
  shows "py_split (w @ b # rest) = w # py_split rest"
proof -
  obtain c cs where w: "w = c # cs" using assms(1) by (cases w) auto
  have "takeWhile (\<lambda>x. \<not> py_isspace x) (cs @ b # rest) = cs"
    using assms w by (subst takeWhile_append2) auto
  moreover have "dropWhile (\<lambda>x. \<not> py_isspace x) (cs @ b # rest) = b # rest"
    using assms w by (simp add: dropWhile_all_append)
  ultimately show ?thesis using assms w by simp
qed

lemma py_split_words: "w \<in> set (py_split s) \<Longrightarrow> w \<noteq> [] \<and> (\<forall>c \<in> set w. \<not> py_isspace c)"
proof (induction s arbitrary: w rule: py_split.induct)
  case (2 c cs)
  let ?t = "takeWhile (\<lambda>x. \<not> py_isspace x) cs" and ?d = "dropWhile (\<lambda>x. \<not> py_isspace x) cs"
  show ?case
  proof (cases "py_isspace c")
    case True
    with "2.prems" have "w \<in> set (py_split cs)" by simp
    with True show ?thesis by (rule "2.IH"(1))
  next
    case False
    have "py_split (c # cs) = (c # ?t) # py_split ?d" by (simp only: py_split.simps False if_False)
    with "2.prems" consider "w = c # ?t" | "w \<in> set (py_split ?d)" by auto
    then show ?thesis
    proof cases
      case 1
      have "\<forall>x \<in> set ?t. \<not> py_isspace x" using set_takeWhileD by fast
      with False show ?thesis unfolding 1 by auto
    next
      case 2
      with False show ?thesis by (rule "2.IH"(2))
    qed
  qed
qed simp

lemma py_split_Nil_iff: "py_split s = [] \<longleftrightarrow> (\<forall>c \<in> set s. py_isspace c)"
  by (induction s) auto

lemma py_startswith_append [simp]: "py_startswith (p @ s) p"
  by (simp add: py_startswith_def)

lemma py_contains_infix: "py_contains p s \<longleftrightarrow> (\<exists>a b. s = a @ p @ b)"
proof (induction s)
  case Nil
  then show ?case by auto
next
  case (Cons c cs)
  show ?case
  proof
    assume "py_contains p (c # cs)"
    then consider "py_startswith (c # cs) p" | "py_contains p cs" by auto
    then show "\<exists>a b. c # cs = a @ p @ b"
    proof cases
      case 1
      then have "c # cs = [] @ p @ drop (length p) (c # cs)"
        unfolding py_startswith_def by (metis append_Nil append_take_drop_id)
      then show ?thesis by blast
    next
      case 2
      with Cons.IH obtain a b where "cs = a @ p @ b" by blast
      then have "c # cs = (c # a) @ p @ b" by simp
      then show ?thesis by blast
    qed
  next
    assume "\<exists>a b. c # cs = a @ p @ b"
    then obtain a b where ab: "c # cs = a @ p @ b" by blast
    show "py_contains p (c # cs)"
    proof (cases a)
      case Nil
      with ab have "py_startswith (c # cs) p" by simp
      then show ?thesis by simp
    next
      case (Cons x xs)
      with ab have "cs = xs @ p @ b" by simp
      with Cons.IH show ?thesis by auto
    qed
  qed
qed

section \<open>Dictionaries\<close>

text \<open>The display \<open>{**d1, **d2}\<close> of Python: later keys win, a repeated key keeps its place.\<close>

definition dict_merge :: "('k \<times> 'v) list \<Rightarrow> ('k \<times> 'v) list \<Rightarrow> ('k \<times> 'v) list" where
  "dict_merge d1 d2 = fold (\<lambda>(k, v) d. AList.update k v d) d2 d1"

lemma map_of_dict_merge_other:
  "k \<notin> fst ` set d2 \<Longrightarrow> map_of (dict_merge d1 d2) k = map_of d1 k"
  unfolding dict_merge_def
  by (induction d2 arbitrary: d1) (auto simp: update_conv')

end
