(* ===== verification/Nats_Lifecycle.thy ===== *)
theory Nats_Lifecycle
  imports Prelude
begin

text \<open>
  \<open>clients/nats/lifecycle.py\<close>: \<open>NatsConnectionErrorPolicy\<close>, which decides at what level a failure of the
  connection is logged.  An operation gives the record it logs (its level and, where it names one,
  the number of failed attempts) and the state after it.

  The class promises that a long outage is escalated exactly once per incident, and that a
  successful reconnection begins a new one; the abstract specification \<open>incident_levels\<close> says so for
  one incident, and the policy is proved to refine it.
\<close>

datatype log_level = Level_Info | Level_Warning | Level_Error

record connection_error_policy =
  ep_service_name :: pystr
  ep_report_after_attempts :: int
  ep_consecutive_failures :: int
  ep_escalated :: bool

definition new_policy :: "pystr \<Rightarrow> int \<Rightarrow> connection_error_policy" where
  "new_policy service_name report_after_attempts =
     \<lparr>ep_service_name = service_name, ep_report_after_attempts = report_after_attempts,
      ep_consecutive_failures = 0, ep_escalated = False\<rparr>"

definition policy_reset :: "connection_error_policy \<Rightarrow> connection_error_policy" where
  "policy_reset p = p\<lparr>ep_consecutive_failures := 0, ep_escalated := False\<rparr>"

type_synonym log_entry = "log_level \<times> int option"

definition on_error :: "connection_error_policy \<Rightarrow> log_entry \<times> connection_error_policy" where
  "on_error p =
     (let p1 = p\<lparr>ep_consecutive_failures := ep_consecutive_failures p + 1\<rparr> in
      if ep_report_after_attempts p1 < ep_consecutive_failures p1 \<and> \<not> ep_escalated p1
      then ((Level_Error, Some (ep_consecutive_failures p1)), p1\<lparr>ep_escalated := True\<rparr>)
      else ((Level_Warning, Some (ep_consecutive_failures p1)), p1))"

definition on_disconnected :: "connection_error_policy \<Rightarrow> log_entry \<times> connection_error_policy" where
  "on_disconnected p = ((Level_Warning, None), p)"

definition on_reconnected :: "connection_error_policy \<Rightarrow> log_entry \<times> connection_error_policy" where
  "on_reconnected p = ((Level_Info, Some (ep_consecutive_failures p)), policy_reset p)"

definition on_closed :: "connection_error_policy \<Rightarrow> log_entry \<times> connection_error_policy" where
  "on_closed p = ((Level_Info, None), p)"

section \<open>A run of the policy\<close>

datatype connection_event = Ev_Error | Ev_Disconnected | Ev_Reconnected | Ev_Closed

fun policy_step :: "connection_error_policy \<Rightarrow> connection_event \<Rightarrow> log_entry \<times> connection_error_policy" where
  "policy_step p Ev_Error = on_error p"
| "policy_step p Ev_Disconnected = on_disconnected p"
| "policy_step p Ev_Reconnected = on_reconnected p"
| "policy_step p Ev_Closed = on_closed p"

fun policy_run ::
    "connection_error_policy \<Rightarrow> connection_event list \<Rightarrow> log_entry list \<times> connection_error_policy" where
  "policy_run p [] = ([], p)"
| "policy_run p (e # es) =
     (case policy_step p e of (l, p1) \<Rightarrow> case policy_run p1 es of (ls, p2) \<Rightarrow> (l # ls, p2))"

lemmas policy_defs = on_error_def on_disconnected_def on_reconnected_def on_closed_def policy_reset_def Let_def

lemma policy_run_Cons:
  "fst (policy_run p (e # es)) = fst (policy_step p e) # fst (policy_run (snd (policy_step p e)) es)"
  "snd (policy_run p (e # es)) = snd (policy_run (snd (policy_step p e)) es)"
  by (simp_all split: prod.split)

lemma policy_run_append:
  "fst (policy_run p (xs @ ys)) = fst (policy_run p xs) @ fst (policy_run (snd (policy_run p xs)) ys)"
proof (induction xs arbitrary: p)
  case (Cons e xs)
  then show ?case by (simp only: append_Cons policy_run_Cons)
qed simp

text \<open>The invariant: the state is the number of failures of the incident so far.\<close>

definition policy_ok :: "connection_error_policy \<Rightarrow> bool" where
  "policy_ok p \<longleftrightarrow> 0 \<le> ep_consecutive_failures p \<and>
     (ep_escalated p \<longleftrightarrow> 0 < ep_consecutive_failures p \<and> ep_report_after_attempts p < ep_consecutive_failures p)"

lemma policy_ok_new: "0 \<le> r \<Longrightarrow> policy_ok (new_policy s r)"
  by (simp add: policy_ok_def new_policy_def)

lemma policy_step_ok:
  assumes "policy_ok p"
  shows "policy_ok (snd (policy_step p e)) \<and>
    ep_report_after_attempts (snd (policy_step p e)) = ep_report_after_attempts p"
  using assms by (cases e) (auto simp: policy_ok_def policy_defs)

text \<open>The levels of one incident that begins after \<open>n\<close> failures.\<close>

fun incident_levels :: "int \<Rightarrow> int \<Rightarrow> connection_event list \<Rightarrow> log_level list" where
  "incident_levels r n [] = []"
| "incident_levels r n (Ev_Error # es) =
     (if n = max r 0 then Level_Error else Level_Warning) # incident_levels r (n + 1) es"
| "incident_levels r n (Ev_Disconnected # es) = Level_Warning # incident_levels r n es"
| "incident_levels r n (Ev_Reconnected # es) = Level_Info # incident_levels r 0 es"
| "incident_levels r n (Ev_Closed # es) = Level_Info # incident_levels r n es"

lemma policy_refines:
  assumes "policy_ok p"
  shows "map fst (fst (policy_run p es)) =
    incident_levels (ep_report_after_attempts p) (ep_consecutive_failures p) es"
  using assms
proof (induction es arbitrary: p)
  case (Cons e es)
  have ok: "policy_ok (snd (policy_step p e))"
    and r: "ep_report_after_attempts (snd (policy_step p e)) = ep_report_after_attempts p"
    using policy_step_ok [OF Cons.prems] by simp_all
  have "fst (fst (policy_step p e)) # incident_levels (ep_report_after_attempts p)
      (ep_consecutive_failures (snd (policy_step p e))) es =
      incident_levels (ep_report_after_attempts p) (ep_consecutive_failures p) (e # es)"
    using Cons.prems by (cases e) (auto simp: policy_defs policy_ok_def)
  then show ?case by (simp only: policy_run_Cons list.map Cons.IH [OF ok] r)
qed simp

lemma policy_run_ok:
  assumes "policy_ok p"
  shows "policy_ok (snd (policy_run p es)) \<and>
    ep_report_after_attempts (snd (policy_run p es)) = ep_report_after_attempts p"
  using assms
proof (induction es arbitrary: p)
  case (Cons e es)
  from policy_step_ok [OF Cons.prems, of e] Cons.IH [of "snd (policy_step p e)"]
  show ?case by (simp only: policy_run_Cons)
qed simp

lemma incident_levels_errors:
  assumes "Ev_Reconnected \<notin> set es" "0 \<le> r" "0 \<le> n"
  shows "count_list (incident_levels r n es) Level_Error =
    (if n \<le> r \<and> r < n + int (count_list es Ev_Error) then 1 else 0)"
  using assms
proof (induction es arbitrary: n)
  case (Cons e es)
  then have IH: "0 \<le> m \<Longrightarrow> count_list (incident_levels r m es) Level_Error =
      (if m \<le> r \<and> r < m + int (count_list es Ev_Error) then 1 else 0)" for m by simp
  show ?case using Cons.prems IH [of n] IH [of "n + 1"] by (cases e) auto
qed simp

section \<open>Properties\<close>

text \<open>
  C40. An outage is escalated exactly once per incident.  In any sequence of events after a reconnection
  (or a reset) and up to the next one, exactly one record is logged at level error if there are more
  failures than the policy tolerates, and none otherwise; it is the record of the first failure
  beyond the tolerated number.
\<close>

theorem escalates_once_per_incident:
  assumes "policy_ok p" "0 \<le> ep_report_after_attempts p" "Ev_Reconnected \<notin> set es"
  shows "let logs = fst (policy_run (policy_reset p) es); r = ep_report_after_attempts p in
    count_list (map fst logs) Level_Error = (if r < int (count_list es Ev_Error) then 1 else 0) \<and>
    map fst logs = incident_levels r 0 es"
proof -
  have ok: "policy_ok (policy_reset p)" by (simp add: policy_ok_def policy_reset_def)
  have r: "ep_report_after_attempts (policy_reset p) = ep_report_after_attempts p"
    "ep_consecutive_failures (policy_reset p) = 0" by (simp_all add: policy_reset_def)
  show ?thesis
    using incident_levels_errors [OF assms(3,2), of 0] assms(2)
    by (simp add: Let_def policy_refines [OF ok] r)
qed

text \<open>
  A reconnection ends the incident: whatever happened before it, what is logged after it is what a
  new policy logs.
\<close>

lemma reconnection_begins_anew:
  assumes "policy_ok p" "0 \<le> ep_report_after_attempts p"
  shows "map fst (fst (policy_run p (before @ Ev_Reconnected # after))) =
    map fst (fst (policy_run p before)) @ Level_Info #
    map fst (fst (policy_run (new_policy s (ep_report_after_attempts p)) after))"
proof -
  let ?p1 = "snd (policy_run p before)"
  have r: "ep_report_after_attempts ?p1 = ep_report_after_attempts p" using policy_run_ok [OF assms(1)] by simp
  have ok: "policy_ok (policy_reset ?p1)" by (simp add: policy_ok_def policy_reset_def)
  have "ep_report_after_attempts (policy_reset ?p1) = ep_report_after_attempts p"
    "ep_consecutive_failures (policy_reset ?p1) = 0" by (simp_all add: policy_reset_def r)
  then have "map fst (fst (policy_run (policy_reset ?p1) after)) =
      map fst (fst (policy_run (new_policy s (ep_report_after_attempts p)) after))"
    using policy_refines [OF ok, of after] policy_refines [OF policy_ok_new [OF assms(2)], of s after]
    by (simp add: new_policy_def)
  then show ?thesis
    by (simp add: policy_run_append policy_run_Cons on_reconnected_def del: policy_run.simps)
qed

end
