(* ===== verification/Py_Uuid.thy ===== *)
theory Py_Uuid
  imports Prelude
begin

text \<open>
  \<open>uuid.UUID\<close>: a 128-bit value, its constructor from text (\<open>uuid_of_str\<close>, with \<open>None\<close> for the
  \<open>ValueError\<close>) and its canonical text (\<open>uuid_str\<close>).  The constructor removes \<open>urn:\<close> and
  \<open>uuid:\<close>, strips braces, removes hyphens, wants 32 characters and reads them with \<open>int(hex, 16)\<close>,
  with everything that function accepts (white space, a sign, \<open>0x\<close>, underscores between digits).
  The services write \<open>UUID(str(x))\<close> to normalise an identifier; the round trip proved here is why
  the model uses the identifier itself.
\<close>

fun py_remove :: "pystr \<Rightarrow> pystr \<Rightarrow> pystr" where
  "py_remove [] s = s"
| "py_remove (p # ps) [] = []"
| "py_remove (p # ps) (c # cs) =
     (if py_startswith (c # cs) (p # ps) then py_remove (p # ps) (drop (length ps) cs)
      else c # py_remove (p # ps) cs)"

definition hex_val :: "nat \<Rightarrow> nat option" where
  "hex_val c = (if 48 \<le> c \<and> c \<le> 57 then Some (c - 48)
     else if 97 \<le> c \<and> c \<le> 102 then Some (c - 87)
     else if 65 \<le> c \<and> c \<le> 70 then Some (c - 55) else None)"

definition c_isspace :: "nat \<Rightarrow> bool" where
  "c_isspace c \<longleftrightarrow> (9 \<le> c \<and> c \<le> 13) \<or> c = 32"

text \<open>Digits with single underscores between them; the flag says that a digit came just before.\<close>

fun hex_digits :: "bool \<Rightarrow> nat \<Rightarrow> pystr \<Rightarrow> nat option" where
  "hex_digits d acc [] = (if d then Some acc else None)"
| "hex_digits d acc (c # cs) =
     (if c = 95 then (if d then hex_digits False acc cs else None)
      else (case hex_val c of None \<Rightarrow> None | Some v \<Rightarrow> hex_digits True (16 * acc + v) cs))"

text \<open>Characters beyond ASCII: white space reads as a space, a decimal digit as its value.\<close>

definition ascii_digit :: "ucd \<Rightarrow> nat \<Rightarrow> nat option" where
  "ascii_digit u c = (if c < 128 then Some c else if py_isspace c then Some 32
     else map_option (\<lambda>d. 48 + d) (u_decimal u c))"

definition drop_hex_prefix :: "pystr \<Rightarrow> pystr" where
  "drop_hex_prefix s =
     (case s of c # x # r \<Rightarrow>
        if c = 48 \<and> (x = 120 \<or> x = 88)
        then (case r of d # r' \<Rightarrow> if d = 95 then r' else r | [] \<Rightarrow> r) else s
      | _ \<Rightarrow> s)"

definition py_int_hex :: "ucd \<Rightarrow> pystr \<Rightarrow> int option" where
  "py_int_hex u s =
     (case those (map (ascii_digit u) s) of
        None \<Rightarrow> None
      | Some t \<Rightarrow>
          (let body = py_lstrip c_isspace t;
               neg = (body \<noteq> [] \<and> hd body = 45);
               unsigned = (if body \<noteq> [] \<and> (hd body = 43 \<or> hd body = 45) then tl body else body)
           in map_option (\<lambda>n. if neg then - int n else int n)
                (hex_digits False 0 (py_rstrip c_isspace (drop_hex_prefix unsigned)))))"

definition uuid_of_str :: "ucd \<Rightarrow> pystr \<Rightarrow> uuid option" where
  "uuid_of_str u s =
     (let h = py_remove (lit ''uuid:'') (py_remove (lit ''urn:'') s);
          hex = py_remove (lit ''-'') (py_strip_chars (\<lambda>c. c = 123 \<or> c = 125) h)
      in if length hex \<noteq> 32 then None
         else (case py_int_hex u hex of
                 None \<Rightarrow> None
               | Some i \<Rightarrow> if 0 \<le> i \<and> i < 2 ^ 128 then Some (word_of_int i) else None))"

definition hex_char :: "nat \<Rightarrow> nat" where
  "hex_char d = (if d < 10 then 48 + d else 87 + d)"

fun hex_fixed :: "nat \<Rightarrow> nat \<Rightarrow> pystr" where
  "hex_fixed 0 n = []"
| "hex_fixed (Suc k) n = hex_fixed k (n div 16) @ [hex_char (n mod 16)]"

definition uuid_hex :: "uuid \<Rightarrow> pystr" where
  "uuid_hex x = hex_fixed 32 (unat x)"

definition uuid_str :: "uuid \<Rightarrow> pystr" where
  "uuid_str x = (let h = uuid_hex x in
     take 8 h @ lit ''-'' @ take 4 (drop 8 h) @ lit ''-'' @ take 4 (drop 12 h) @ lit ''-''
     @ take 4 (drop 16 h) @ lit ''-'' @ drop 20 h)"

section \<open>Round trip\<close>

definition is_lower_hex :: "nat \<Rightarrow> bool" where
  "is_lower_hex c \<longleftrightarrow> (48 \<le> c \<and> c \<le> 57) \<or> (97 \<le> c \<and> c \<le> 102)"

lemma hex_val_char: "d < 16 \<Longrightarrow> hex_val (hex_char d) = Some d"
  by (auto simp: hex_val_def hex_char_def)

lemma is_lower_hex_char: "d < 16 \<Longrightarrow> is_lower_hex (hex_char d)"
  by (auto simp: is_lower_hex_def hex_char_def)

lemma length_hex_fixed [simp]: "length (hex_fixed k n) = k"
  by (induction k n rule: hex_fixed.induct) auto

lemma hex_fixed_lower: "c \<in> set (hex_fixed k n) \<Longrightarrow> is_lower_hex c"
  by (induction k n rule: hex_fixed.induct) (auto simp: is_lower_hex_char)

lemma hex_digits_append:
  "\<forall>c \<in> set xs. is_lower_hex c \<Longrightarrow>
   hex_digits d acc (xs @ ys) =
     hex_digits (d \<or> xs \<noteq> []) (foldl (\<lambda>a c. 16 * a + the (hex_val c)) acc xs) ys"
  by (induction xs arbitrary: d acc) (auto simp: is_lower_hex_def hex_val_def)

lemma foldl_hex_fixed:
  "foldl (\<lambda>a c. 16 * a + the (hex_val c)) 0 (hex_fixed k n) = n mod 16 ^ k"
proof (induction k n rule: hex_fixed.induct)
  case (2 k n)
  have "16 * (n div 16 mod 16 ^ k) + n mod 16 = n mod 16 ^ Suc k"
    by (simp add: mod_mult2_eq)
  with 2 show ?case by (simp add: hex_val_char)
qed simp

lemma hex_digits_fixed: "hex_digits False 0 (hex_fixed (Suc k) n) = Some (n mod 16 ^ Suc k)"
proof -
  have "hex_digits False 0 (hex_fixed (Suc k) n @ []) = Some (n mod 16 ^ Suc k)"
    by (subst hex_digits_append) (auto simp: foldl_hex_fixed dest: hex_fixed_lower simp del: hex_fixed.simps
        simp flip: length_0_conv)
  then show ?thesis by simp
qed

lemma py_remove_absent: "p \<notin> set s \<Longrightarrow> py_remove (p # ps) s = s"
  by (induction s) (auto simp: py_startswith_def)

lemma py_remove_char: "py_remove [p] s = filter (\<lambda>c. c \<noteq> p) s"
  by (induction s) (auto simp: py_startswith_def)

lemma those_map_Some: "\<forall>x \<in> set xs. f x = Some (g x) \<Longrightarrow> those (map f xs) = Some (map g xs)"
  by (induction xs) auto

lemma strip_chars_none:
  assumes "\<forall>c \<in> set s. \<not> p c"
  shows "py_strip_chars p s = s" "py_lstrip p s = s" "py_rstrip p s = s"
proof -
  have *: "dropWhile p t = t" if "set t = set s" for t
    using that assms by (cases t) auto
  have "dropWhile p s = s" "dropWhile p (rev s) = rev s"
    by (rule *, simp)+
  then show "py_strip_chars p s = s" "py_lstrip p s = s" "py_rstrip p s = s"
    by (simp_all add: py_strip_chars_def py_lstrip_def py_rstrip_def)
qed

lemma drop_hex_prefix_lower: "\<forall>c \<in> set s. is_lower_hex c \<Longrightarrow> drop_hex_prefix s = s"
  by (auto simp: drop_hex_prefix_def is_lower_hex_def split: list.splits)

lemma py_int_hex_lower:
  assumes "\<forall>c \<in> set s. is_lower_hex c" "s \<noteq> []"
  shows "py_int_hex u s = map_option int (hex_digits False 0 s)"
proof -
  have "those (map (ascii_digit u) s) = Some (map id s)"
    using assms(1) by (intro those_map_Some) (auto simp: ascii_digit_def is_lower_hex_def)
  then have t: "those (map (ascii_digit u) s) = Some s" by simp
  have sp: "\<forall>c \<in> set s. \<not> c_isspace c" using assms(1) by (auto simp: is_lower_hex_def c_isspace_def)
  have h: "hd s \<noteq> 45" "hd s \<noteq> 43" using assms by (cases s; auto simp: is_lower_hex_def)+
  show ?thesis
    using h by (simp add: py_int_hex_def t Let_def strip_chars_none [OF sp]
        drop_hex_prefix_lower [OF assms(1)] id_def option.map_ident)
qed

lemma uuid_hex_parts:
  "filter (\<lambda>c. c \<noteq> 45) (uuid_str x) = uuid_hex x"
  "\<forall>c \<in> set (uuid_str x). is_lower_hex c \<or> c = 45"
proof -
  let ?h = "uuid_hex x"
  have low: "c \<in> set ?h \<Longrightarrow> is_lower_hex c" for c by (auto simp: uuid_hex_def dest: hex_fixed_lower)
  have no: "filter (\<lambda>c. c \<noteq> 45) y = y" if "set y \<subseteq> set ?h" for y
  proof -
    have "\<forall>c \<in> set y. c \<noteq> 45"
    proof
      fix c assume "c \<in> set y"
      then have "is_lower_hex c" using that low by blast
      then show "c \<noteq> 45" by (auto simp: is_lower_hex_def)
    qed
    then show ?thesis by (simp add: filter_id_conv)
  qed
  have sub: "set (take n (drop m ?h)) \<subseteq> set ?h" "set (take n ?h) \<subseteq> set ?h" "set (drop n ?h) \<subseteq> set ?h" for n m
    by (auto dest!: in_set_takeD in_set_dropD)
  have cat: "take 8 ?h @ take 4 (drop 8 ?h) @ take 4 (drop 12 ?h) @ take 4 (drop 16 ?h) @ drop 20 ?h = ?h"
    using append_take_drop_id [of 8 ?h] append_take_drop_id [of 4 "drop 8 ?h"]
      append_take_drop_id [of 4 "drop 12 ?h"] append_take_drop_id [of 4 "drop 16 ?h"]
    by (simp del: append_take_drop_id)
  show "filter (\<lambda>c. c \<noteq> 45) (uuid_str x) = uuid_hex x"
    using cat by (simp add: uuid_str_def Let_def lit_def no sub)
  show "\<forall>c \<in> set (uuid_str x). is_lower_hex c \<or> c = 45"
    using low sub by (auto simp: uuid_str_def Let_def lit_def dest!: in_set_takeD in_set_dropD)
qed

lemma uuid_of_str_str: "uuid_of_str u (uuid_str x) = Some x"
proof -
  have cs: "\<forall>c \<in> set (uuid_str x). is_lower_hex c \<or> c = 45" by (rule uuid_hex_parts)
  have rm: "py_remove (lit ''urn:'') (uuid_str x) = uuid_str x"
    "py_remove (lit ''uuid:'') (uuid_str x) = uuid_str x"
    using cs by (auto simp: lit_def is_lower_hex_def intro!: py_remove_absent)
  have st: "py_strip_chars (\<lambda>c. c = 123 \<or> c = 125) (uuid_str x) = uuid_str x"
    using cs by (intro strip_chars_none) (auto simp: is_lower_hex_def)
  have hy: "py_remove (lit ''-'') (uuid_str x) = uuid_hex x"
    by (simp add: lit_def py_remove_char uuid_hex_parts)
  have "hex_digits False 0 (uuid_hex x) = Some (unat x mod 16 ^ 32)"
    using hex_digits_fixed [of 31 "unat x"] by (simp add: uuid_hex_def del: hex_fixed.simps)
  also have "unat x mod 16 ^ 32 = unat x"
  proof -
    have "unat x < 2 ^ 128" using unsigned_less [of x] by simp
    then show ?thesis by simp
  qed
  finally have "py_int_hex u (uuid_hex x) = Some (int (unat x))"
    by (subst py_int_hex_lower) (auto simp: uuid_hex_def dest: hex_fixed_lower simp flip: length_0_conv)
  moreover have "int (unat x) < 2 ^ 128" using uint_bounded [of x] by simp
  ultimately show ?thesis
    by (simp add: uuid_of_str_def rm st hy Let_def) (simp add: uuid_hex_def)
qed

lemma uuid_str_inject [simp]: "uuid_str x = uuid_str y \<longleftrightarrow> x = y"
  by (metis option.inject uuid_of_str_str)

end
