(* ===== verification/Program.thy ===== *)
theory Program
  imports Py_Uuid
begin

text \<open>
  Exceptions and programs.

  An exception is its class and its message.  \<open>mro\<close> is the class hierarchy of the exceptions the
  source defines (\<open>core/exceptions/base.py\<close>, the main-backend client, the delivery service, the
  bot, the smoke harness) and of the ones of Python and of the libraries it catches;
  \<open>except C\<close> catches an exception whose class has \<open>C\<close> among its ancestors.  The HTTP status of an
  application error is the class attribute \<open>status_code\<close>, found along the hierarchy.

  A coroutine of the source is a \<open>prog\<close>: a function of the state of the world that returns a value
  or raises, with the state it left behind in both cases, since an exception does not undo what was
  done before it.  \<open>wp\<close> is its weakest precondition (for both ways out) and \<open>keeps I\<close> says that
  it preserves \<open>I\<close> whichever way it ends.
\<close>

section \<open>Exception classes\<close>

datatype exn_class =
    BaseException | CancelledError | KeyboardInterrupt | PyException
  | ValueError | KeyError | IndexError | TypeError | RuntimeError | NotImplementedError | ArithmeticError | OverflowError
  | PyOSError | PyTimeoutError | PyConnectionError | ConnectionRefusedError | LookupError
  | ValidationError
  | SQLAlchemyError | DBAPIError | IntegrityError | DataError
  | NoResultFound | MultipleResultsFound
  | NatsError | NatsTimeoutError | JsNotFoundError | AiohttpClientError | VKAPIError
  | AppError | ClientError | NotFoundError | AlreadyExistsError | ConflictError | GoneError
  | RateLimitedError | ServiceUnavailableError
  | MainBackendClientError | MainBackendConnectionError | MainBackendTimeoutError
  | MainBackendResponseError
  | VkDeliveryRetryableError | PreflightError | SmokeHarnessGuardError | ConfigParserError

fun mro :: "exn_class \<Rightarrow> exn_class list" where
  "mro BaseException = [BaseException]"
| "mro CancelledError = [CancelledError, BaseException]"
| "mro KeyboardInterrupt = [KeyboardInterrupt, BaseException]"
| "mro PyException = [PyException, BaseException]"
| "mro ValueError = [ValueError, PyException, BaseException]"
| "mro TypeError = [TypeError, PyException, BaseException]"
| "mro LookupError = [LookupError, PyException, BaseException]"
| "mro IndexError = [IndexError, LookupError, PyException, BaseException]"
| "mro KeyError = [KeyError, LookupError, PyException, BaseException]"
| "mro RuntimeError = [RuntimeError, PyException, BaseException]"
| "mro NotImplementedError = [NotImplementedError, RuntimeError, PyException, BaseException]"
| "mro ArithmeticError = [ArithmeticError, PyException, BaseException]"
| "mro OverflowError = [OverflowError, ArithmeticError, PyException, BaseException]"
| "mro PyOSError = [PyOSError, PyException, BaseException]"
| "mro PyTimeoutError = [PyTimeoutError, PyOSError, PyException, BaseException]"
| "mro PyConnectionError = [PyConnectionError, PyOSError, PyException, BaseException]"
| "mro ConnectionRefusedError =
     [ConnectionRefusedError, PyConnectionError, PyOSError, PyException, BaseException]"
| "mro ValidationError = [ValidationError, ValueError, PyException, BaseException]"
| "mro SQLAlchemyError = [SQLAlchemyError, PyException, BaseException]"
| "mro DBAPIError = [DBAPIError, SQLAlchemyError, PyException, BaseException]"
| "mro IntegrityError = [IntegrityError, DBAPIError, SQLAlchemyError, PyException, BaseException]"
| "mro DataError = [DataError, DBAPIError, SQLAlchemyError, PyException, BaseException]"
| "mro NoResultFound = [NoResultFound, SQLAlchemyError, PyException, BaseException]"
| "mro MultipleResultsFound = [MultipleResultsFound, SQLAlchemyError, PyException, BaseException]"
| "mro NatsError = [NatsError, PyException, BaseException]"
| "mro NatsTimeoutError = [NatsTimeoutError, PyTimeoutError, PyOSError, PyException, BaseException]"
| "mro JsNotFoundError = [JsNotFoundError, NatsError, PyException, BaseException]"
| "mro AiohttpClientError = [AiohttpClientError, PyException, BaseException]"
| "mro VKAPIError = [VKAPIError, PyException, BaseException]"
| "mro AppError = [AppError, PyException, BaseException]"
| "mro ClientError = [ClientError, AppError, PyException, BaseException]"
| "mro NotFoundError = [NotFoundError, ClientError, AppError, PyException, BaseException]"
| "mro AlreadyExistsError = [AlreadyExistsError, ClientError, AppError, PyException, BaseException]"
| "mro ConflictError = [ConflictError, ClientError, AppError, PyException, BaseException]"
| "mro GoneError = [GoneError, ClientError, AppError, PyException, BaseException]"
| "mro RateLimitedError = [RateLimitedError, ClientError, AppError, PyException, BaseException]"
| "mro ServiceUnavailableError = [ServiceUnavailableError, AppError, PyException, BaseException]"
| "mro MainBackendClientError = [MainBackendClientError, AppError, PyException, BaseException]"
| "mro MainBackendConnectionError =
     [MainBackendConnectionError, MainBackendClientError, AppError, PyException, BaseException]"
| "mro MainBackendTimeoutError =
     [MainBackendTimeoutError, MainBackendClientError, AppError, PyException, BaseException]"
| "mro MainBackendResponseError =
     [MainBackendResponseError, MainBackendClientError, AppError, PyException, BaseException]"
| "mro VkDeliveryRetryableError = [VkDeliveryRetryableError, PyException, BaseException]"
| "mro PreflightError = [PreflightError, RuntimeError, PyException, BaseException]"
| "mro SmokeHarnessGuardError = [SmokeHarnessGuardError, ValueError, PyException, BaseException]"
| "mro ConfigParserError = [ConfigParserError, PyException, BaseException]"

datatype exn = Exn (exn_class: exn_class) (message: pystr)

definition isinstance :: "exn \<Rightarrow> exn_class \<Rightarrow> bool" where
  "isinstance e c \<longleftrightarrow> c \<in> set (mro (exn_class e))"

text \<open>The class attribute \<open>status_code\<close> where a class sets it.\<close>

fun own_status_code :: "exn_class \<Rightarrow> int option" where
  "own_status_code AppError = Some 500"
| "own_status_code ClientError = Some 400"
| "own_status_code NotFoundError = Some 404"
| "own_status_code AlreadyExistsError = Some 409"
| "own_status_code ConflictError = Some 409"
| "own_status_code GoneError = Some 410"
| "own_status_code RateLimitedError = Some 429"
| "own_status_code ServiceUnavailableError = Some 503"
| "own_status_code MainBackendClientError = Some 500"
| "own_status_code MainBackendConnectionError = Some 500"
| "own_status_code MainBackendTimeoutError = Some 500"
| "own_status_code MainBackendResponseError = Some 500"
| "own_status_code _ = None"

fun first_some :: "('a \<Rightarrow> 'b option) \<Rightarrow> 'a list \<Rightarrow> 'b option" where
  "first_some f [] = None"
| "first_some f (x # xs) = (case f x of None \<Rightarrow> first_some f xs | Some y \<Rightarrow> Some y)"

definition status_code :: "exn_class \<Rightarrow> int option" where
  "status_code c = first_some own_status_code (mro c)"

lemma isinstance_BaseException [simp]: "isinstance e BaseException"
  by (cases e; cases "exn_class e") (auto simp: isinstance_def)

lemma isinstance_Exn [simp]: "isinstance (Exn c m) d \<longleftrightarrow> d \<in> set (mro c)"
  by (simp add: isinstance_def)

lemma isinstance_not_cancelled: "isinstance e PyException \<Longrightarrow> \<not> isinstance e CancelledError"
  by (cases e; cases "exn_class e") (auto simp: isinstance_def)

lemma mro_self: "c \<in> set (mro c)"
  by (cases c) auto

lemma mro_app_error: "AppError \<in> set (mro c) \<Longrightarrow> \<exists>s. status_code c = Some s \<and> 400 \<le> s \<and> s < 600"
  by (cases c) (auto simp: status_code_def)

section \<open>Programs\<close>

type_synonym ('w, 'a) prog = "'w \<Rightarrow> (exn + 'a) \<times> 'w"

definition retM :: "'a \<Rightarrow> ('w, 'a) prog" where
  "retM x = (\<lambda>w. (Inr x, w))"

definition throwM :: "exn \<Rightarrow> ('w, 'a) prog" where
  "throwM e = (\<lambda>w. (Inl e, w))"

abbreviation raiseM :: "exn_class \<Rightarrow> pystr \<Rightarrow> ('w, 'a) prog" where
  "raiseM c m \<equiv> throwM (Exn c m)"

definition bindM :: "('w, 'a) prog \<Rightarrow> ('a \<Rightarrow> ('w, 'b) prog) \<Rightarrow> ('w, 'b) prog" where
  "bindM m f = (\<lambda>w. case m w of (Inl e, w') \<Rightarrow> (Inl e, w') | (Inr x, w') \<Rightarrow> f x w')"

definition thenM :: "('w, 'a) prog \<Rightarrow> ('w, 'b) prog \<Rightarrow> ('w, 'b) prog" where
  "thenM m n = bindM m (\<lambda>_. n)"

text \<open>\<open>try: m except (cs) as e: h e\<close>\<close>

definition catchM :: "('w, 'a) prog \<Rightarrow> exn_class list \<Rightarrow> (exn \<Rightarrow> ('w, 'a) prog) \<Rightarrow> ('w, 'a) prog" where
  "catchM m cs h =
     (\<lambda>w. case m w of
            (Inl e, w') \<Rightarrow> if list_ex (isinstance e) cs then h e w' else (Inl e, w')
          | (Inr x, w') \<Rightarrow> (Inr x, w'))"

text \<open>\<open>try: m finally: f\<close>; an exception of \<open>f\<close> replaces the outcome.\<close>

definition finallyM :: "('w, 'a) prog \<Rightarrow> ('w, unit) prog \<Rightarrow> ('w, 'a) prog" where
  "finallyM m f =
     (\<lambda>w. case m w of (r, w') \<Rightarrow> (case f w' of (Inl e, w'') \<Rightarrow> (Inl e, w'') | (Inr _, w'') \<Rightarrow> (r, w'')))"

definition getsM :: "('w \<Rightarrow> 'a) \<Rightarrow> ('w, 'a) prog" where
  "getsM f = (\<lambda>w. (Inr (f w), w))"

definition modifyM :: "('w \<Rightarrow> 'w) \<Rightarrow> ('w, unit) prog" where
  "modifyM f = (\<lambda>w. (Inr (), f w))"

lemma run_simps [prog_simps]:
  "retM x w = (Inr x, w)"
  "throwM e w = (Inl e, w)"
  "getsM f w = (Inr (f w), w)"
  "modifyM g w = (Inr (), g w)"
  by (simp_all add: retM_def throwM_def getsM_def modifyM_def)

lemma bindM_run [prog_simps]:
  "bindM m f w = (case m w of (Inl e, w') \<Rightarrow> (Inl e, w') | (Inr x, w') \<Rightarrow> f x w')"
  by (simp add: bindM_def)

lemma thenM_run [prog_simps]:
  "thenM m n w = (case m w of (Inl e, w') \<Rightarrow> (Inl e, w') | (Inr x, w') \<Rightarrow> n w')"
  by (simp add: thenM_def bindM_def)

lemma catchM_run [prog_simps]:
  "catchM m cs h w =
     (case m w of
        (Inl e, w') \<Rightarrow> if list_ex (isinstance e) cs then h e w' else (Inl e, w')
      | (Inr x, w') \<Rightarrow> (Inr x, w'))"
  by (simp add: catchM_def)

section \<open>Weakest preconditions\<close>

definition wp :: "('w, 'a) prog \<Rightarrow> ('a \<Rightarrow> 'w \<Rightarrow> bool) \<Rightarrow> (exn \<Rightarrow> 'w \<Rightarrow> bool) \<Rightarrow> 'w \<Rightarrow> bool" where
  "wp m Q E w = (case m w of (Inl e, w') \<Rightarrow> E e w' | (Inr x, w') \<Rightarrow> Q x w')"

text \<open>A choice between two conditions on a world, whose branches the simplifier enters.\<close>

definition upon :: "bool \<Rightarrow> ('w \<Rightarrow> bool) \<Rightarrow> ('w \<Rightarrow> bool) \<Rightarrow> 'w \<Rightarrow> bool" where
  "upon b P R w = (if b then P w else R w)"

lemma upon_simps [simp]: "upon True P R = P" "upon False P R = R" "upon b P P = P"
  by (simp_all add: fun_eq_iff upon_def)

lemma upon_apply [simp]: "upon b P R w \<longleftrightarrow> (b \<longrightarrow> P w) \<and> (\<not> b \<longrightarrow> R w)"
  by (simp add: upon_def)

lemma wp_if [simp]: "wp (if b then m else n) Q E = upon b (wp m Q E) (wp n Q E)"
  by simp

lemma wp_ret [simp]: "wp (retM x) Q E = Q x"
  by (simp add: fun_eq_iff wp_def retM_def)

lemma wp_throw [simp]: "wp (throwM e) Q E = E e"
  by (simp add: fun_eq_iff wp_def throwM_def)

lemma wp_bind [simp]: "wp (bindM m f) Q E = wp m (\<lambda>x. wp (f x) Q E) E"
  by (simp add: fun_eq_iff wp_def bindM_def split: prod.split sum.split)

lemma wp_then [simp]: "wp (thenM m n) Q E = wp m (\<lambda>_. wp n Q E) E"
  by (simp add: thenM_def)

lemma wp_catch [simp]:
  "wp (catchM m cs h) Q E =
     wp m Q (\<lambda>e. upon (list_ex (isinstance e) cs) (wp (h e) Q E) (E e))"
  by (simp add: fun_eq_iff wp_def catchM_def upon_def split: prod.split sum.split)

lemma wp_gets [simp]: "wp (getsM f) Q E = (\<lambda>w. Q (f w) w)"
  by (simp add: fun_eq_iff wp_def getsM_def)

lemma wp_modify [simp]: "wp (modifyM f) Q E = (\<lambda>w. Q () (f w))"
  by (simp add: fun_eq_iff wp_def modifyM_def)

lemma wp_mono:
  "wp m Q E w \<Longrightarrow> (\<And>x w'. Q x w' \<Longrightarrow> Q' x w') \<Longrightarrow> (\<And>e w'. E e w' \<Longrightarrow> E' e w') \<Longrightarrow> wp m Q' E' w"
  by (auto simp: wp_def split: prod.splits sum.splits)

lemma wp_conj: "wp m Q E w \<Longrightarrow> wp m Q' E' w \<Longrightarrow> wp m (\<lambda>x w. Q x w \<and> Q' x w) (\<lambda>e w. E e w \<and> E' e w) w"
  by (auto simp: wp_def split: prod.splits sum.splits)

lemma wp_runI: "m w = (Inr x, w') \<Longrightarrow> Q x w' \<Longrightarrow> wp m Q E w"
  by (simp add: wp_def)

lemma wp_InrD: "wp m Q E w \<Longrightarrow> m w = (Inr x, w') \<Longrightarrow> Q x w'"
  by (simp add: wp_def)

lemma wp_InlD: "wp m Q E w \<Longrightarrow> m w = (Inl e, w') \<Longrightarrow> E e w'"
  by (simp add: wp_def)

section \<open>Preservation\<close>

definition keeps :: "('w \<Rightarrow> bool) \<Rightarrow> ('w, 'a) prog \<Rightarrow> bool" where
  "keeps I m \<longleftrightarrow> (\<forall>w. I w \<longrightarrow> I (snd (m w)))"

lemma keepsI: "(\<And>w. I w \<Longrightarrow> wp m (\<lambda>_. I) (\<lambda>_. I) w) \<Longrightarrow> keeps I m"
  by (force simp: keeps_def wp_def split: prod.splits sum.splits)

lemma keepsD: "keeps I m \<Longrightarrow> I w \<Longrightarrow> wp m (\<lambda>_. I) (\<lambda>_. I) w"
  by (force simp: keeps_def wp_def split: prod.splits sum.splits)

lemma keeps_run: "keeps I m \<Longrightarrow> I w \<Longrightarrow> m w = (r, w') \<Longrightarrow> I w'"
  by (metis keeps_def snd_conv)

lemma keeps_ret [intro]: "keeps I (retM x)"
  by (simp add: keeps_def retM_def)

lemma keeps_throw [intro]: "keeps I (throwM e)"
  by (simp add: keeps_def throwM_def)

lemma keeps_gets [intro]: "keeps I (getsM f)"
  by (simp add: keeps_def getsM_def)

lemma keeps_bind [intro]:
  assumes "keeps I m" "\<And>x. keeps I (f x)"
  shows "keeps I (bindM m f)"
proof (rule keepsI)
  fix w assume "I w"
  then have "wp m (\<lambda>_. I) (\<lambda>_. I) w" by (rule keepsD [OF assms(1)])
  then show "wp (bindM m f) (\<lambda>_. I) (\<lambda>_. I) w"
    unfolding wp_bind by (rule wp_mono) (auto intro: keepsD [OF assms(2)])
qed

lemma keeps_then [intro]: "keeps I m \<Longrightarrow> keeps I n \<Longrightarrow> keeps I (thenM m n)"
  unfolding thenM_def by (rule keeps_bind)

lemma keeps_catch [intro]:
  assumes "keeps I m" "\<And>e. keeps I (h e)"
  shows "keeps I (catchM m cs h)"
proof (rule keepsI)
  fix w assume "I w"
  then have "wp m (\<lambda>_. I) (\<lambda>_. I) w" by (rule keepsD [OF assms(1)])
  then show "wp (catchM m cs h) (\<lambda>_. I) (\<lambda>_. I) w"
    unfolding wp_catch by (rule wp_mono) (auto intro: keepsD [OF assms(2)])
qed

end
