(* ===== verification/Py_Float.thy ===== *)
theory Py_Float
  imports Complex_Main
begin

text \<open>
  The floating point numbers of Python, as far as the source uses them: a finite number, the two
  infinities and \<open>nan\<close>, compared and multiplied by an integer.  A comparison with \<open>nan\<close> is false,
  whichever it is, so a bound that is checked by looking for a number beyond it lets \<open>nan\<close> pass.

  A finite number is the rational it stands for.  What is not modelled is the rounding of a product
  to the nearest double, its overflow, and the sign of zero.
\<close>

datatype py_float = Finite rat | Plus_Infinity | Minus_Infinity | Not_A_Number

text \<open>\<open>x < y\<close> and \<open>x <= y\<close>\<close>

fun float_less :: "py_float \<Rightarrow> py_float \<Rightarrow> bool" where
  "float_less (Finite x) (Finite y) \<longleftrightarrow> x < y"
| "float_less (Finite x) Plus_Infinity \<longleftrightarrow> True"
| "float_less Minus_Infinity (Finite y) \<longleftrightarrow> True"
| "float_less Minus_Infinity Plus_Infinity \<longleftrightarrow> True"
| "float_less x y \<longleftrightarrow> False"

fun float_le :: "py_float \<Rightarrow> py_float \<Rightarrow> bool" where
  "float_le Not_A_Number y \<longleftrightarrow> False"
| "float_le x Not_A_Number \<longleftrightarrow> False"
| "float_le x y \<longleftrightarrow> x = y \<or> float_less x y"

text \<open>\<open>x * n\<close> and \<open>bool(x)\<close>\<close>

fun float_times :: "py_float \<Rightarrow> int \<Rightarrow> py_float" where
  "float_times (Finite x) n = Finite (x * of_int n)"
| "float_times Not_A_Number n = Not_A_Number"
| "float_times Plus_Infinity n = (if 0 < n then Plus_Infinity else if n < 0 then Minus_Infinity else Not_A_Number)"
| "float_times Minus_Infinity n = (if 0 < n then Minus_Infinity else if n < 0 then Plus_Infinity else Not_A_Number)"

definition float_true :: "py_float \<Rightarrow> bool" where
  "float_true x \<longleftrightarrow> x \<noteq> Finite 0"

lemma float_le_iff: "float_le x y \<longleftrightarrow> x \<noteq> Not_A_Number \<and> y \<noteq> Not_A_Number \<and> \<not> float_less y x"
  by (cases x; cases y) auto

lemma not_below_iff: "\<not> float_less x (Finite b) \<longleftrightarrow> x = Not_A_Number \<or> x = Plus_Infinity \<or> (\<exists>q. x = Finite q \<and> b \<le> q)"
  by (cases x) auto

lemma not_above_iff: "\<not> float_less (Finite b) x \<longleftrightarrow> x = Not_A_Number \<or> x = Minus_Infinity \<or> (\<exists>q. x = Finite q \<and> q \<le> b)"
  by (cases x) auto

lemma positive_iff: "float_less (Finite 0) x \<longleftrightarrow> x = Plus_Infinity \<or> (\<exists>q. x = Finite q \<and> 0 < q)"
  by (cases x) auto

lemma float_times_positive: "float_less (Finite 0) x \<Longrightarrow> 0 < n \<Longrightarrow> float_less (Finite 0) (float_times x n)"
  by (cases x) auto

lemma float_true_positive: "float_less (Finite 0) x \<Longrightarrow> float_true x"
  by (auto simp: float_true_def)

text \<open>Multiples of a positive finite number grow, and those of an infinite one do not shrink.\<close>

lemma float_times_grows:
  "float_less (Finite 0) x \<Longrightarrow> m < n \<Longrightarrow> x = Plus_Infinity \<or> float_less (float_times x m) (float_times x n)"
  by (cases x) (auto simp: mult_strict_left_mono)

end
