(* ===== verification/Settings.thy ===== *)
theory Settings
  imports Program Py_Float
begin

text \<open>
  \<open>src/settings.py\<close>: the settings with their defaults, the bounds their fields declare, and the
  validators and derived values the source writes itself.  Reading the environment and converting
  its strings to field types is the settings library's work; a settings record holds the converted
  values, and \<open>valid\<close> says which ones the declared bounds (\<open>ge\<close>, \<open>gt\<close>, \<open>le\<close>) admit.  The settings
  library refuses a float for \<open>ge=b\<close> when it is less than \<open>b\<close>, for \<open>le=b\<close> when \<open>b\<close> is less than it, and
  for \<open>gt=b\<close> when it is at most \<open>b\<close>; so \<open>nan\<close> is never refused.
\<close>

section \<open>Values from the environment\<close>

datatype env_value = EnvStr pystr | EnvInt int

definition ascii_isdigit :: "ucd \<Rightarrow> nat \<Rightarrow> bool" where
  "ascii_isdigit u c \<longleftrightarrow> (if c < 128 then 48 \<le> c \<and> c \<le> 57 else u_digit u c)"

definition py_isdigit :: "ucd \<Rightarrow> pystr \<Rightarrow> bool" where
  "py_isdigit u s \<longleftrightarrow> s \<noteq> [] \<and> list_all (ascii_isdigit u) s"

definition py_split_list :: "pystr \<Rightarrow> pystr list" where
  "py_split_list raw = filter (\<lambda>s. s \<noteq> []) (map py_strip (py_split_on 44 raw))"

section \<open>VK\<close>

record vk_settings =
  vk_group_token :: pystr
  vk_group_id :: int
  vk_group_screen_name :: pystr
  vk_api_version :: pystr
  vk_bot_link_command :: pystr
  vk_confirmation_ttl_minutes :: int
  vk_confirmation_code_length :: int
  vk_confirmation_max_attempts :: int
  vk_confirmation_attempt_window_minutes :: int
  vk_longpoll_wait_seconds :: int

definition default_vk_settings :: vk_settings where
  "default_vk_settings =
     \<lparr>vk_group_token = [], vk_group_id = 0, vk_group_screen_name = [], vk_api_version = lit ''5.199'',
      vk_bot_link_command = lit ''/link'', vk_confirmation_ttl_minutes = 30,
      vk_confirmation_code_length = 8, vk_confirmation_max_attempts = 5,
      vk_confirmation_attempt_window_minutes = 10, vk_longpoll_wait_seconds = 25\<rparr>"

definition vk_settings_valid :: "vk_settings \<Rightarrow> bool" where
  "vk_settings_valid s \<longleftrightarrow>
     1 \<le> vk_confirmation_ttl_minutes s \<and>
     4 \<le> vk_confirmation_code_length s \<and> vk_confirmation_code_length s \<le> 16 \<and>
     1 \<le> vk_confirmation_max_attempts s \<and> 1 \<le> vk_confirmation_attempt_window_minutes s \<and>
     1 \<le> vk_longpoll_wait_seconds s \<and> vk_longpoll_wait_seconds s \<le> 90"

definition treat_placeholder_group_id_as_unset :: "ucd \<Rightarrow> env_value \<Rightarrow> env_value" where
  "treat_placeholder_group_id_as_unset u value =
     (case value of
        EnvStr s \<Rightarrow> if \<not> py_isdigit u (py_lstrip (\<lambda>c. c = 45) (py_strip s)) then EnvInt 0 else value
      | EnvInt i \<Rightarrow> value)"

definition is_group_configured :: "vk_settings \<Rightarrow> bool" where
  "is_group_configured s \<longleftrightarrow> py_strip (vk_group_screen_name s) \<noteq> [] \<and> 0 < vk_group_id s"

definition is_token_usable :: "vk_settings \<Rightarrow> bool" where
  "is_token_usable s \<longleftrightarrow>
     (let token = py_strip (vk_group_token s) in token \<noteq> [] \<and> \<not> py_startswith token (lit ''<''))"

definition group_url :: "vk_settings \<Rightarrow> pystr" where
  "group_url s = lit ''https://vk.com/'' @ py_strip (vk_group_screen_name s)"

definition dialog_url :: "vk_settings \<Rightarrow> pystr" where
  "dialog_url s = lit ''https://vk.me/'' @ py_strip (vk_group_screen_name s)"

section \<open>NATS\<close>

record nats_settings =
  nats_servers_raw :: pystr
  nats_stream_site_events :: pystr
  nats_stream_notification_commands :: pystr
  nats_consumer_notification_commands_send_vk :: pystr
  nats_subject_notification_commands_send_vk :: pystr
  nats_subjects_notification_commands_raw :: pystr
  nats_consumer_ack_wait_seconds :: int
  nats_consumer_max_deliver :: int
  nats_error_report_after_attempts :: int
  nats_setup_max_attempts :: int
  nats_setup_backoff_seconds :: py_float
  nats_consumer_fetch_batch_size :: int
  nats_consumer_fetch_timeout_seconds :: py_float

definition default_nats_settings :: nats_settings where
  "default_nats_settings =
     \<lparr>nats_servers_raw = lit ''nats://localhost:4222'',
      nats_stream_site_events = lit ''SITE_EVENTS'',
      nats_stream_notification_commands = lit ''NOTIFICATION_COMMANDS'',
      nats_consumer_notification_commands_send_vk = lit ''vk-service-commands-send-vk'',
      nats_subject_notification_commands_send_vk = lit ''commands.notification.vk.send'',
      nats_subjects_notification_commands_raw = lit ''commands.notification.>'',
      nats_consumer_ack_wait_seconds = 30, nats_consumer_max_deliver = 5,
      nats_error_report_after_attempts = 3, nats_setup_max_attempts = 10,
      nats_setup_backoff_seconds = Finite 2, nats_consumer_fetch_batch_size = 10,
      nats_consumer_fetch_timeout_seconds = Finite 5\<rparr>"

definition nats_settings_valid :: "nats_settings \<Rightarrow> bool" where
  "nats_settings_valid s \<longleftrightarrow>
     1 \<le> nats_consumer_ack_wait_seconds s \<and> 1 \<le> nats_consumer_max_deliver s \<and>
     1 \<le> nats_error_report_after_attempts s \<and> 1 \<le> nats_setup_max_attempts s \<and>
     \<not> float_less (nats_setup_backoff_seconds s) (Finite 0) \<and> 1 \<le> nats_consumer_fetch_batch_size s \<and>
     \<not> float_le (nats_consumer_fetch_timeout_seconds s) (Finite 0)"

definition nats_servers :: "nats_settings \<Rightarrow> pystr list" where
  "nats_servers s =
     (if py_strip (nats_servers_raw s) \<noteq> [] then py_split_list (nats_servers_raw s)
      else [lit ''nats://localhost:4222''])"

definition nats_subjects_notification_commands :: "nats_settings \<Rightarrow> pystr list" where
  "nats_subjects_notification_commands s =
     (if py_strip (nats_subjects_notification_commands_raw s) \<noteq> []
      then py_split_list (nats_subjects_notification_commands_raw s)
      else [lit ''commands.notification.>''])"

section \<open>Production secrets\<close>

record app_settings =
  app_environment :: pystr
  app_debug :: bool
  app_title :: pystr
  postgres_user :: pystr
  postgres_password :: pystr
  postgres_host :: pystr
  postgres_port :: int
  postgres_db :: pystr

definition default_app_settings :: app_settings where
  "default_app_settings =
     \<lparr>app_environment = lit ''development'', app_debug = True, app_title = lit ''VK Service'',
      postgres_user = lit ''app'', postgres_password = lit ''app'', postgres_host = lit ''localhost'',
      postgres_port = 5432, postgres_db = lit ''app''\<rparr>"

definition required_secrets :: "pystr list" where
  "required_secrets =
     [lit ''POSTGRES_PASSWORD'', lit ''REDIS_PASSWORD'', lit ''CELERY_APP_BROKER'',
      lit ''CELERY_APP_BACKEND'', lit ''MAIN_BACKEND_SERVICE_KEY'', lit ''NATS_SERVERS'',
      lit ''VK_GROUP_TOKEN'']"

definition unsafe_values :: "pystr list" where
  "unsafe_values = [[], lit ''app'', lit ''changeme'', lit ''eqsitecmsredis'']"

text \<open>\<open>os.getenv(name, "")\<close> is a lookup in the environment of the process.\<close>

definition is_unsafe :: "ucd \<Rightarrow> (pystr \<rightharpoonup> pystr) \<Rightarrow> pystr \<Rightarrow> bool" where
  "is_unsafe u environ name \<longleftrightarrow>
     (let value = py_lower u (py_strip (case environ name of None \<Rightarrow> [] | Some v \<Rightarrow> v)) in
      value \<in> set unsafe_values \<or>
      list_ex (\<lambda>marker. py_contains marker value) [lit ''<set-'', lit ''<generate-''])"

definition validate_production_secrets ::
    "ucd \<Rightarrow> (pystr \<rightharpoonup> pystr) \<Rightarrow> app_settings \<Rightarrow> ('w, app_settings) prog" where
  "validate_production_secrets u environ s =
     (if py_lower u (app_environment s) = lit ''production''
      then
        (let invalid = filter (is_unsafe u environ) required_secrets in
         if invalid \<noteq> []
         then raiseM ValueError (lit ''Unsafe or missing production settings: '' @ py_join (lit '', '') invalid)
         else retM s)
      else retM s)"

definition database_url :: "app_settings \<Rightarrow> pystr" where
  "database_url s =
     lit ''postgresql+asyncpg://'' @ postgres_user s @ lit '':'' @ postgres_password s @ lit ''@''
     @ postgres_host s @ lit '':'' @ str_int (postgres_port s) @ lit ''/'' @ postgres_db s"

section \<open>Sentry\<close>

record sentry_settings =
  sentry_enabled :: bool
  sentry_dsn :: pystr
  sentry_environment :: pystr
  sentry_traces_sample_rate :: py_float
  sentry_release :: "pystr option"

definition validate_sentry_configuration :: "sentry_settings \<Rightarrow> ('w, sentry_settings) prog" where
  "validate_sentry_configuration s =
     (let s' = s\<lparr>sentry_dsn := py_strip (sentry_dsn s),
                 sentry_environment := py_strip (sentry_environment s),
                 sentry_release :=
                   (let r = py_strip (case sentry_release s of None \<Rightarrow> [] | Some v \<Rightarrow> v) in
                    if r = [] then None else Some r)\<rparr> in
      if sentry_enabled s' \<and> sentry_dsn s' = []
      then raiseM ValueError (lit ''SENTRY_DSN is required when SENTRY_ENABLED=true'')
      else retM s')"

section \<open>Lists of servers and secrets\<close>

text \<open>
  The servers the client connects to are never blank and carry no white space around them, and a
  setting of white space alone falls back to the default.  Not every setting that names no server
  does: one of commas and white space gives an empty list.
\<close>

theorem nats_servers_clean:
  "(\<forall>x \<in> set (nats_servers s). x \<noteq> [] \<and> \<not> py_isspace (hd x) \<and> \<not> py_isspace (last x)) \<and>
   (py_strip (nats_servers_raw s) = [] \<longrightarrow> nats_servers s = [lit ''nats://localhost:4222'']) \<and>
   (nats_servers s = [] \<longleftrightarrow>
      py_strip (nats_servers_raw s) \<noteq> [] \<and> (\<forall>x \<in> set (py_split_on 44 (nats_servers_raw s)). py_strip x = []))"
proof -
  have "x \<noteq> [] \<and> \<not> py_isspace (hd x) \<and> \<not> py_isspace (last x)" if "x \<in> set (py_split_list r)" for x r
    using that py_strip_clean by (auto simp: py_split_list_def)
  moreover have "\<not> py_isspace (hd (lit ''nats://localhost:4222''))" "\<not> py_isspace (last (lit ''nats://localhost:4222''))"
    by (simp_all add: lit_def py_isspace_def)
  ultimately show ?thesis
    by (auto simp: nats_servers_def py_split_list_def filter_empty_conv)
qed

text \<open>
  A production process does not start on a placeholder: when a required secret is missing, blank, a
  published default or contains the marker of a template, in any case and with white space around
  it, the settings are refused.
\<close>

theorem production_needs_secrets:
  assumes "py_lower u (app_environment s) = lit ''production''" "n \<in> set required_secrets"
    and "case environ n of None \<Rightarrow> True
      | Some v \<Rightarrow> \<exists>a b x. py_lower u (py_strip v) = x \<and>
          (x = [] \<or> x = lit ''changeme'' \<or> x = a @ lit ''<set-'' @ b \<or> x = a @ lit ''<generate-'' @ b)"
  shows "\<exists>m. validate_production_secrets u environ s w = (Inl (Exn ValueError m), w) \<and> py_contains n m"
proof -
  have "is_unsafe u environ n"
  proof (cases "environ n")
    case None
    then show ?thesis by (simp add: is_unsafe_def unsafe_values_def py_strip_def py_strip_chars_def py_lstrip_def
        py_rstrip_def py_lower_def)
  next
    case (Some v)
    then show ?thesis using assms(3) py_contains_infix by (auto simp: is_unsafe_def unsafe_values_def Let_def)
  qed
  then have n: "n \<in> set (filter (is_unsafe u environ) required_secrets)" (is "_ \<in> set ?bad") using assms(2) by simp
  have join: "n \<in> set xs \<Longrightarrow> \<exists>a b. py_join sep xs = a @ n @ b" for sep xs
  proof (induction sep xs rule: py_join.induct)
    case (3 sep x y xs)
    show ?case
    proof (cases "n = x")
      case True
      then have "py_join sep (x # y # xs) = [] @ n @ (sep @ py_join sep (y # xs))" by simp
      then show ?thesis by blast
    next
      case False
      with 3 obtain a b where "py_join sep (y # xs) = a @ n @ b" by auto
      then have "py_join sep (x # y # xs) = (x @ sep @ a) @ n @ b" by simp
      then show ?thesis by blast
    qed
  qed (auto intro: exI [of _ "[]"])
  obtain a b where ab: "py_join (lit '', '') ?bad = a @ n @ b" using join [OF n] by blast
  have "lit ''Unsafe or missing production settings: '' @ py_join (lit '', '') ?bad =
      (lit ''Unsafe or missing production settings: '' @ a) @ n @ b" by (simp add: ab)
  then have "py_contains n (lit ''Unsafe or missing production settings: '' @ py_join (lit '', '') ?bad)"
    unfolding py_contains_infix by blast
  moreover have "?bad \<noteq> []" using n by (metis empty_iff list.set(1))
  ultimately show ?thesis using assms(1) by (simp add: validate_production_secrets_def prog_simps)
qed

end
