(* ===== verification/Messages.thy ===== *)
theory Messages
  imports Program
begin

text \<open>
  The texts of the source that are not ASCII, as lists of code points: the messages of the
  application errors raised by \<open>core/services\<close> and \<open>api/endpoints\<close>, the replies of
  \<open>bot/replies.py\<close> and the notice sent on unlinking.  The bot tells two conflicts apart by
  looking for a piece of text in the message, so the texts are data of the model.
\<close>

text \<open>The account is already linked.\<close>

definition msg_conflict_active :: pystr where
  "msg_conflict_active =
   [1040, 1082, 1082, 1072, 1091, 1085, 1090, 32, 86, 75, 32, 1091, 1078, 1077, 32, 1087, 1088,
    1080, 1074, 1103, 1079, 1072, 1085]"

text \<open>The bot is blocked.\<close>

definition msg_conflict_blocked :: pystr where
  "msg_conflict_blocked =
   [1041, 1086, 1090, 32, 1079, 1072, 1073, 1083, 1086, 1082, 1080, 1088, 1086, 1074, 1072,
    1085, 58, 32, 1088, 1072, 1079, 1088, 1077, 1096, 1080, 1090, 1077, 32, 1089, 1086, 1086,
    1073, 1097, 1077, 1085, 1080, 1103, 32, 1086, 1090, 32, 1075, 1088, 1091, 1087, 1087, 1099,
    32, 1074, 32, 1076, 1080, 1072, 1083, 1086, 1075, 1077, 32, 1089, 32, 1073, 1086, 1090,
    1086, 1084]"

text \<open>No unique code could be generated.\<close>

definition msg_no_unique_code :: pystr where
  "msg_no_unique_code =
   [1053, 1077, 32, 1091, 1076, 1072, 1083, 1086, 1089, 1100, 32, 1089, 1075, 1077, 1085, 1077,
    1088, 1080, 1088, 1086, 1074, 1072, 1090, 1100, 32, 1091, 1085, 1080, 1082, 1072, 1083,
    1100, 1085, 1099, 1081, 32, 1082, 1086, 1076, 32, 1087, 1086, 1076, 1090, 1074, 1077, 1088,
    1078, 1076, 1077, 1085, 1080, 1103, 44, 32, 1087, 1086, 1074, 1090, 1086, 1088, 1080, 1090,
    1077, 32, 1087, 1086, 1087, 1099, 1090, 1082, 1091]"

text \<open>The notice sent on unlinking.\<close>

definition UNLINK_MESSAGE :: pystr where
  "UNLINK_MESSAGE =
   [1055, 1088, 1080, 1074, 1103, 1079, 1082, 1072, 32, 1101, 1090, 1086, 1075, 1086, 32, 1072,
    1082, 1082, 1072, 1091, 1085, 1090, 1072, 32, 86, 75, 32, 1082, 32, 1087, 1088, 1086, 1092,
    1080, 1083, 1102, 32, 69, 113, 83, 105, 116, 101, 67, 77, 83, 32, 1086, 1090, 1084, 1077,
    1085, 1077, 1085, 1072, 46, 32, 1063, 1090, 1086, 1073, 1099, 32, 1087, 1088, 1080, 1074,
    1103, 1079, 1072, 1090, 1100, 32, 1072, 1082, 1082, 1072, 1091, 1085, 1090, 32, 1089, 1085,
    1086, 1074, 1072, 44, 32, 1087, 1086, 1083, 1091, 1095, 1080, 1090, 1077, 32, 1085, 1086,
    1074, 1099, 1081, 32, 1082, 1086, 1076, 32, 1074, 32, 1085, 1072, 1089, 1090, 1088, 1086,
    1081, 1082, 1072, 1093, 32, 1091, 1074, 1077, 1076, 1086, 1084, 1083, 1077, 1085, 1080,
    1081, 46]"

text \<open>The code is not valid.\<close>

definition msg_code_invalid :: pystr where
  "msg_code_invalid =
   [1050, 1086, 1076, 32, 1087, 1086, 1076, 1090, 1074, 1077, 1088, 1078, 1076, 1077, 1085,
    1080, 1103, 32, 1085, 1077, 1076, 1077, 1081, 1089, 1090, 1074, 1080, 1090, 1077, 1083,
    1077, 1085]"

text \<open>The code has been used.\<close>

definition msg_code_used :: pystr where
  "msg_code_used =
   [1050, 1086, 1076, 32, 1087, 1086, 1076, 1090, 1074, 1077, 1088, 1078, 1076, 1077, 1085,
    1080, 1103, 32, 1091, 1078, 1077, 32, 1080, 1089, 1087, 1086, 1083, 1100, 1079, 1086, 1074,
    1072, 1085]"

text \<open>The code has expired.\<close>

definition msg_code_expired :: pystr where
  "msg_code_expired =
   [1057, 1088, 1086, 1082, 32, 1076, 1077, 1081, 1089, 1090, 1074, 1080, 1103, 32, 1082, 1086,
    1076, 1072, 32, 1087, 1086, 1076, 1090, 1074, 1077, 1088, 1078, 1076, 1077, 1085, 1080,
    1103, 32, 1080, 1089, 1090, 1105, 1082]"

text \<open>The binding was not found.\<close>

definition msg_binding_missing :: pystr where
  "msg_binding_missing =
   [1055, 1088, 1080, 1074, 1103, 1079, 1082, 1072, 32, 1085, 1077, 32, 1085, 1072, 1081, 1076,
    1077, 1085, 1072]"

text \<open>The account is linked to another user.\<close>

definition msg_peer_conflict :: pystr where
  "msg_peer_conflict =
   [1069, 1090, 1086, 1090, 32, 1072, 1082, 1082, 1072, 1091, 1085, 1090, 32, 86, 75, 32, 1091,
    1078, 1077, 32, 1087, 1088, 1080, 1074, 1103, 1079, 1072, 1085, 32, 1082, 32, 1076, 1088,
    1091, 1075, 1086, 1084, 1091, 32, 1087, 1086, 1083, 1100, 1079, 1086, 1074, 1072, 1090,
    1077, 1083, 1102]"

text \<open>Too many failed attempts.\<close>

definition msg_rate_limited :: pystr where
  "msg_rate_limited =
   [1057, 1083, 1080, 1096, 1082, 1086, 1084, 32, 1084, 1085, 1086, 1075, 1086, 32, 1085, 1077,
    1091, 1076, 1072, 1095, 1085, 1099, 1093, 32, 1087, 1086, 1087, 1099, 1090, 1086, 1082, 44,
    32, 1087, 1086, 1074, 1090, 1086, 1088, 1080, 1090, 1077, 32, 1087, 1086, 1079, 1078, 1077]"

text \<open>The marker the bot looks for in the message of a conflict.\<close>

definition another_user :: pystr where
  "another_user =
   [1076, 1088, 1091, 1075, 1086, 1084, 1091, 32, 1087, 1086, 1083, 1100, 1079, 1086, 1074,
    1072, 1090, 1077, 1083, 1102]"

text \<open>Reply: linked.\<close>

definition LINKED :: pystr where
  "LINKED =
   [1043, 1086, 1090, 1086, 1074, 1086, 33, 32, 1069, 1090, 1086, 1090, 32, 1072, 1082, 1082,
    1072, 1091, 1085, 1090, 32, 86, 75, 32, 1087, 1088, 1080, 1074, 1103, 1079, 1072, 1085, 32,
    1082, 32, 1074, 1072, 1096, 1077, 1084, 1091, 32, 1087, 1088, 1086, 1092, 1080, 1083, 1102,
    32, 69, 113, 83, 105, 116, 101, 67, 77, 83, 46, 32, 1059, 1074, 1077, 1076, 1086, 1084,
    1083, 1077, 1085, 1080, 1103, 32, 1073, 1091, 1076, 1091, 1090, 32, 1087, 1088, 1080, 1093,
    1086, 1076, 1080, 1090, 1100, 32, 1074, 32, 1101, 1090, 1086, 1090, 32, 1076, 1080, 1072,
    1083, 1086, 1075, 46]"

text \<open>Reply: already linked.\<close>

definition ALREADY_LINKED :: pystr where
  "ALREADY_LINKED =
   [1069, 1090, 1086, 1090, 32, 1072, 1082, 1082, 1072, 1091, 1085, 1090, 32, 86, 75, 32, 1091,
    1078, 1077, 32, 1087, 1088, 1080, 1074, 1103, 1079, 1072, 1085, 32, 1082, 32, 1074, 1072,
    1096, 1077, 1084, 1091, 32, 1087, 1088, 1086, 1092, 1080, 1083, 1102, 32, 69, 113, 83, 105,
    116, 101, 67, 77, 83, 44, 32, 1087, 1086, 1074, 1090, 1086, 1088, 1085, 1086, 1077, 32,
    1087, 1086, 1076, 1090, 1074, 1077, 1088, 1078, 1076, 1077, 1085, 1080, 1077, 32, 1085,
    1077, 32, 1090, 1088, 1077, 1073, 1091, 1077, 1090, 1089, 1103, 46]"

text \<open>Reply: the code does not fit.\<close>

definition CODE_INVALID :: pystr where
  "CODE_INVALID =
   [1050, 1086, 1076, 32, 1085, 1077, 32, 1087, 1086, 1076, 1093, 1086, 1076, 1080, 1090, 46,
    32, 1055, 1086, 1083, 1091, 1095, 1080, 1090, 1077, 32, 1085, 1086, 1074, 1099, 1081, 32,
    1082, 1086, 1076, 32, 1074, 32, 1085, 1072, 1089, 1090, 1088, 1086, 1081, 1082, 1072, 1093,
    32, 1091, 1074, 1077, 1076, 1086, 1084, 1083, 1077, 1085, 1080, 1081, 32, 69, 113, 83, 105,
    116, 101, 67, 77, 83, 32, 1080, 32, 1086, 1090, 1087, 1088, 1072, 1074, 1100, 1090, 1077,
    32, 1077, 1075, 1086, 32, 1089, 1085, 1086, 1074, 1072, 46]"

text \<open>Reply: the code was used.\<close>

definition CODE_USED :: pystr where
  "CODE_USED =
   [1069, 1090, 1086, 1090, 32, 1082, 1086, 1076, 32, 1091, 1078, 1077, 32, 1080, 1089, 1087,
    1086, 1083, 1100, 1079, 1086, 1074, 1072, 1085, 46, 32, 1055, 1086, 1083, 1091, 1095, 1080,
    1090, 1077, 32, 1085, 1086, 1074, 1099, 1081, 32, 1082, 1086, 1076, 32, 1074, 32, 1085,
    1072, 1089, 1090, 1088, 1086, 1081, 1082, 1072, 1093, 32, 1091, 1074, 1077, 1076, 1086,
    1084, 1083, 1077, 1085, 1080, 1081, 32, 69, 113, 83, 105, 116, 101, 67, 77, 83, 46]"

text \<open>Reply: the code has expired.\<close>

definition CODE_EXPIRED :: pystr where
  "CODE_EXPIRED =
   [1057, 1088, 1086, 1082, 32, 1076, 1077, 1081, 1089, 1090, 1074, 1080, 1103, 32, 1082, 1086,
    1076, 1072, 32, 1080, 1089, 1090, 1105, 1082, 46, 32, 1055, 1086, 1083, 1091, 1095, 1080,
    1090, 1077, 32, 1085, 1086, 1074, 1099, 1081, 32, 1082, 1086, 1076, 32, 1074, 32, 1085,
    1072, 1089, 1090, 1088, 1086, 1081, 1082, 1072, 1093, 32, 1091, 1074, 1077, 1076, 1086,
    1084, 1083, 1077, 1085, 1080, 1081, 32, 69, 113, 83, 105, 116, 101, 67, 77, 83, 46]"

text \<open>Reply: linked to another profile.\<close>

definition PEER_CONFLICT :: pystr where
  "PEER_CONFLICT =
   [1069, 1090, 1086, 1090, 32, 1072, 1082, 1082, 1072, 1091, 1085, 1090, 32, 86, 75, 32, 1091,
    1078, 1077, 32, 1087, 1088, 1080, 1074, 1103, 1079, 1072, 1085, 32, 1082, 32, 1076, 1088,
    1091, 1075, 1086, 1084, 1091, 32, 1087, 1088, 1086, 1092, 1080, 1083, 1102, 32, 69, 113, 83,
    105, 116, 101, 67, 77, 83, 46, 32, 1057, 1085, 1072, 1095, 1072, 1083, 1072, 32, 1086, 1090,
    1074, 1103, 1078, 1080, 1090, 1077, 32, 1077, 1075, 1086, 32, 1074, 32, 1085, 1072, 1089,
    1090, 1088, 1086, 1081, 1082, 1072, 1093, 46]"

text \<open>Reply: too many attempts.\<close>

definition RATE_LIMITED :: pystr where
  "RATE_LIMITED =
   [1057, 1083, 1080, 1096, 1082, 1086, 1084, 32, 1084, 1085, 1086, 1075, 1086, 32, 1085, 1077,
    1091, 1076, 1072, 1095, 1085, 1099, 1093, 32, 1087, 1086, 1087, 1099, 1090, 1086, 1082, 46,
    32, 1055, 1086, 1087, 1088, 1086, 1073, 1091, 1081, 1090, 1077, 32, 1077, 1097, 1105, 32,
    1088, 1072, 1079, 32, 1087, 1086, 1079, 1078, 1077, 46]"

text \<open>Reply: the instruction, before the command.\<close>

definition instruction_head :: pystr where
  "instruction_head =
   [1063, 1090, 1086, 1073, 1099, 32, 1087, 1088, 1080, 1074, 1103, 1079, 1072, 1090, 1100, 32,
    1072, 1082, 1082, 1072, 1091, 1085, 1090, 32, 86, 75, 32, 1082, 32, 1087, 1088, 1086, 1092,
    1080, 1083, 1102, 32, 69, 113, 83, 105, 116, 101, 67, 77, 83, 44, 32, 1086, 1090, 1087,
    1088, 1072, 1074, 1100, 1090, 1077, 32, 1089, 1086, 1086, 1073, 1097, 1077, 1085, 1080,
    1077, 32, 1074, 32, 1092, 1086, 1088, 1084, 1072, 1090, 1077, 32, 171]"

text \<open>Reply: the instruction, after the command.\<close>

definition instruction_tail :: pystr where
  "instruction_tail =
   [32, 1050, 1054, 1044, 187, 46, 32, 1050, 1086, 1076, 32, 1084, 1086, 1078, 1085, 1086, 32,
    1087, 1086, 1083, 1091, 1095, 1080, 1090, 1100, 32, 1074, 32, 67, 77, 83, 58, 32, 171, 1059,
    1074, 1077, 1076, 1086, 1084, 1083, 1077, 1085, 1080, 1103, 187, 32, 8594, 32, 171, 1053,
    1072, 1089, 1090, 1088, 1086, 1081, 1082, 1080, 187, 32, 8594, 32, 171, 86, 75, 32, 1076,
    1083, 1103, 32, 1091, 1074, 1077, 1076, 1086, 1084, 1083, 1077, 1085, 1080, 1081, 187, 46]"

text \<open>A malformed user id.\<close>

definition msg_bad_user_id :: pystr where
  "msg_bad_user_id =
   [1053, 1077, 1082, 1086, 1088, 1088, 1077, 1082, 1090, 1085, 1099, 1081, 32, 1080, 1076,
    1077, 1085, 1090, 1080, 1092, 1080, 1082, 1072, 1090, 1086, 1088, 32, 1087, 1086, 1083,
    1100, 1079, 1086, 1074, 1072, 1090, 1077, 1083, 1103, 58, 32]"

text \<open>No user ids in the parameter.\<close>

definition msg_no_user_ids :: pystr where
  "msg_no_user_ids =
   [1055, 1072, 1088, 1072, 1084, 1077, 1090, 1088, 32, 117, 115, 101, 114, 95, 105, 100, 115,
    32, 1085, 1077, 32, 1089, 1086, 1076, 1077, 1088, 1078, 1080, 1090, 32, 1080, 1076, 1077,
    1085, 1090, 1080, 1092, 1080, 1082, 1072, 1090, 1086, 1088, 1086, 1074]"

text \<open>An unknown binding state.\<close>

definition msg_bad_state :: pystr where
  "msg_bad_state =
   [1053, 1077, 1080, 1079, 1074, 1077, 1089, 1090, 1085, 1086, 1077, 32, 1089, 1086, 1089,
    1090, 1086, 1103, 1085, 1080, 1077, 32, 1087, 1088, 1080, 1074, 1103, 1079, 1082, 1080, 58,
    32]"

text \<open>The VK group is not configured.\<close>

definition msg_group_not_configured :: pystr where
  "msg_group_not_configured =
   [1050, 1086, 1085, 1092, 1080, 1075, 1091, 1088, 1072, 1094, 1080, 1103, 32, 1075, 1088,
    1091, 1087, 1087, 1099, 32, 86, 75, 32, 1085, 1077, 32, 1079, 1072, 1074, 1077, 1088, 1096,
    1077, 1085, 1072]"

section \<open>What the bot relies on\<close>

lemma peer_conflict_has_marker: "py_contains another_user msg_peer_conflict"
  by (simp add: another_user_def msg_peer_conflict_def py_startswith_def)

lemma code_used_no_marker: "\<not> py_contains another_user msg_code_used"
  by (simp add: another_user_def msg_code_used_def py_startswith_def)

end
