(* ===== verification/Database.thy ===== *)
theory Database
  imports Messages
begin

text \<open>
  The tables of \<open>src/models\<close> (and of the migrations that create them), the constraints they
  declare, and the state of the world a database session works in.

  A table is the list of its rows.  A statement of a repository is translated clause by clause:
  \<open>SELECT ... WHERE p\<close> filters, \<open>UPDATE ... WHERE p\<close> rewrites the rows with \<open>p\<close>, \<open>INSERT\<close>
  appends.  A statement whose result would break a declared constraint (primary key, unique index,
  partial unique index, foreign key, check) raises \<open>IntegrityError\<close> and changes nothing; a value
  that does not fit its column raises \<open>DataError\<close>.  \<open>db\<close> is what the current session sees,
  \<open>committed\<close> what has been committed: \<open>commit\<close> copies the first to the second, \<open>rollback\<close> the
  second to the first; either ends the transaction and releases its advisory locks (\<open>locks\<close>).

  What the program reads from outside (the clock of the process, \<open>now()\<close> of the database server,
  random numbers, the answers of the VK API) is a function of a counter (\<open>tick\<close>) that every such
  read advances, and the identifiers drawn at random are a function of the number of those drawn
  before (\<open>drawn\<close>): parameters of every run, about which nothing is assumed unless a lemma says so.  \<open>outbox\<close> records the calls of \<open>messages.send\<close> and whether each returned
  (a call that raised may have delivered its message or not).
\<close>

section \<open>Rows\<close>

record user_vk =
  uv_id :: uuid
  uv_user_id :: uuid
  uv_peer_id :: "int option"
  uv_state :: pystr
  uv_screen_name :: "pystr option"
  uv_display_name :: "pystr option"
  uv_deleted_at :: "datetime option"
  uv_created_at :: datetime
  uv_updated_at :: datetime

record vk_confirmation =
  cf_id :: uuid
  cf_user_vk_id :: uuid
  cf_code :: pystr
  cf_expires_at :: datetime
  cf_created_at :: datetime
  cf_used_at :: "datetime option"

type_synonym details = "(pystr \<times> pystr) list"

record vk_log =
  lg_id :: uuid
  lg_event_uuid :: uuid
  lg_action :: pystr
  lg_status :: pystr
  lg_details :: details
  lg_created_at :: datetime

record vk_delivery =
  dl_id :: uuid
  dl_event_uuid :: uuid
  dl_user_id :: uuid
  dl_peer_id :: int
  dl_status :: pystr
  dl_attempts :: int
  dl_last_error :: "pystr option"
  dl_created_at :: datetime
  dl_updated_at :: datetime
  dl_sent_at :: "datetime option"

record db =
  user_vks :: "user_vk list"
  vk_confirmations :: "vk_confirmation list"
  vk_logs :: "vk_log list"
  vk_deliveries :: "vk_delivery list"

section \<open>Declared constraints\<close>

abbreviation live :: "user_vk \<Rightarrow> bool" where
  "live r \<equiv> uv_deleted_at r = None"

definition user_vks_ok :: "user_vk list \<Rightarrow> bool" where
  "user_vks_ok rows \<longleftrightarrow>
     distinct (map uv_id rows) \<and>
     distinct (map uv_user_id (filter live rows)) \<and>
     distinct (map uv_peer_id (filter (\<lambda>r. live r \<and> uv_peer_id r \<noteq> None) rows))"

definition vk_confirmations_ok :: "user_vk list \<Rightarrow> vk_confirmation list \<Rightarrow> bool" where
  "vk_confirmations_ok users rows \<longleftrightarrow>
     distinct (map cf_id rows) \<and>
     distinct (map cf_code rows) \<and>
     (\<forall>c \<in> set rows. cf_user_vk_id c \<in> set (map uv_id users))"

definition vk_logs_ok :: "vk_log list \<Rightarrow> bool" where
  "vk_logs_ok rows \<longleftrightarrow> distinct (map lg_id rows) \<and> distinct (map lg_event_uuid rows)"

definition delivery_statuses :: "pystr list" where
  "delivery_statuses = [lit ''PENDING'', lit ''SENT'', lit ''FAILED'']"

definition vk_deliveries_ok :: "vk_delivery list \<Rightarrow> bool" where
  "vk_deliveries_ok rows \<longleftrightarrow>
     distinct (map dl_id rows) \<and>
     distinct (map (\<lambda>r. (dl_event_uuid r, dl_user_id r)) rows) \<and>
     (\<forall>r \<in> set rows. dl_status r \<in> set delivery_statuses) \<and>
     (\<forall>r \<in> set rows. 0 \<le> dl_attempts r)"

definition constraints_ok :: "db \<Rightarrow> bool" where
  "constraints_ok d \<longleftrightarrow>
     user_vks_ok (user_vks d) \<and>
     vk_confirmations_ok (user_vks d) (vk_confirmations d) \<and>
     vk_logs_ok (vk_logs d) \<and>
     vk_deliveries_ok (vk_deliveries d)"

section \<open>Column types\<close>

definition fits_bigint :: "int \<Rightarrow> bool" where
  "fits_bigint i \<longleftrightarrow> - (2 ^ 63) \<le> i \<and> i < 2 ^ 63"

definition fits_integer :: "int \<Rightarrow> bool" where
  "fits_integer i \<longleftrightarrow> - (2 ^ 31) \<le> i \<and> i < 2 ^ 31"

definition fits_varchar :: "nat \<Rightarrow> pystr \<Rightarrow> bool" where
  "fits_varchar n s \<longleftrightarrow> length s \<le> n"

definition opt_fits :: "('a \<Rightarrow> bool) \<Rightarrow> 'a option \<Rightarrow> bool" where
  "opt_fits p x = (case x of None \<Rightarrow> True | Some y \<Rightarrow> p y)"

definition user_vk_fits :: "user_vk \<Rightarrow> bool" where
  "user_vk_fits r \<longleftrightarrow>
     opt_fits fits_bigint (uv_peer_id r) \<and> fits_varchar 16 (uv_state r) \<and>
     opt_fits (fits_varchar 64) (uv_screen_name r) \<and> opt_fits (fits_varchar 255) (uv_display_name r)"

definition vk_confirmation_fits :: "vk_confirmation \<Rightarrow> bool" where
  "vk_confirmation_fits r \<longleftrightarrow> fits_varchar 16 (cf_code r)"

definition vk_log_fits :: "vk_log \<Rightarrow> bool" where
  "vk_log_fits r \<longleftrightarrow> fits_varchar 64 (lg_action r) \<and> fits_varchar 32 (lg_status r)"

definition vk_delivery_fits :: "vk_delivery \<Rightarrow> bool" where
  "vk_delivery_fits r \<longleftrightarrow>
     fits_bigint (dl_peer_id r) \<and> fits_varchar 16 (dl_status r) \<and> fits_integer (dl_attempts r) \<and>
     opt_fits (fits_varchar 64) (dl_last_error r)"

definition columns_ok :: "db \<Rightarrow> bool" where
  "columns_ok d \<longleftrightarrow>
     list_all user_vk_fits (user_vks d) \<and> list_all vk_confirmation_fits (vk_confirmations d) \<and>
     list_all vk_log_fits (vk_logs d) \<and> list_all vk_delivery_fits (vk_deliveries d)"

definition db_ok :: "db \<Rightarrow> bool" where
  "db_ok d \<longleftrightarrow> columns_ok d \<and> constraints_ok d"

section \<open>The world\<close>

record vk_user =
  vu_first_name :: "pystr option"
  vu_last_name :: "pystr option"
  vu_screen_name :: "pystr option"

record vk_call =
  vc_peer_id :: int
  vc_message :: pystr
  vc_random_id :: nat
  vc_returned :: bool

record world =
  db :: db
  committed :: db
  tick :: nat
  drawn :: nat
  clock :: "nat \<Rightarrow> datetime"
  db_now :: "nat \<Rightarrow> datetime"
  random :: "nat \<Rightarrow> nat"
  uuids :: "nat \<Rightarrow> uuid"
  vk_send_answer :: "nat \<Rightarrow> int \<Rightarrow> pystr \<Rightarrow> nat \<Rightarrow> bool"
  vk_users_answer :: "nat \<Rightarrow> int \<Rightarrow> vk_user list option"
  hashtext :: "pystr \<Rightarrow> int"
  locks :: "(int \<times> int) list"
  outbox :: "vk_call list"

text \<open>\<open>datetime.now(UTC)\<close>, \<open>secrets.choice\<close> (the index it draws), \<open>uuid4\<close> and \<open>gen_random_uuid()\<close>.\<close>

definition tick_read :: "(('x world_scheme) \<Rightarrow> nat \<Rightarrow> 'a) \<Rightarrow> ('x world_scheme, 'a) prog" where
  "tick_read f = (\<lambda>w. (Inr (f w (tick w)), w\<lparr>tick := Suc (tick w)\<rparr>))"

definition now_utc :: "('x world_scheme, datetime) prog" where
  "now_utc = tick_read clock"

definition server_now :: "('x world_scheme, datetime) prog" where
  "server_now = tick_read db_now"

definition fresh_uuid :: "('x world_scheme, uuid) prog" where
  "fresh_uuid = (\<lambda>w. (Inr (uuids w (drawn w)), w\<lparr>drawn := Suc (drawn w)\<rparr>))"

definition choice_index :: "nat \<Rightarrow> ('x world_scheme, nat) prog" where
  "choice_index n = tick_read (\<lambda>w t. random w t mod n)"

text \<open>
  Arithmetic on \<open>datetime\<close>: the result must lie between the years 1 and 9999, or Python raises
  \<open>OverflowError\<close>.
\<close>

definition datetime_min :: datetime where
  "datetime_min = -62135596800000000"

definition datetime_max :: datetime where
  "datetime_max = 253402300799999999"

definition add_minutes :: "datetime \<Rightarrow> int \<Rightarrow> ('w, datetime) prog" where
  "add_minutes t m =
     (let t' = t + m * 60000000 in
      if datetime_min \<le> t' \<and> t' \<le> datetime_max then retM t'
      else raiseM OverflowError (lit ''date value out of range''))"

section \<open>Sessions\<close>

definition commit :: "('x world_scheme, unit) prog" where
  "commit = modifyM (\<lambda>w. w\<lparr>committed := db w, locks := []\<rparr>)"

definition rollback :: "('x world_scheme, unit) prog" where
  "rollback = modifyM (\<lambda>w. w\<lparr>db := committed w, locks := []\<rparr>)"

text \<open>A new session sees what has been committed.\<close>

definition open_session :: "('x world_scheme, unit) prog" where
  "open_session = modifyM (\<lambda>w. w\<lparr>db := committed w, locks := []\<rparr>)"

text \<open>\<open>pg_advisory_xact_lock(hashtext(a), hashtext(b))\<close>: held until the transaction ends.\<close>

definition advisory_xact_lock :: "pystr \<Rightarrow> pystr \<Rightarrow> ('x world_scheme, unit) prog" where
  "advisory_xact_lock a b = modifyM (\<lambda>w. w\<lparr>locks := (hashtext w a, hashtext w b) # locks w\<rparr>)"

section \<open>Statements\<close>

definition one_or_none :: "'a list \<Rightarrow> ('w, 'a option) prog" where
  "one_or_none rows =
     (case rows of [] \<Rightarrow> retM None
      | [r] \<Rightarrow> retM (Some r)
      | _ \<Rightarrow> raiseM MultipleResultsFound (lit ''Multiple rows were found when one or none was required''))"

definition exactly_one :: "'a list \<Rightarrow> ('w, 'a) prog" where
  "exactly_one rows =
     (case rows of [] \<Rightarrow> raiseM NoResultFound (lit ''No row was found when one was required'')
      | [r] \<Rightarrow> retM r
      | _ \<Rightarrow> raiseM MultipleResultsFound (lit ''Multiple rows were found when exactly one was required''))"

text \<open>
  A statement that writes: its bound parameters must be encodable (\<open>bound\<close>), the values must fit
  their columns, and the tables it leaves must satisfy the declared constraints.
\<close>

definition exec_write :: "bool \<Rightarrow> (db \<Rightarrow> db) \<Rightarrow> ('x world_scheme, unit) prog" where
  "exec_write bound f = (\<lambda>w.
     if \<not> bound \<or> \<not> columns_ok (f (db w))
     then (Inl (Exn DataError (lit ''value out of range'')), w)
     else if \<not> constraints_ok (f (db w))
     then (Inl (Exn IntegrityError (lit ''constraint violated'')), w)
     else (Inr (), w\<lparr>db := f (db w)\<rparr>))"

text \<open>A bound parameter of a \<open>SELECT\<close> that does not fit \<open>BIGINT\<close> is refused by the driver.\<close>

definition bind_bigint :: "int \<Rightarrow> ('w, unit) prog" where
  "bind_bigint i = (if fits_bigint i then retM () else raiseM DataError (lit ''value out of range''))"

definition update_where :: "('r \<Rightarrow> bool) \<Rightarrow> ('r \<Rightarrow> 'r) \<Rightarrow> 'r list \<Rightarrow> 'r list" where
  "update_where p f rows = map (\<lambda>r. if p r then f r else r) rows"

text \<open>The rows an \<open>UPDATE ... RETURNING\<close> reports.\<close>

definition updated :: "('r \<Rightarrow> bool) \<Rightarrow> ('r \<Rightarrow> 'r) \<Rightarrow> 'r list \<Rightarrow> 'r list" where
  "updated p f rows = map f (filter p rows)"

section \<open>Equations\<close>

lemma tick_reads [prog_simps]:
  "now_utc w = (Inr (clock w (tick w)), w\<lparr>tick := Suc (tick w)\<rparr>)"
  "server_now w = (Inr (db_now w (tick w)), w\<lparr>tick := Suc (tick w)\<rparr>)"
  "fresh_uuid w = (Inr (uuids w (drawn w)), w\<lparr>drawn := Suc (drawn w)\<rparr>)"
  "choice_index n w = (Inr (random w (tick w) mod n), w\<lparr>tick := Suc (tick w)\<rparr>)"
  by (simp_all add: now_utc_def server_now_def fresh_uuid_def choice_index_def tick_read_def)

lemma session_run [prog_simps]:
  "commit w = (Inr (), w\<lparr>committed := db w, locks := []\<rparr>)"
  "rollback w = (Inr (), w\<lparr>db := committed w, locks := []\<rparr>)"
  "open_session w = (Inr (), w\<lparr>db := committed w, locks := []\<rparr>)"
  by (simp_all add: commit_def rollback_def open_session_def prog_simps)

lemma one_simps [simp]:
  "one_or_none [] = retM None" "one_or_none [r] = retM (Some r)"
  "exactly_one [r] = retM r"
  by (simp_all add: one_or_none_def exactly_one_def)

lemma one_or_none_find:
  assumes "distinct (map f (filter p xs))" "\<And>x. q x \<longleftrightarrow> p x \<and> f x = k"
  shows "one_or_none (filter q xs) = retM (find q xs)"
  using filter_unique_cases [OF assms] by (auto simp: find_eq_filter)

lemma one_or_none_updated:
  assumes "distinct (map f (filter p xs))" "\<And>x. q x \<longleftrightarrow> p x \<and> f x = k"
  shows "one_or_none (updated q g xs) = retM (map_option g (find q xs))"
  using filter_unique_cases [OF assms] by (auto simp: find_eq_filter updated_def)

lemma exec_write_ok [prog_simps]:
  "db_ok (f (db w)) \<Longrightarrow> exec_write True f w = (Inr (), w\<lparr>db := f (db w)\<rparr>)"
  by (simp add: exec_write_def db_ok_def)

lemma wp_exec_write:
  "wp (exec_write b f) Q E w \<longleftrightarrow>
     (if \<not> b \<or> \<not> columns_ok (f (db w)) then E (Exn DataError (lit ''value out of range'')) w
      else if \<not> constraints_ok (f (db w)) then E (Exn IntegrityError (lit ''constraint violated'')) w
      else Q () (w\<lparr>db := f (db w)\<rparr>))"
  by (simp add: exec_write_def wp_def)

lemma wp_ticks [simp]:
  "wp now_utc Q E = (\<lambda>w. Q (clock w (tick w)) (w\<lparr>tick := Suc (tick w)\<rparr>))"
  "wp server_now Q E = (\<lambda>w. Q (db_now w (tick w)) (w\<lparr>tick := Suc (tick w)\<rparr>))"
  "wp fresh_uuid Qu E = (\<lambda>w. Qu (uuids w (drawn w)) (w\<lparr>drawn := Suc (drawn w)\<rparr>))"
  "wp (choice_index n) Qn E = (\<lambda>w. Qn (random w (tick w) mod n) (w\<lparr>tick := Suc (tick w)\<rparr>))"
  by (simp_all add: fun_eq_iff wp_def tick_reads)

lemma wp_session [simp]:
  "wp commit Q E = (\<lambda>w. Q () (w\<lparr>committed := db w, locks := []\<rparr>))"
  "wp rollback Q E = (\<lambda>w. Q () (w\<lparr>db := committed w, locks := []\<rparr>))"
  "wp open_session Q E = (\<lambda>w. Q () (w\<lparr>db := committed w, locks := []\<rparr>))"
  by (simp_all add: fun_eq_iff wp_def session_run)

lemma set_update_where: "set (update_where p f rows) = f ` {r \<in> set rows. p r} \<union> {r \<in> set rows. \<not> p r}"
  by (auto simp: update_where_def)

lemma length_update_where [simp]: "length (update_where p f rows) = length rows"
  by (simp add: update_where_def)

lemma update_where_none: "\<forall>r \<in> set rows. \<not> p r \<Longrightarrow> update_where p f rows = rows"
  by (simp add: update_where_def map_idI)

lemma map_update_where:
  "(\<And>r. g (f r) = g r) \<Longrightarrow> map g (update_where p f rows) = map g rows"
  by (simp add: update_where_def)

lemma filter_update_where_same:
  "(\<And>r. q (f r) = q r) \<Longrightarrow> filter q (update_where p f rows) = update_where p f (filter q rows)"
  by (induction rows) (auto simp: update_where_def)

section \<open>What keeps the constraints\<close>

lemma user_vks_ok_map:
  assumes "user_vks_ok rows"
    and "\<And>r. uv_id (g r) = uv_id r" "\<And>r. uv_user_id (g r) = uv_user_id r"
    and "\<And>r. uv_peer_id (g r) = uv_peer_id r" "\<And>r. live (g r) \<Longrightarrow> live r"
  shows "user_vks_ok (map g rows)"
proof -
  have eq: "uv_id \<circ> g = uv_id" "uv_user_id \<circ> g = uv_user_id" "uv_peer_id \<circ> g = uv_peer_id"
    using assms(2-4) by auto
  have a: "distinct (map uv_user_id (filter (live \<circ> g) rows))"
    by (rule distinct_map_filter_subset [of _ live]) (use assms(1,5) in \<open>auto simp: user_vks_ok_def\<close>)
  have b: "distinct (map uv_peer_id (filter ((\<lambda>r. live r \<and> uv_peer_id r \<noteq> None) \<circ> g) rows))"
    by (rule distinct_map_filter_subset [of _ "\<lambda>r. live r \<and> uv_peer_id r \<noteq> None"])
      (use assms(1,4,5) in \<open>auto simp: user_vks_ok_def\<close>)
  show ?thesis
    using assms(1) a b by (simp add: user_vks_ok_def filter_map eq)
qed

lemma vk_confirmations_ok_users:
  "map uv_id us' = map uv_id us \<Longrightarrow> vk_confirmations_ok us' cs = vk_confirmations_ok us cs"
  unfolding vk_confirmations_ok_def by (simp only:)

lemma vk_confirmations_ok_more_users:
  "vk_confirmations_ok us cs \<Longrightarrow> set (map uv_id us) \<subseteq> set (map uv_id us') \<Longrightarrow> vk_confirmations_ok us' cs"
  by (auto simp: vk_confirmations_ok_def)

lemma vk_confirmations_ok_map:
  assumes "vk_confirmations_ok us cs"
    and "\<And>c. cf_id (g c) = cf_id c" "\<And>c. cf_code (g c) = cf_code c"
    and "\<And>c. cf_user_vk_id (g c) = cf_user_vk_id c"
  shows "vk_confirmations_ok us (map g cs)"
proof -
  have "cf_id \<circ> g = cf_id" "cf_code \<circ> g = cf_code" using assms(2,3) by auto
  then show ?thesis using assms(1,4) by (simp add: vk_confirmations_ok_def)
qed

section \<open>New identifiers\<close>

text \<open>
  Random identifiers do not collide: the first \<open>uuid_limit\<close> identifiers drawn differ from each other,
  and those still to be drawn differ from the ones in use.  \<open>room k w\<close> says that \<open>k\<close> of them are left.
\<close>

definition ids_of :: "db \<Rightarrow> uuid set" where
  "ids_of d = uv_id ` set (user_vks d) \<union> cf_id ` set (vk_confirmations d) \<union> lg_id ` set (vk_logs d) \<union>
     lg_event_uuid ` set (vk_logs d) \<union> dl_id ` set (vk_deliveries d)"

definition uuid_limit :: nat where
  "uuid_limit = 2 ^ 64"

definition room :: "nat \<Rightarrow> 'x world_scheme \<Rightarrow> bool" where
  "room k w \<longleftrightarrow> drawn w + k \<le> uuid_limit"

definition undrawn :: "'x world_scheme \<Rightarrow> nat set" where
  "undrawn w = {drawn w..<uuid_limit}"

definition fresh_supply :: "'x world_scheme \<Rightarrow> bool" where
  "fresh_supply w \<longleftrightarrow>
     inj_on (uuids w) (undrawn w) \<and> (\<forall>t \<in> undrawn w. uuids w t \<notin> ids_of (db w) \<union> ids_of (committed w))"

text \<open>The stored data is consistent, in the session and committed, and new identifiers are new.\<close>

definition store_ok :: "'x world_scheme \<Rightarrow> bool" where
  "store_ok w \<longleftrightarrow> db_ok (db w) \<and> db_ok (committed w) \<and> fresh_supply w"

lemma fresh_id: "fresh_supply w \<Longrightarrow> room (Suc k) w \<Longrightarrow> uuids w (drawn w + k) \<notin> ids_of (db w)"
  by (auto simp: fresh_supply_def room_def undrawn_def)

lemma fresh_ids_differ:
  "fresh_supply w \<Longrightarrow> room (Suc (Suc k)) w \<Longrightarrow> uuids w (drawn w + k) \<noteq> uuids w (Suc (drawn w + k))"
  by (auto simp: fresh_supply_def room_def undrawn_def dest: inj_onD)

lemma fresh_supply_step:
  assumes "fresh_supply w" "uuids w' = uuids w" "drawn w \<le> drawn w'"
    and "ids_of (db w') \<union> ids_of (committed w') \<subseteq>
           ids_of (db w) \<union> ids_of (committed w) \<union> uuids w ` {drawn w..<drawn w'}"
  shows "fresh_supply w'"
proof -
  have inj: "inj_on (uuids w) (undrawn w)" using assms(1) by (simp add: fresh_supply_def)
  have sub: "undrawn w' \<subseteq> undrawn w" using assms(3) by (auto simp: undrawn_def)
  have "uuids w t \<notin> ids_of (db w') \<union> ids_of (committed w')" if t: "t \<in> undrawn w'" for t
  proof -
    have "uuids w t \<notin> ids_of (db w) \<union> ids_of (committed w)"
      using assms(1) t sub by (auto simp: fresh_supply_def)
    moreover have "uuids w t \<notin> uuids w ` {drawn w..<drawn w'}"
    proof
      assume "uuids w t \<in> uuids w ` {drawn w..<drawn w'}"
      then obtain k where k: "uuids w t = uuids w k" "drawn w \<le> k" "k < drawn w'" by auto
      then have "k \<in> undrawn w" using t by (simp add: undrawn_def)
      then have "t = k" using k(1) t sub by (intro inj_onD [OF inj]) auto
      with k t show False by (simp add: undrawn_def)
    qed
    ultimately show ?thesis using assms(4) by auto
  qed
  then show ?thesis using inj_on_subset [OF inj sub] by (simp add: fresh_supply_def assms(2))
qed

lemma fresh_supply_rows:
  assumes "fresh_supply w" "uuids w' = uuids w" "drawn w \<le> drawn w'" "ids_of (committed w') = ids_of (committed w)"
    "ids_of (db w') \<subseteq> ids_of (db w) \<union> uuids w ` {drawn w..<drawn w'}"
  shows "fresh_supply w'"
  by (rule fresh_supply_step [OF assms(1-3)]) (use assms(4,5) in auto)

lemma fresh_supply_same:
  assumes "fresh_supply w" "uuids w' = uuids w" "drawn w \<le> drawn w'"
    "ids_of (db w') \<subseteq> ids_of (db w) \<union> ids_of (committed w)"
    "ids_of (committed w') \<subseteq> ids_of (db w) \<union> ids_of (committed w)"
  shows "fresh_supply w'"
  by (rule fresh_supply_step [OF assms(1-3)]) (use assms(4,5) in auto)

end
