(* ===== verification/Py_Uuid5.thy ===== *)
theory Py_Uuid5
  imports Program
begin

text \<open>
  \<open>uuid.uuid5\<close> of the Python library, with the SHA-1 digest it takes: the bytes of the name space and
  of the name in UTF-8 are digested, and the first sixteen bytes become the identifier, its version
  and variant bits overwritten.  \<open>core/schemas/messaging/command_identity.py\<close> derives the identity of
  a command with it.
\<close>

unbundle bit_operations_syntax

type_synonym byte = "8 word"

section \<open>Big-endian bytes\<close>

definition word_bytes :: "nat \<Rightarrow> 'n::len word \<Rightarrow> byte list" where
  "word_bytes k x = map (\<lambda>i. ucast (drop_bit (8 * i) x)) (rev [0..<k])"

definition bytes_word :: "byte list \<Rightarrow> 'n::len word" where
  "bytes_word bs = foldl (\<lambda>a b. push_bit 8 a OR ucast b) 0 bs"

section \<open>SHA-1\<close>

definition sha1_pad :: "byte list \<Rightarrow> byte list" where
  "sha1_pad m =
     m @ [128] @ replicate (nat ((55 - int (length m)) mod 64)) 0
     @ word_bytes 8 (word_of_nat (8 * length m) :: 64 word)"

function sha1_chunks :: "nat \<Rightarrow> 'a list \<Rightarrow> 'a list list" where
  "sha1_chunks n xs = (if n = 0 \<or> xs = [] then [] else take n xs # sha1_chunks n (drop n xs))"
  by pat_completeness auto
termination
  by (relation "measure (\<lambda>(n, xs). length xs)") auto

declare sha1_chunks.simps [simp del]

text \<open>The message schedule: the sixteen words of a block, then each from four earlier ones.\<close>

fun sha1_extend :: "nat \<Rightarrow> 32 word list \<Rightarrow> 32 word list" where
  "sha1_extend 0 ws = ws"
| "sha1_extend (Suc n) ws =
     (let t = length ws in
      sha1_extend n (ws @ [word_rotl 1 (ws ! (t - 3) XOR ws ! (t - 8) XOR ws ! (t - 14) XOR ws ! (t - 16))]))"

definition sha1_schedule :: "byte list \<Rightarrow> 32 word list" where
  "sha1_schedule block = sha1_extend 64 (map bytes_word (sha1_chunks 4 block))"

type_synonym sha1_state = "32 word \<times> 32 word \<times> 32 word \<times> 32 word \<times> 32 word"

definition sha1_mix :: "nat \<Rightarrow> 32 word \<Rightarrow> 32 word \<Rightarrow> 32 word \<Rightarrow> 32 word" where
  "sha1_mix t b c d =
     (if t < 20 then (b AND c) OR (NOT b AND d)
      else if t < 40 then b XOR c XOR d
      else if t < 60 then (b AND c) OR (b AND d) OR (c AND d)
      else b XOR c XOR d)"

definition sha1_constant :: "nat \<Rightarrow> 32 word" where
  "sha1_constant t =
     (if t < 20 then 0x5A827999 else if t < 40 then 0x6ED9EBA1
      else if t < 60 then 0x8F1BBCDC else 0xCA62C1D6)"

fun sha1_rounds :: "nat \<Rightarrow> 32 word list \<Rightarrow> sha1_state \<Rightarrow> sha1_state" where
  "sha1_rounds t [] s = s"
| "sha1_rounds t (w # ws) (a, b, c, d, e) =
     sha1_rounds (Suc t) ws
       (word_rotl 5 a + sha1_mix t b c d + e + sha1_constant t + w, a, word_rotl 30 b, c, d)"

definition sha1_block :: "sha1_state \<Rightarrow> byte list \<Rightarrow> sha1_state" where
  "sha1_block s block =
     (case (s, sha1_rounds 0 (sha1_schedule block) s) of
        ((a, b, c, d, e), (a', b', c', d', e')) \<Rightarrow> (a + a', b + b', c + c', d + d', e + e'))"

definition sha1_init :: sha1_state where
  "sha1_init = (0x67452301, 0xEFCDAB89, 0x98BADCFE, 0x10325476, 0xC3D2E1F0)"

definition sha1 :: "byte list \<Rightarrow> byte list" where
  "sha1 m =
     (case foldl sha1_block sha1_init (sha1_chunks 64 (sha1_pad m)) of
        (a, b, c, d, e) \<Rightarrow> concat (map (word_bytes 4) [a, b, c, d, e]))"

section \<open>Identifiers\<close>

definition utf8_cp :: "nat \<Rightarrow> byte list" where
  "utf8_cp c =
     map word_of_nat
       (if c < 128 then [c]
        else if c < 2048 then [192 + c div 64, 128 + c mod 64]
        else if c < 65536 then [224 + c div 4096, 128 + c div 64 mod 64, 128 + c mod 64]
        else [240 + c div 262144, 128 + c div 4096 mod 64, 128 + c div 64 mod 64, 128 + c mod 64])"

definition utf8 :: "pystr \<Rightarrow> byte list" where
  "utf8 s = concat (map utf8_cp s)"

definition uuid_bytes :: "uuid \<Rightarrow> byte list" where
  "uuid_bytes x = word_bytes 16 x"

definition uuid_of_bytes :: "byte list \<Rightarrow> uuid" where
  "uuid_of_bytes bs = bytes_word bs"

definition with_version :: "nat \<Rightarrow> uuid \<Rightarrow> uuid" where
  "with_version v x =
     (((x AND NOT (push_bit 48 0xC000)) OR push_bit 48 0x8000) AND NOT (push_bit 64 0xF000))
       OR push_bit 76 (word_of_nat v)"

definition uuid5 :: "uuid \<Rightarrow> pystr \<Rightarrow> uuid" where
  "uuid5 namespace name = with_version 5 (uuid_of_bytes (take 16 (sha1 (uuid_bytes namespace @ utf8 name))))"

section \<open>The identity of a command\<close>

definition NAMESPACE_DNS :: uuid where
  "NAMESPACE_DNS = 0x6ba7b8109dad11d180b400c04fd430c8"

definition NAMESPACE_NOTIFICATION_COMMAND :: uuid where
  "NAMESPACE_NOTIFICATION_COMMAND = uuid5 NAMESPACE_DNS (lit ''notification-commands.eqcms'')"

definition VK_CHANNEL_CODE :: pystr where
  "VK_CHANNEL_CODE = lit ''vk''"

definition command_name :: "uuid \<Rightarrow> pystr \<Rightarrow> pystr" where
  "command_name correlation_id channel_code = uuid_str correlation_id @ lit '':'' @ channel_code"

definition build_command_msg_id :: "uuid \<Rightarrow> pystr \<Rightarrow> uuid" where
  "build_command_msg_id correlation_id channel_code =
     uuid5 NAMESPACE_NOTIFICATION_COMMAND (command_name correlation_id channel_code)"

section \<open>Shape\<close>

lemma length_sha1_pad: "64 dvd length (sha1_pad m)"
proof -
  have "int (length (sha1_pad m)) = int (length m) + 9 + (55 - int (length m)) mod 64"
    by (simp add: sha1_pad_def word_bytes_def)
  then have "int (length (sha1_pad m)) mod 64 = (int (length m) + 9 + (55 - int (length m))) mod 64"
    by (simp only: mod_add_right_eq)
  also have "\<dots> = 0" by simp
  finally have "(64 :: int) dvd int (length (sha1_pad m))" by (rule mod_0_imp_dvd)
  then have "int 64 dvd int (length (sha1_pad m))" by simp
  then show ?thesis by (simp only: of_nat_dvd_iff)
qed

lemma version_constants:
  "(0xC000 :: uuid) = push_bit 14 (mask 2)" "(0xF000 :: uuid) = push_bit 12 (mask 4)"
  "(0x8000 :: uuid) = push_bit 15 1" "(5 :: uuid) = 1 OR push_bit 2 1" "(2 :: uuid) = push_bit 1 1"
  by (simp_all add: mask_eq_exp_minus_1)

lemma with_version_bits:
  "take_bit 4 (drop_bit 76 (with_version 5 x)) = 5" "take_bit 2 (drop_bit 62 (with_version 5 x)) = 2"
  unfolding with_version_def of_nat_numeral version_constants
  by (rule bit_word_eqI; auto simp: bit_simps)+

lemma command_name_inject: "command_name c ch = command_name d ch' \<longleftrightarrow> c = d \<and> ch = ch'"
proof -
  have "length (uuid_str x) = 36" for x by (simp add: uuid_str_def Let_def uuid_hex_def)
  then show ?thesis by (auto simp: command_name_def)
qed

section \<open>Properties\<close>

text \<open>
  The identity of a command is a name-based identifier of version 5 and the standard variant, and
  the text it digests determines the correlation and the channel: two commands have the same text
  exactly when both agree, whatever the channel is called.
\<close>

theorem command_identity_shape:
  "take_bit 4 (drop_bit 76 (build_command_msg_id c ch)) = 5 \<and>
   take_bit 2 (drop_bit 62 (build_command_msg_id c ch)) = 2 \<and>
   (command_name c ch = command_name d ch' \<longleftrightarrow> c = d \<and> ch = ch')"
  unfolding build_command_msg_id_def uuid5_def by (simp only: with_version_bits command_name_inject)

end
