(* ===== verification/Nats_Client.thy ===== *)
theory Nats_Client
  imports Nats_Lifecycle Settings Database Py_Uuid5
begin

text \<open>
  \<open>clients/nats/client.py\<close>: \<open>NatsJetstreamClient\<close>, its connection, its shutdown and the registration of
  the durable consumer, which is retried while the owner of the stream has not created it.

  The broker and its library are outside: what each of their calls answers is a function of the
  number of the call and of the call itself (\<open>nats_answer\<close>, \<open>None\<close> when it returns), and the calls made are recorded.  The
  world of the process that talks to the broker extends the world of the database sessions.
\<close>

section \<open>The world with a broker\<close>

record nats_connection =
  nc_is_connected :: bool
  nc_is_closed :: bool

record nats_msg =
  nm_id :: nat
  nm_data :: "byte list"
  nm_headers :: "(pystr \<rightharpoonup> pystr) option"

datatype deliver_policy = Deliver_All | Deliver_Last | Deliver_New

datatype ack_policy = Ack_None | Ack_All | Ack_Explicit

record consumer_config =
  cc_stream :: pystr
  cc_durable_name :: pystr
  cc_filter_subject :: pystr
  cc_deliver_policy :: deliver_policy
  cc_ack_policy :: ack_policy
  cc_ack_wait :: int
  cc_max_deliver :: int

datatype retention_policy = Retention_Limits | Retention_Interest | Retention_Work_Queue

datatype storage_type = Storage_File | Storage_Memory

record stream_config =
  st_name :: pystr
  st_subjects :: "pystr list"
  st_retention :: retention_policy
  st_storage :: storage_type
  st_max_age :: int

record nats_connect_options =
  co_servers :: "pystr list"
  co_name :: pystr
  co_connect_timeout :: int
  co_allow_reconnect :: bool
  co_reconnect_time_wait :: int
  co_max_reconnect_attempts :: int

datatype nats_call =
    Call_Connect nats_connect_options | Call_Drain | Call_Close | Call_Add_Consumer consumer_config
  | Call_Publish pystr "byte list" "(pystr \<times> pystr) list option" | Call_Pull_Subscribe pystr pystr pystr
  | Call_Fetch int py_float | Call_Sleep py_float | Call_Ack nat | Call_Nak nat
  | Call_Add_Stream stream_config | Call_Delete_Stream pystr | Call_Consumer_Info pystr pystr

datatype consumer_task = Task_Running | Task_Ended exn

record nats_world = world +
  nats_connection :: "nats_connection option"
  nats_jetstream :: bool
  nats_policy :: connection_error_policy
  nats_tick :: nat
  nats_answer :: "nat \<Rightarrow> nats_call \<Rightarrow> exn option"
  nats_messages :: "nat \<Rightarrow> nats_msg list"
  nats_calls :: "nats_call list"
  consumer_subscription :: bool
  consumer_task :: "consumer_task option"

text \<open>A call of the broker: recorded, then it returns or raises.\<close>

definition nats_call :: "nats_call \<Rightarrow> ('x nats_world_scheme, unit) prog" where
  "nats_call c = (\<lambda>w.
     (case nats_answer w (nats_tick w) c of None \<Rightarrow> Inr () | Some e \<Rightarrow> Inl e,
      w\<lparr>nats_tick := Suc (nats_tick w), nats_calls := nats_calls w @ [c]\<rparr>))"

section \<open>Connection\<close>

definition is_connected :: "'x nats_world_scheme \<Rightarrow> bool" where
  "is_connected w \<longleftrightarrow> (case nats_connection w of None \<Rightarrow> False | Some c \<Rightarrow> nc_is_connected c)"

definition get_jetstream :: "('x nats_world_scheme, unit) prog" where
  "get_jetstream =
     bindM (getsM (\<lambda>w. \<not> nats_jetstream w \<or> \<not> is_connected w)) (\<lambda>missing.
       if missing then raiseM RuntimeError (lit ''NATS JetStream client is not connected'') else retM ())"

definition service_name :: pystr where
  "service_name = lit ''vk-service''"

definition new_client :: "nats_settings \<Rightarrow> 'x nats_world_scheme \<Rightarrow> 'x nats_world_scheme" where
  "new_client s w =
     w\<lparr>nats_connection := None, nats_jetstream := False,
       nats_policy := new_policy service_name (nats_error_report_after_attempts s)\<rparr>"

definition connect_options :: "nats_settings \<Rightarrow> nats_connect_options" where
  "connect_options s =
     \<lparr>co_servers = nats_servers s, co_name = service_name, co_connect_timeout = 5, co_allow_reconnect = True,
      co_reconnect_time_wait = 2, co_max_reconnect_attempts = 10\<rparr>"

definition nats_connect :: "nats_settings \<Rightarrow> ('x nats_world_scheme, unit) prog" where
  "nats_connect s =
     bindM (getsM is_connected) (\<lambda>connected.
       if connected then retM ()
       else
         thenM
           (modifyM (\<lambda>w. w\<lparr>nats_connection := Some \<lparr>nc_is_connected = False, nc_is_closed = False\<rparr>,
                           nats_policy := policy_reset (nats_policy w)\<rparr>))
         (thenM (nats_call (Call_Connect (connect_options s)))
         (modifyM (\<lambda>w. w\<lparr>nats_connection := Some \<lparr>nc_is_connected = True, nc_is_closed = False\<rparr>,
                         nats_jetstream := True\<rparr>))))"

text \<open>\<open>drain\<close> and \<open>close\<close> of the library end the connection when they return.\<close>

definition connection_ended :: "('x nats_world_scheme, unit) prog" where
  "connection_ended =
     modifyM (\<lambda>w. w\<lparr>nats_connection := Some \<lparr>nc_is_connected = False, nc_is_closed = True\<rparr>\<rparr>)"

definition nats_close :: "('x nats_world_scheme, unit) prog" where
  "nats_close =
     bindM (getsM nats_connection) (\<lambda>c.
       case c of
         None \<Rightarrow> retM ()
       | Some conn \<Rightarrow>
           finallyM
             (if nc_is_closed conn then retM ()
              else
                catchM (thenM (nats_call Call_Drain) connection_ended)
                  [PyTimeoutError, NatsError]
                  (\<lambda>_. thenM (nats_call Call_Close) connection_ended))
             (modifyM (\<lambda>w. w\<lparr>nats_connection := None, nats_jetstream := False\<rparr>)))"

section \<open>Registration of the durable consumer\<close>

definition send_vk_consumer :: "nats_settings \<Rightarrow> consumer_config" where
  "send_vk_consumer s =
     \<lparr>cc_stream = nats_stream_notification_commands s,
      cc_durable_name = nats_consumer_notification_commands_send_vk s,
      cc_filter_subject = nats_subject_notification_commands_send_vk s,
      cc_deliver_policy = Deliver_All, cc_ack_policy = Ack_Explicit,
      cc_ack_wait = nats_consumer_ack_wait_seconds s, cc_max_deliver = nats_consumer_max_deliver s\<rparr>"

abbreviation registration :: "nats_settings \<Rightarrow> nats_call" where
  "registration s \<equiv> Call_Add_Consumer (send_vk_consumer s)"

definition add_notification_commands_send_vk_consumer :: "nats_settings \<Rightarrow> ('x nats_world_scheme, unit) prog" where
  "add_notification_commands_send_vk_consumer s =
     thenM get_jetstream (nats_call (registration s))"

text \<open>\<open>asyncio.sleep\<close>, recorded; cancelling a start-up is not modelled.\<close>

definition sleep :: "py_float \<Rightarrow> ('x nats_world_scheme, unit) prog" where
  "sleep t = modifyM (\<lambda>w. w\<lparr>nats_calls := nats_calls w @ [Call_Sleep t]\<rparr>)"

definition wait_time :: "nats_settings \<Rightarrow> int \<Rightarrow> py_float" where
  "wait_time s attempt =
     (if float_less (Finite 0) (nats_setup_backoff_seconds s)
      then float_times (nats_setup_backoff_seconds s) attempt else Finite 0)"

text \<open>The attempts from one on; the measure is the number of attempts left.\<close>

function setup_attempts :: "nats_settings \<Rightarrow> int \<Rightarrow> ('x nats_world_scheme, unit) prog" where
  "setup_attempts s attempt =
     (if nats_setup_max_attempts s < attempt then retM ()
      else
        bindM
          (catchM
            (thenM (add_notification_commands_send_vk_consumer s) (retM True))
            [JsNotFoundError]
            (\<lambda>e. if nats_setup_max_attempts s \<le> attempt then throwM e
                 else if float_true (wait_time s attempt) then thenM (sleep (wait_time s attempt)) (retM False)
                 else retM False))
          (\<lambda>registered. if registered then retM () else setup_attempts s (attempt + 1)))"
  by pat_completeness auto
termination
  by (relation "measure (\<lambda>(s, attempt). nat (nats_setup_max_attempts s + 1 - attempt))") auto

declare setup_attempts.simps [simp del]

definition setup_streams :: "('w, unit) prog" where
  "setup_streams = retM ()"

definition setup_consumers :: "nats_settings \<Rightarrow> ('x nats_world_scheme, unit) prog" where
  "setup_consumers s = setup_attempts s 1"

definition nats_setup :: "nats_settings \<Rightarrow> ('x nats_world_scheme, unit) prog" where
  "nats_setup s =
     bindM (getsM is_connected) (\<lambda>connected.
       if \<not> connected then raiseM RuntimeError (lit ''NATS client must be connected before setup'')
       else thenM setup_streams (setup_consumers s))"

definition nats_publish ::
    "pystr \<Rightarrow> byte list \<Rightarrow> (pystr \<times> pystr) list option \<Rightarrow> ('x nats_world_scheme, unit) prog" where
  "nats_publish subject payload headers =
     thenM get_jetstream (nats_call (Call_Publish subject payload headers))"

section \<open>What a call leaves alone\<close>

text \<open>A step of the broker: only its counter and its record of calls move.\<close>

definition called :: "nats_call list \<Rightarrow> nat \<Rightarrow> 'x nats_world_scheme \<Rightarrow> 'x nats_world_scheme" where
  "called cs n w = w\<lparr>nats_tick := nats_tick w + n, nats_calls := nats_calls w @ cs\<rparr>"

lemma called_sel [simp]:
  "nats_connection (called cs n w) = nats_connection w" "nats_jetstream (called cs n w) = nats_jetstream w"
  "nats_answer (called cs n w) = nats_answer w" "nats_tick (called cs n w) = nats_tick w + n"
  "nats_calls (called cs n w) = nats_calls w @ cs" "is_connected (called cs n w) = is_connected w"
  "consumer_task (called cs n w) = consumer_task w" "consumer_subscription (called cs n w) = consumer_subscription w"
  "db (called cs n w) = db w" "committed (called cs n w) = committed w" "outbox (called cs n w) = outbox w"
  by (simp_all add: called_def is_connected_def)

lemma called_called [simp]: "called cs n (called ds m w) = called (ds @ cs) (m + n) w" "called [] 0 w = w"
  by (simp_all add: called_def add.assoc)

lemma nats_call_run:
  "nats_call c w = (case nats_answer w (nats_tick w) c of None \<Rightarrow> Inr () | Some e \<Rightarrow> Inl e, called [c] 1 w)"
  by (simp add: nats_call_def called_def)

lemma sleep_run: "sleep t w = (Inr (), called [Call_Sleep t] 0 w)"
  by (simp add: sleep_def prog_simps called_def)

lemma add_consumer_run:
  assumes "is_connected w" "nats_jetstream w"
  shows "add_notification_commands_send_vk_consumer s w =
    (case nats_answer w (nats_tick w) (registration s) of None \<Rightarrow> Inr () | Some e \<Rightarrow> Inl e,
     called [registration s] 1 w)"
  using assms by (simp add: add_notification_commands_send_vk_consumer_def get_jetstream_def prog_simps nats_call_run)

text \<open>The calls of an attempt that finds no stream and is followed by another.\<close>

definition failed_attempt :: "nats_settings \<Rightarrow> int \<Rightarrow> nats_call list" where
  "failed_attempt s i =
     registration s # (if float_true (wait_time s i) then [Call_Sleep (wait_time s i)] else [])"

lemma setup_attempts_run:
  assumes "is_connected w" "nats_jetstream w" "attempt + int k \<le> nats_setup_max_attempts s"
    and "\<forall>j < k. \<exists>m. nats_answer w (nats_tick w + j) (registration s) = Some (Exn JsNotFoundError m)"
  shows "setup_attempts s attempt w =
    setup_attempts s (attempt + int k)
      (called (concat (map (failed_attempt s) (map (\<lambda>j. attempt + int j) [0..<k]))) k w)"
  using assms
proof (induction k arbitrary: attempt w)
  case (Suc k)
  obtain m where m: "nats_answer w (nats_tick w) (registration s) = Some (Exn JsNotFoundError m)" using Suc.prems(4) by force
  let ?w = "called (failed_attempt s attempt) 1 w"
  have step: "setup_attempts s attempt w = setup_attempts s (attempt + 1) ?w"
    using Suc.prems(3)
    by (subst setup_attempts.simps)
      (simp add: prog_simps add_consumer_run [OF Suc.prems(1,2)] m failed_attempt_def sleep_run)
  have "\<forall>j < k. \<exists>m. nats_answer ?w (nats_tick ?w + j) (registration s) = Some (Exn JsNotFoundError m)"
    using Suc.prems(4) by auto
  from Suc.IH [OF _ _ _ this, of "attempt + 1"] Suc.prems
  have "setup_attempts s (attempt + 1) ?w = setup_attempts s (attempt + 1 + int k)
      (called (concat (map (failed_attempt s) (map (\<lambda>j. attempt + 1 + int j) [0..<k]))) k ?w)" by simp
  moreover have "map (\<lambda>j. attempt + int j) [0..<Suc k] = attempt # map (\<lambda>j. attempt + 1 + int j) [0..<k]"
    by (simp add: upt_conv_Cons map_Suc_upt [symmetric] comp_def add.assoc del: upt_Suc)
  ultimately show ?case by (simp add: step add.assoc add.commute [of 1] del: upt_Suc)
qed simp

section \<open>Properties\<close>

text \<open>
  C26. The race of a deployment is waited out, within bounds.  While the stream does not exist the
  registration is tried again, the n-th time after a wait of n times the configured seconds (so the
  waits grow), or at once when these are not positive; the first other answer ends it: success
  registers exactly the configured consumer, explicitly acknowledged and from the first message on,
  any other error is raised at once; and when the last attempt allowed finds no stream either, its
  error is raised.  No call is made after that.
\<close>

theorem setup_waits_for_stream:
  fixes w :: "'x nats_world_scheme"
  assumes "is_connected w" "nats_jetstream w" "int k < nats_setup_max_attempts s"
    and "\<forall>j < k. \<exists>m. nats_answer w (nats_tick w + j) (registration s) = Some (Exn JsNotFoundError m)"
    and "\<And>e. nats_answer w (nats_tick w + k) (registration s) = Some e \<Longrightarrow> isinstance e JsNotFoundError \<Longrightarrow>
      int k + 1 = nats_setup_max_attempts s"
  shows "nats_setup s w =
    (case nats_answer w (nats_tick w + k) (registration s) of None \<Rightarrow> Inr () | Some e \<Rightarrow> Inl e,
     called
       (concat (map (\<lambda>j. registration s #
            (if float_less (Finite 0) (nats_setup_backoff_seconds s)
             then [Call_Sleep (float_times (nats_setup_backoff_seconds s) (int j + 1))] else [])) [0..<k])
        @ [registration s]) (k + 1) w) \<and>
    (float_less (Finite 0) (nats_setup_backoff_seconds s) \<and> nats_setup_backoff_seconds s \<noteq> Plus_Infinity \<longrightarrow>
       (\<forall>i j. i < j \<longrightarrow> float_less (float_times (nats_setup_backoff_seconds s) (int i + 1))
                           (float_times (nats_setup_backoff_seconds s) (int j + 1)))) \<and>
    registration s = Call_Add_Consumer
      \<lparr>cc_stream = nats_stream_notification_commands s,
       cc_durable_name = nats_consumer_notification_commands_send_vk s,
       cc_filter_subject = nats_subject_notification_commands_send_vk s,
       cc_deliver_policy = Deliver_All, cc_ack_policy = Ack_Explicit,
       cc_ack_wait = nats_consumer_ack_wait_seconds s, cc_max_deliver = nats_consumer_max_deliver s\<rparr>"
proof (intro conjI impI allI)
  fix i j :: nat
  assume "float_less (Finite 0) (nats_setup_backoff_seconds s) \<and> nats_setup_backoff_seconds s \<noteq> Plus_Infinity" "i < j"
  then show "float_less (float_times (nats_setup_backoff_seconds s) (int i + 1))
      (float_times (nats_setup_backoff_seconds s) (int j + 1))"
    using float_times_grows [of "nats_setup_backoff_seconds s" "int i + 1" "int j + 1"] by simp
next
  show "registration s = Call_Add_Consumer
      \<lparr>cc_stream = nats_stream_notification_commands s,
       cc_durable_name = nats_consumer_notification_commands_send_vk s,
       cc_filter_subject = nats_subject_notification_commands_send_vk s,
       cc_deliver_policy = Deliver_All, cc_ack_policy = Ack_Explicit,
       cc_ack_wait = nats_consumer_ack_wait_seconds s, cc_max_deliver = nats_consumer_max_deliver s\<rparr>"
    by (simp add: send_vk_consumer_def)
next
  let ?cs = "concat (map (\<lambda>j. failed_attempt s (1 + int j)) [0..<k])"
  let ?w = "called ?cs k w"
  have c: "is_connected ?w" "nats_jetstream ?w" using assms(1,2) by simp_all
  have "setup_consumers s w = setup_attempts s (1 + int k) ?w"
    using setup_attempts_run [OF assms(1,2) _ assms(4), of 1] assms(3) by (simp add: setup_consumers_def comp_def)
  moreover have "setup_attempts s (1 + int k) ?w =
      (case nats_answer w (nats_tick w + k) (registration s) of None \<Rightarrow> Inr () | Some e \<Rightarrow> Inl e,
       called (?cs @ [registration s]) (k + 1) w)"
    using assms(3,5)
    by (subst setup_attempts.simps)
      (auto simp: prog_simps add_consumer_run [OF c] split: option.splits)
  moreover have "failed_attempt s (1 + int j) = registration s #
      (if float_less (Finite 0) (nats_setup_backoff_seconds s)
       then [Call_Sleep (float_times (nats_setup_backoff_seconds s) (int j + 1))] else [])" for j
    using float_times_positive [of "nats_setup_backoff_seconds s" "int j + 1"] float_true_positive
    by (simp add: failed_attempt_def wait_time_def add.commute) (simp add: float_true_def)
  ultimately show "nats_setup s w =
    (case nats_answer w (nats_tick w + k) (registration s) of None \<Rightarrow> Inr () | Some e \<Rightarrow> Inl e,
     called
       (concat (map (\<lambda>j. registration s #
            (if float_less (Finite 0) (nats_setup_backoff_seconds s)
             then [Call_Sleep (float_times (nats_setup_backoff_seconds s) (int j + 1))] else [])) [0..<k])
        @ [registration s]) (k + 1) w)"
    using assms(1) by (simp add: nats_setup_def setup_streams_def prog_simps)
qed

text \<open>
  Closing always lets the connection go.  Whatever the broker answers, the client is disconnected
  afterwards and a second close does nothing; a drain that times out or fails in the broker's own
  ways is followed by a plain close, and any other error is raised after the clean-up.
\<close>

theorem close_lets_go:
  fixes w :: "'x nats_world_scheme"
  shows "case nats_close w of (r, w') \<Rightarrow>
    nats_connection w' = None \<and> \<not> is_connected w' \<and> nats_close w' = (Inr (), w') \<and>
    (\<forall>c. nats_connection w = Some c \<and> \<not> nc_is_closed c \<longrightarrow>
       (case nats_answer w (nats_tick w) Call_Drain of
          None \<Rightarrow> r = Inr () \<and> nats_calls w' = nats_calls w @ [Call_Drain]
        | Some e \<Rightarrow>
            if isinstance e PyTimeoutError \<or> isinstance e NatsError
            then nats_calls w' = nats_calls w @ [Call_Drain, Call_Close]
            else r = Inl e \<and> nats_calls w' = nats_calls w @ [Call_Drain]))"
  by (auto simp: nats_close_def prog_simps finallyM_def nats_call_run connection_ended_def is_connected_def called_def
      split: option.splits)

text \<open>
  Connecting is idempotent and starts clean.  A connected client is left alone; otherwise one
  connection is attempted, with the failures of the policy forgotten, and the client is connected
  exactly when the broker accepted.
\<close>

lemma connect_once:
  fixes w :: "'x nats_world_scheme"
  shows "(is_connected w \<longrightarrow> nats_connect s w = (Inr (), w)) \<and>
    (\<not> is_connected w \<longrightarrow>
       (case nats_connect s w of (r, w') \<Rightarrow>
          nats_calls w' = nats_calls w @ [Call_Connect (connect_options s)] \<and>
          ep_consecutive_failures (nats_policy w') = 0 \<and> \<not> ep_escalated (nats_policy w') \<and>
          (is_connected w' \<longleftrightarrow> nats_answer w (nats_tick w) (Call_Connect (connect_options s)) = None) \<and>
          (is_connected w' \<longrightarrow> nats_jetstream w' \<and> nats_connect s w' = (Inr (), w'))))"
  by (auto simp: nats_connect_def prog_simps nats_call_run is_connected_def policy_reset_def called_def
      split: option.splits)

end
