(* ===== verification/Protocols.thy ===== *)
theory Protocols
  imports Database
begin

text \<open>
  The interfaces the domain depends on: \<open>repositories/protocols.py\<close> and
  \<open>core/protocols/vk/messenger.py\<close>.

  A protocol of the source is a record of the operations an object offers; the services take such
  records, as they take the objects in the source, over a type \<open>'w\<close> of worlds they know nothing
  about.  What the docstrings of a protocol promise is a locale: its parameters are the object, the
  part of the world it owns (the rows it stores) and the part it must leave alone, its assumptions
  the laws.  The lemmas a service needs are proved once under these laws; the SQL repositories and
  the messengers interpret the locales in their own theories.
\<close>

section \<open>The protocols\<close>

record 'w user_vk_repository =
  ur_create :: "uuid \<Rightarrow> ('w, user_vk) prog"
  ur_get_by_id :: "uuid \<Rightarrow> ('w, user_vk option) prog"
  ur_get_by_user_id :: "uuid \<Rightarrow> ('w, user_vk option) prog"
  ur_get_by_user_ids :: "uuid list \<Rightarrow> pystr option \<Rightarrow> ('w, user_vk list) prog"
  ur_get_by_peer_id :: "int \<Rightarrow> ('w, user_vk option) prog"
  ur_activate :: "uuid \<Rightarrow> int \<Rightarrow> pystr option \<Rightarrow> pystr option \<Rightarrow> ('w, user_vk) prog"
  ur_set_state :: "uuid \<Rightarrow> pystr \<Rightarrow> ('w, user_vk option) prog"
  ur_soft_delete :: "uuid \<Rightarrow> ('w, bool) prog"

record 'w vk_confirmation_repository =
  cr_create :: "uuid \<Rightarrow> pystr \<Rightarrow> datetime \<Rightarrow> ('w, vk_confirmation) prog"
  cr_get_by_code :: "pystr \<Rightarrow> ('w, vk_confirmation option) prog"
  cr_mark_used :: "uuid \<Rightarrow> ('w, unit) prog"
  cr_invalidate_previous :: "uuid \<Rightarrow> ('w, int) prog"

record 'w vk_log_repository =
  lr_log_action :: "pystr \<Rightarrow> pystr \<Rightarrow> details option \<Rightarrow> ('w, vk_log) prog"
  lr_count_failed_since :: "pystr \<Rightarrow> int \<Rightarrow> datetime \<Rightarrow> pystr list \<Rightarrow> ('w, int) prog"

record 'w vk_delivery_repository =
  dr_claim_attempt :: "uuid \<Rightarrow> uuid \<Rightarrow> int \<Rightarrow> ('w, vk_delivery option) prog"
  dr_mark_sent :: "uuid \<Rightarrow> uuid \<Rightarrow> ('w, vk_delivery) prog"
  dr_mark_failed :: "uuid \<Rightarrow> uuid \<Rightarrow> pystr \<Rightarrow> ('w, vk_delivery) prog"

record vk_user_profile =
  pf_peer_id :: int
  pf_screen_name :: "pystr option"
  pf_display_name :: "pystr option"

record 'w vk_messenger =
  ms_send_message :: "int \<Rightarrow> pystr \<Rightarrow> ('w, bool) prog"
  ms_get_profile :: "int \<Rightarrow> ('w, vk_user_profile option) prog"

section \<open>Binding states\<close>

definition STATE_PENDING :: pystr where
  "STATE_PENDING = lit ''PENDING''"

definition STATE_ACTIVE :: pystr where
  "STATE_ACTIVE = lit ''ACTIVE''"

definition STATE_BLOCKED :: pystr where
  "STATE_BLOCKED = lit ''BLOCKED''"

definition ALLOWED_STATES :: "pystr list" where
  "ALLOWED_STATES = [STATE_PENDING, STATE_ACTIVE, STATE_BLOCKED]"

lemmas state_defs = STATE_PENDING_def STATE_ACTIVE_def STATE_BLOCKED_def

lemma states_distinct [simp]:
  "STATE_PENDING \<noteq> STATE_ACTIVE" "STATE_ACTIVE \<noteq> STATE_PENDING"
  "STATE_PENDING \<noteq> STATE_BLOCKED" "STATE_BLOCKED \<noteq> STATE_PENDING"
  "STATE_ACTIVE \<noteq> STATE_BLOCKED" "STATE_BLOCKED \<noteq> STATE_ACTIVE"
  by (simp_all add: state_defs)

lemma states_allowed [simp]:
  "STATE_PENDING \<in> set ALLOWED_STATES" "STATE_ACTIVE \<in> set ALLOWED_STATES"
  "STATE_BLOCKED \<in> set ALLOWED_STATES"
  by (simp_all add: ALLOWED_STATES_def)

lemma states_fit [simp]:
  "fits_varchar 16 STATE_PENDING" "fits_varchar 16 STATE_ACTIVE" "fits_varchar 16 STATE_BLOCKED"
  by (simp_all add: fits_varchar_def state_defs)

section \<open>Contracts\<close>

text \<open>
  The store of bindings.  \<open>ok\<close> is the invariant of the provider, \<open>rows\<close> the rows it stores (deleted
  ones included) and \<open>other\<close> what its operations leave alone when they succeed.
\<close>

definition owned_by :: "uuid \<Rightarrow> user_vk \<Rightarrow> bool" where
  "owned_by u r \<longleftrightarrow> uv_user_id r = u \<and> live r"

definition linked_to :: "int \<Rightarrow> user_vk \<Rightarrow> bool" where
  "linked_to p r \<longleftrightarrow> uv_peer_id r = Some p \<and> live r"

definition matches_ids :: "uuid list \<Rightarrow> pystr option \<Rightarrow> user_vk \<Rightarrow> bool" where
  "matches_ids us st r \<longleftrightarrow>
     uv_user_id r \<in> set us \<and> live r \<and> (case st of None \<Rightarrow> True | Some s \<Rightarrow> uv_state r = s)"

text \<open>The rows after a change of state and after a soft deletion at time \<open>t\<close>.\<close>

definition with_state :: "pystr \<Rightarrow> datetime \<Rightarrow> user_vk \<Rightarrow> user_vk" where
  "with_state s t r = r\<lparr>uv_state := s, uv_updated_at := t\<rparr>"

definition with_deleted :: "datetime \<Rightarrow> user_vk \<Rightarrow> user_vk" where
  "with_deleted t r = r\<lparr>uv_deleted_at := Some t, uv_updated_at := t\<rparr>"

locale user_vk_store =
  fixes R :: "'w user_vk_repository"
    and rows :: "'w \<Rightarrow> user_vk list"
    and other :: "'w \<Rightarrow> 'o"
    and ok :: "'w \<Rightarrow> bool"
  assumes get_by_id: "ok w \<Longrightarrow> ur_get_by_id R i w = (Inr (find (\<lambda>r. uv_id r = i) (rows w)), w)"
    and get_by_user_id: "ok w \<Longrightarrow> ur_get_by_user_id R u w = (Inr (find (owned_by u) (rows w)), w)"
    and get_by_user_ids:
      "ok w \<Longrightarrow> ur_get_by_user_ids R us st w = (Inr (filter (matches_ids us st) (rows w)), w)"
    and get_by_peer_id:
      "ok w \<Longrightarrow> fits_bigint p \<Longrightarrow> ur_get_by_peer_id R p w = (Inr (find (linked_to p) (rows w)), w)"
    and create:
      "ok w \<Longrightarrow> wp (ur_create R u)
         (\<lambda>r w'. ok w' \<and> other w' = other w \<and> rows w' = rows w @ [r] \<and> owned_by u r \<and>
            uv_state r = STATE_PENDING \<and> uv_peer_id r = None \<and> find (owned_by u) (rows w) = None)
         (\<lambda>e w'. ok w' \<and> isinstance e AlreadyExistsError) w"
    and set_state:
      "ok w \<Longrightarrow> s \<in> set ALLOWED_STATES \<Longrightarrow> wp (ur_set_state R i s)
         (\<lambda>r w'. ok w' \<and> other w' = other w \<and>
            (\<exists>t. rows w' = update_where (\<lambda>r. uv_id r = i \<and> live r)
                            (with_state s t) (rows w)))
         (\<lambda>e w'. False) w"
    and soft_delete:
      "ok w \<Longrightarrow> wp (ur_soft_delete R u)
         (\<lambda>d w'. ok w' \<and> other w' = other w \<and> (d \<longleftrightarrow> (\<exists>r \<in> set (rows w). owned_by u r)) \<and>
            (\<exists>t. rows w' = update_where (owned_by u)
                            (with_deleted t) (rows w)))
         (\<lambda>e w'. False) w"

text \<open>The store of confirmation codes, as far as the search for an unused code needs it.\<close>

locale code_store =
  fixes C :: "'w vk_confirmation_repository"
    and codes :: "'w \<Rightarrow> vk_confirmation list"
    and ok :: "'w \<Rightarrow> bool"
  assumes get_by_code:
    "ok w \<Longrightarrow> cr_get_by_code C c w = (Inr (find (\<lambda>r. cf_code r = c) (codes w)), w)"

text \<open>
  A messenger: it answers, it never raises, and between its call and its answer nothing happens but
  what \<open>quiet\<close> allows.
\<close>

locale messenger =
  fixes M :: "'w vk_messenger"
    and quiet :: "'w \<Rightarrow> 'w \<Rightarrow> bool"
  assumes send_answers: "wp (ms_send_message M p t) (\<lambda>b w'. quiet w w') (\<lambda>e w'. False) w"
    and profile_answers: "wp (ms_get_profile M p) (\<lambda>b w'. quiet w w') (\<lambda>e w'. False) w"
begin

lemma send_run: obtains b w' where "ms_send_message M p t w = (Inr b, w')" "quiet w w'"
  using send_answers [of p t w]
  by (cases "ms_send_message M p t w") (auto simp: wp_def split: sum.splits)

lemma profile_run: obtains b w' where "ms_get_profile M p w = (Inr b, w')" "quiet w w'"
  using profile_answers [of p w]
  by (cases "ms_get_profile M p w") (auto simp: wp_def split: sum.splits)

end

end
