(* ===== verification/User_Vk_Repository.thy ===== *)
theory User_Vk_Repository
  imports Protocols
begin

text \<open>
  \<open>repositories/user_vk.py\<close>: the SQL repository of bindings.  Each operation is the statement of the
  source with its \<open>WHERE\<close> clause and values; \<open>mappings().one()\<close> and \<open>one_or_none()\<close> raise on a
  wrong number of rows.  An \<open>IntegrityError\<close> rolls the whole session back before
  \<open>AlreadyExistsError\<close> is raised.
\<close>

definition select_user_vks :: "(user_vk \<Rightarrow> bool) \<Rightarrow> ('x world_scheme, user_vk list) prog" where
  "select_user_vks p = getsM (\<lambda>w. filter p (user_vks (db w)))"

definition UserVkRepository_create :: "uuid \<Rightarrow> ('x world_scheme, user_vk) prog" where
  "UserVkRepository_create user_id =
     bindM now_utc (\<lambda>now.
     bindM fresh_uuid (\<lambda>new_id.
       let row = \<lparr>uv_id = new_id, uv_user_id = user_id, uv_peer_id = None, uv_state = STATE_PENDING,
                  uv_screen_name = None, uv_display_name = None, uv_deleted_at = None,
                  uv_created_at = now, uv_updated_at = now\<rparr>
       in thenM
            (catchM (exec_write True (\<lambda>d. d\<lparr>user_vks := user_vks d @ [row]\<rparr>))
               [IntegrityError]
               (\<lambda>_. thenM rollback
                  (raiseM AlreadyExistsError
                     (lit ''VK binding already exists for user_id='' @ uuid_str user_id))))
            (retM row)))"

definition UserVkRepository_get_by_id :: "uuid \<Rightarrow> ('x world_scheme, user_vk option) prog" where
  "UserVkRepository_get_by_id record_id =
     bindM (select_user_vks (\<lambda>r. uv_id r = record_id)) one_or_none"

definition UserVkRepository_get_by_user_id :: "uuid \<Rightarrow> ('x world_scheme, user_vk option) prog" where
  "UserVkRepository_get_by_user_id user_id =
     bindM (select_user_vks (\<lambda>r. uv_user_id r = user_id \<and> uv_deleted_at r = None)) one_or_none"

definition UserVkRepository_get_by_user_ids ::
    "uuid list \<Rightarrow> pystr option \<Rightarrow> ('x world_scheme, user_vk list) prog" where
  "UserVkRepository_get_by_user_ids user_ids state =
     select_user_vks (\<lambda>r. uv_user_id r \<in> set user_ids \<and> uv_deleted_at r = None \<and>
       (case state of None \<Rightarrow> True | Some s \<Rightarrow> uv_state r = s))"

definition UserVkRepository_get_by_peer_id :: "int \<Rightarrow> ('x world_scheme, user_vk option) prog" where
  "UserVkRepository_get_by_peer_id vk_peer_id =
     thenM (bind_bigint vk_peer_id)
       (bindM (select_user_vks (\<lambda>r. uv_peer_id r = Some vk_peer_id \<and> uv_deleted_at r = None))
          one_or_none)"

text \<open>\<open>UPDATE user_vks SET ... WHERE p RETURNING *\<close>\<close>

definition update_user_vks ::
    "bool \<Rightarrow> (user_vk \<Rightarrow> bool) \<Rightarrow> (user_vk \<Rightarrow> user_vk) \<Rightarrow> ('x world_scheme, user_vk list) prog" where
  "update_user_vks bound p f =
     bindM (getsM (\<lambda>w. updated p f (user_vks (db w)))) (\<lambda>rows.
       thenM (exec_write bound (\<lambda>d. d\<lparr>user_vks := update_where p f (user_vks d)\<rparr>)) (retM rows))"

definition UserVkRepository_activate ::
    "uuid \<Rightarrow> int \<Rightarrow> pystr option \<Rightarrow> pystr option \<Rightarrow> ('x world_scheme, user_vk) prog" where
  "UserVkRepository_activate record_id vk_peer_id vk_screen_name vk_display_name =
     bindM now_utc (\<lambda>now.
     bindM
       (catchM
          (update_user_vks
             (fits_bigint vk_peer_id)
             (\<lambda>r. uv_id r = record_id \<and> uv_deleted_at r = None)
             (\<lambda>r. r\<lparr>uv_peer_id := Some vk_peer_id, uv_state := STATE_ACTIVE,
                     uv_screen_name := vk_screen_name, uv_display_name := vk_display_name,
                     uv_updated_at := now\<rparr>))
          [IntegrityError]
          (\<lambda>_. thenM rollback
             (raiseM AlreadyExistsError
                (lit ''VK account already linked: vk_peer_id='' @ str_int vk_peer_id))))
       exactly_one)"

definition UserVkRepository_set_state :: "uuid \<Rightarrow> pystr \<Rightarrow> ('x world_scheme, user_vk option) prog" where
  "UserVkRepository_set_state record_id state =
     (if state \<notin> set ALLOWED_STATES
      then raiseM ValueError (lit ''Unsupported VK binding state: '' @ state)
      else
        bindM now_utc (\<lambda>now.
        bindM
          (update_user_vks True
             (\<lambda>r. uv_id r = record_id \<and> uv_deleted_at r = None)
             (\<lambda>r. r\<lparr>uv_state := state, uv_updated_at := now\<rparr>))
          one_or_none))"

definition UserVkRepository_soft_delete :: "uuid \<Rightarrow> ('x world_scheme, bool) prog" where
  "UserVkRepository_soft_delete user_id =
     bindM now_utc (\<lambda>now.
     bindM
       (update_user_vks True
          (\<lambda>r. uv_user_id r = user_id \<and> uv_deleted_at r = None)
          (\<lambda>r. r\<lparr>uv_deleted_at := Some now, uv_updated_at := now\<rparr>))
       (\<lambda>rows. retM (rows \<noteq> [])))"

definition SQLAlchemyUserVkRepository :: "('x world_scheme) user_vk_repository" where
  "SQLAlchemyUserVkRepository =
     \<lparr>ur_create = UserVkRepository_create,
      ur_get_by_id = UserVkRepository_get_by_id,
      ur_get_by_user_id = UserVkRepository_get_by_user_id,
      ur_get_by_user_ids = UserVkRepository_get_by_user_ids,
      ur_get_by_peer_id = UserVkRepository_get_by_peer_id,
      ur_activate = UserVkRepository_activate,
      ur_set_state = UserVkRepository_set_state,
      ur_soft_delete = UserVkRepository_soft_delete\<rparr>"

lemma user_vk_repository_sel [simp]:
  "ur_create SQLAlchemyUserVkRepository = UserVkRepository_create"
  "ur_get_by_id SQLAlchemyUserVkRepository = UserVkRepository_get_by_id"
  "ur_get_by_user_id SQLAlchemyUserVkRepository = UserVkRepository_get_by_user_id"
  "ur_get_by_user_ids SQLAlchemyUserVkRepository = UserVkRepository_get_by_user_ids"
  "ur_get_by_peer_id SQLAlchemyUserVkRepository = UserVkRepository_get_by_peer_id"
  "ur_activate SQLAlchemyUserVkRepository = UserVkRepository_activate"
  "ur_set_state SQLAlchemyUserVkRepository = UserVkRepository_set_state"
  "ur_soft_delete SQLAlchemyUserVkRepository = UserVkRepository_soft_delete"
  by (simp_all add: SQLAlchemyUserVkRepository_def)

section \<open>What the statements do on a consistent database\<close>

lemma user_vks_unique:
  assumes "db_ok d"
  shows "distinct (map uv_id (filter (\<lambda>_. True) (user_vks d)))"
    "distinct (map uv_user_id (filter live (user_vks d)))"
    "distinct (map uv_peer_id (filter (\<lambda>r. live r \<and> uv_peer_id r \<noteq> None) (user_vks d)))"
  using assms by (simp_all add: db_ok_def constraints_ok_def user_vks_ok_def)

lemma user_vks_live_unique: "db_ok d \<Longrightarrow> distinct (map uv_id (filter live (user_vks d)))"
  by (rule distinct_map_filter_subset [OF user_vks_unique(1)]) simp_all

lemma get_by_id_run [sql_simps]:
  fixes w :: "'x world_scheme"
  assumes "db_ok (db w)"
  shows "UserVkRepository_get_by_id i w = (Inr (find (\<lambda>r. uv_id r = i) (user_vks (db w))), w)"
proof -
  have "one_or_none (filter (\<lambda>r. uv_id r = i) (user_vks (db w))) =
      (retM (find (\<lambda>r. uv_id r = i) (user_vks (db w))) :: ('x world_scheme, user_vk option) prog)"
    by (rule one_or_none_find [OF user_vks_unique(1) [OF assms]]) simp
  then show ?thesis by (simp add: UserVkRepository_get_by_id_def select_user_vks_def prog_simps)
qed

lemma get_by_user_id_run [sql_simps]:
  fixes w :: "'x world_scheme"
  assumes "db_ok (db w)"
  shows "UserVkRepository_get_by_user_id u w = (Inr (find (owned_by u) (user_vks (db w))), w)"
proof -
  have "one_or_none (filter (owned_by u) (user_vks (db w))) =
      (retM (find (owned_by u) (user_vks (db w))) :: ('x world_scheme, user_vk option) prog)"
    by (rule one_or_none_find [OF user_vks_unique(2) [OF assms], where k = u]) (auto simp: owned_by_def)
  then show ?thesis
    by (simp add: UserVkRepository_get_by_user_id_def select_user_vks_def prog_simps owned_by_def [abs_def])
qed

lemma get_by_peer_id_run [sql_simps]:
  fixes w :: "'x world_scheme"
  assumes "db_ok (db w)" "fits_bigint p"
  shows "UserVkRepository_get_by_peer_id p w = (Inr (find (linked_to p) (user_vks (db w))), w)"
proof -
  have "one_or_none (filter (linked_to p) (user_vks (db w))) =
      (retM (find (linked_to p) (user_vks (db w))) :: ('x world_scheme, user_vk option) prog)"
    by (rule one_or_none_find [OF user_vks_unique(3) [OF assms(1)], where k = "Some p"])
      (auto simp: linked_to_def)
  then show ?thesis using assms(2)
    by (simp add: UserVkRepository_get_by_peer_id_def select_user_vks_def prog_simps bind_bigint_def
        linked_to_def [abs_def])
qed

lemma get_by_peer_id_out_of_range:
  "\<not> fits_bigint p \<Longrightarrow> \<exists>m. UserVkRepository_get_by_peer_id p w = (Inl (Exn DataError m), w)"
  by (simp add: UserVkRepository_get_by_peer_id_def bind_bigint_def prog_simps)

lemma get_by_user_ids_run [sql_simps]:
  "UserVkRepository_get_by_user_ids us st w = (Inr (filter (matches_ids us st) (user_vks (db w))), w)"
  by (simp add: UserVkRepository_get_by_user_ids_def select_user_vks_def prog_simps matches_ids_def [abs_def])

section \<open>Updates that touch no key\<close>

lemma db_ok_update_user_vks:
  assumes "db_ok d"
    and "\<And>r. uv_id (f r) = uv_id r" "\<And>r. uv_user_id (f r) = uv_user_id r"
    and "\<And>r. uv_peer_id (f r) = uv_peer_id r" "\<And>r. live (f r) \<Longrightarrow> live r"
    and "\<And>r. user_vk_fits r \<Longrightarrow> user_vk_fits (f r)"
  shows "db_ok (d\<lparr>user_vks := update_where p f (user_vks d)\<rparr>)"
proof -
  let ?g = "\<lambda>r. if p r then f r else r"
  have "user_vks_ok (map ?g (user_vks d))"
    using assms(1) by (intro user_vks_ok_map) (auto simp: db_ok_def constraints_ok_def assms split: if_splits)
  moreover have "map uv_id (map ?g (user_vks d)) = map uv_id (user_vks d)"
    by (simp add: assms)
  ultimately show ?thesis
    using assms(1,6) vk_confirmations_ok_users [of "map ?g (user_vks d)" "user_vks d"]
    by (auto simp: db_ok_def constraints_ok_def columns_ok_def update_where_def list_all_iff)
qed

lemma update_user_vks_run:
  assumes "db_ok ((db w)\<lparr>user_vks := update_where p f (user_vks (db w))\<rparr>)"
  shows "update_user_vks True p f w =
    (Inr (updated p f (user_vks (db w))), w\<lparr>db := (db w)\<lparr>user_vks := update_where p f (user_vks (db w))\<rparr>\<rparr>)"
  using assms by (simp add: update_user_vks_def prog_simps)

lemma set_state_run [sql_simps]:
  fixes w :: "'x world_scheme"
  assumes "db_ok (db w)" "s \<in> set ALLOWED_STATES"
  shows "UserVkRepository_set_state i s w =
    (Inr (map_option (with_state s (clock w (tick w))) (find (\<lambda>r. uv_id r = i \<and> live r) (user_vks (db w)))),
     w\<lparr>tick := Suc (tick w),
       db := (db w)\<lparr>user_vks := update_where (\<lambda>r. uv_id r = i \<and> live r)
                                 (with_state s (clock w (tick w))) (user_vks (db w))\<rparr>\<rparr>)"
proof -
  let ?p = "\<lambda>r. uv_id r = i \<and> live r" and ?f = "with_state s (clock w (tick w))"
  let ?w = "w\<lparr>tick := Suc (tick w)\<rparr>"
  have fit: "fits_varchar 16 s" using assms(2) by (auto simp: ALLOWED_STATES_def)
  have ok: "db_ok ((db ?w)\<lparr>user_vks := update_where ?p ?f (user_vks (db ?w))\<rparr>)"
    using assms(1) fit by (intro db_ok_update_user_vks) (auto simp: with_state_def user_vk_fits_def)
  have o: "one_or_none (updated ?p ?f (user_vks (db w))) =
      (retM (map_option ?f (find ?p (user_vks (db w)))) :: ('x world_scheme, user_vk option) prog)"
    by (rule one_or_none_updated [OF user_vks_live_unique [OF assms(1)]]) auto
  have "UserVkRepository_set_state i s w =
      bindM (update_user_vks True ?p ?f) one_or_none ?w"
    using assms(2) by (simp add: UserVkRepository_set_state_def prog_simps with_state_def [abs_def])
  then show ?thesis using update_user_vks_run [OF ok] o by (simp add: prog_simps)
qed

lemma soft_delete_run [sql_simps]:
  assumes "db_ok (db w)"
  shows "UserVkRepository_soft_delete u w =
    (Inr (\<exists>r \<in> set (user_vks (db w)). owned_by u r),
     w\<lparr>tick := Suc (tick w),
       db := (db w)\<lparr>user_vks := update_where (owned_by u) (with_deleted (clock w (tick w))) (user_vks (db w))\<rparr>\<rparr>)"
proof -
  let ?f = "with_deleted (clock w (tick w))" and ?w = "w\<lparr>tick := Suc (tick w)\<rparr>"
  have ok: "db_ok ((db ?w)\<lparr>user_vks := update_where (owned_by u) ?f (user_vks (db ?w))\<rparr>)"
    using assms by (intro db_ok_update_user_vks) (auto simp: with_deleted_def user_vk_fits_def)
  have "UserVkRepository_soft_delete u w =
      bindM (update_user_vks True (owned_by u) ?f) (\<lambda>rows. retM (rows \<noteq> [])) ?w"
    by (simp add: UserVkRepository_soft_delete_def prog_simps with_deleted_def [abs_def] owned_by_def [abs_def])
  then show ?thesis using update_user_vks_run [OF ok]
    by (auto simp: prog_simps updated_def filter_empty_conv)
qed

section \<open>Inserting and activating\<close>

definition new_binding :: "uuid \<Rightarrow> uuid \<Rightarrow> datetime \<Rightarrow> user_vk" where
  "new_binding new_id user_id now =
     \<lparr>uv_id = new_id, uv_user_id = user_id, uv_peer_id = None, uv_state = STATE_PENDING,
      uv_screen_name = None, uv_display_name = None, uv_deleted_at = None,
      uv_created_at = now, uv_updated_at = now\<rparr>"

lemma columns_ok_new_binding: "db_ok d \<Longrightarrow> columns_ok (d\<lparr>user_vks := user_vks d @ [new_binding i u t]\<rparr>)"
  by (simp add: db_ok_def columns_ok_def new_binding_def user_vk_fits_def opt_fits_def)

text \<open>The unique indexes admit the new row exactly when its key is new and its owner has no live row.\<close>

lemma constraints_ok_new_binding:
  assumes "db_ok d"
  shows "constraints_ok (d\<lparr>user_vks := user_vks d @ [new_binding i u t]\<rparr>) \<longleftrightarrow>
    i \<notin> uv_id ` set (user_vks d) \<and> find (owned_by u) (user_vks d) = None"
proof -
  have "vk_confirmations_ok (user_vks d @ [new_binding i u t]) (vk_confirmations d)"
    by (rule vk_confirmations_ok_more_users [of "user_vks d"])
      (use assms in \<open>auto simp: db_ok_def constraints_ok_def\<close>)
  moreover have "user_vks_ok (user_vks d @ [new_binding i u t]) \<longleftrightarrow>
      i \<notin> uv_id ` set (user_vks d) \<and> u \<notin> uv_user_id ` set (filter live (user_vks d))"
  proof -
    have "user_vks_ok (user_vks d)" using assms by (simp add: db_ok_def constraints_ok_def)
    then show ?thesis by (auto simp: user_vks_ok_def new_binding_def)
  qed
  moreover have "find (owned_by u) (user_vks d) = None \<longleftrightarrow> u \<notin> uv_user_id ` set (filter live (user_vks d))"
    by (auto simp: find_None_iff owned_by_def)
  ultimately show ?thesis using assms by (simp add: db_ok_def constraints_ok_def)
qed

lemma create_run:
  assumes "db_ok (db w)"
  shows "UserVkRepository_create u w =
    (let row = new_binding (uuids w (drawn w)) u (clock w (tick w));
         w' = w\<lparr>tick := Suc (tick w), drawn := Suc (drawn w)\<rparr>
     in if uuids w (drawn w) \<notin> uv_id ` set (user_vks (db w)) \<and> find (owned_by u) (user_vks (db w)) = None
        then (Inr row, w'\<lparr>db := (db w)\<lparr>user_vks := user_vks (db w) @ [row]\<rparr>\<rparr>)
        else (Inl (Exn AlreadyExistsError (lit ''VK binding already exists for user_id='' @ uuid_str u)),
              w'\<lparr>db := committed w, locks := []\<rparr>))"
  using columns_ok_new_binding [OF assms] constraints_ok_new_binding [OF assms]
  by (simp add: UserVkRepository_create_def prog_simps exec_write_def Let_def flip: new_binding_def)

text \<open>
  \<open>activate\<close> on a consistent database: the error of a peer that another live row holds, the error
  of a value too long for its column, the missing row, or the linked row.
\<close>

definition activated :: "int \<Rightarrow> pystr option \<Rightarrow> pystr option \<Rightarrow> datetime \<Rightarrow> user_vk \<Rightarrow> user_vk" where
  "activated p sn dn t r =
     r\<lparr>uv_peer_id := Some p, uv_state := STATE_ACTIVE, uv_screen_name := sn, uv_display_name := dn,
       uv_updated_at := t\<rparr>"

definition names_fit :: "pystr option \<Rightarrow> pystr option \<Rightarrow> bool" where
  "names_fit sn dn \<longleftrightarrow> opt_fits (fits_varchar 64) sn \<and> opt_fits (fits_varchar 255) dn"

lemma update_where_single:
  assumes "distinct (map k rows)" "r \<in> set rows" "p r" "\<And>x. p x \<Longrightarrow> k x = k r"
  obtains as bs where "rows = as @ r # bs" "update_where p f rows = as @ f r # bs"
    "\<forall>x \<in> set as \<union> set bs. k x \<noteq> k r"
proof -
  obtain as bs where rows: "rows = as @ r # bs" using assms(2) by (meson split_list)
  have "k r \<notin> k ` set as \<union> k ` set bs" using assms(1) by (simp add: rows)
  then have k: "\<forall>x \<in> set as \<union> set bs. k x \<noteq> k r" by (metis UnE UnI1 UnI2 imageI)
  then have "\<forall>x \<in> set as \<union> set bs. \<not> p x" using assms(4) by blast
  then have "update_where p f as = as" "update_where p f bs = bs" by (auto intro: update_where_none)
  then have "update_where p f rows = as @ f r # bs"
    using assms(3) unfolding rows by (simp add: update_where_def)
  with rows k show ?thesis using that by blast
qed

text \<open>Linking row \<open>i\<close> to peer \<open>p\<close> is admitted exactly when no other live row holds \<open>p\<close>.\<close>

lemma constraints_ok_activated:
  assumes ok: "db_ok d" and r: "r \<in> set (user_vks d)" "uv_id r = i" "live r"
  shows "constraints_ok (d\<lparr>user_vks := update_where (\<lambda>r. uv_id r = i \<and> live r) (activated p sn dn t) (user_vks d)\<rparr>)
    \<longleftrightarrow> (\<forall>x \<in> set (user_vks d). linked_to p x \<longrightarrow> uv_id x = i)"
proof -
  let ?P = "\<lambda>r. uv_id r = i \<and> live r" and ?f = "activated p sn dn t"
  have u: "user_vks_ok (user_vks d)" using ok by (simp add: db_ok_def constraints_ok_def)
  then have "distinct (map uv_id (user_vks d))" by (simp add: user_vks_ok_def)
  then obtain as bs where rows: "user_vks d = as @ r # bs" and rows': "update_where ?P ?f (user_vks d) = as @ ?f r # bs"
    and k: "\<forall>x \<in> set as \<union> set bs. uv_id x \<noteq> uv_id r"
    by (rule update_where_single [of uv_id "user_vks d" r ?P ?f]) (use r in auto)
  have fr: "uv_id (?f r) = i" "uv_user_id (?f r) = uv_user_id r" "live (?f r)" "uv_peer_id (?f r) = Some p"
    using r by (simp_all add: activated_def)
  let ?q = "\<lambda>r. live r \<and> uv_peer_id r \<noteq> None"
  have ids: "distinct (map uv_id (as @ ?f r # bs))" "distinct (map uv_user_id (filter live (as @ ?f r # bs)))"
    using u r fr by (simp_all add: user_vks_ok_def rows)
  have "distinct (map uv_peer_id (filter ?q (as @ bs)))"
    using u by (auto simp: user_vks_ok_def rows split: if_splits)
  then have "user_vks_ok (as @ ?f r # bs) \<longleftrightarrow> Some p \<notin> uv_peer_id ` set (filter ?q (as @ bs))"
  proof -
    assume d: "distinct (map uv_peer_id (filter ?q (as @ bs)))"
    have "map uv_peer_id (filter ?q (as @ ?f r # bs)) =
        map uv_peer_id (filter ?q as) @ Some p # map uv_peer_id (filter ?q bs)" using fr by simp
    then have "distinct (map uv_peer_id (filter ?q (as @ ?f r # bs))) \<longleftrightarrow>
        distinct (map uv_peer_id (filter ?q (as @ bs))) \<and> Some p \<notin> set (map uv_peer_id (filter ?q (as @ bs)))"
      by (simp only: distinct_middle map_append filter_append)
    then show ?thesis using ids d by (simp only: user_vks_ok_def set_map simp_thms)
  qed
  also have "\<dots> \<longleftrightarrow> (\<forall>x \<in> set as \<union> set bs. \<not> linked_to p x)"
  proof
    assume l: "Some p \<notin> uv_peer_id ` set (filter ?q (as @ bs))"
    show "\<forall>x \<in> set as \<union> set bs. \<not> linked_to p x"
    proof (intro ballI notI)
      fix x assume "x \<in> set as \<union> set bs" "linked_to p x"
      then have m: "x \<in> set (filter ?q (as @ bs))" and e: "uv_peer_id x = Some p"
        by (auto simp: linked_to_def)
      from m have "uv_peer_id x \<in> uv_peer_id ` set (filter ?q (as @ bs))" by (rule imageI)
      with l show False by (simp only: e)
    qed
  qed (auto simp: linked_to_def)
  also have "\<dots> \<longleftrightarrow> (\<forall>x \<in> set (user_vks d). linked_to p x \<longrightarrow> uv_id x = i)"
    using k r unfolding rows by auto
  moreover have "vk_confirmations_ok (as @ ?f r # bs) (vk_confirmations d)"
    by (rule vk_confirmations_ok_more_users [of "user_vks d"])
      (use ok fr r in \<open>auto simp: db_ok_def constraints_ok_def rows\<close>)
  ultimately show ?thesis using ok by (simp add: constraints_ok_def db_ok_def rows')
qed

lemma columns_ok_activated:
  assumes ok: "db_ok d" and r: "r \<in> set (user_vks d)" "uv_id r = i" "live r" and p: "fits_bigint p"
  shows "columns_ok (d\<lparr>user_vks := update_where (\<lambda>r. uv_id r = i \<and> live r) (activated p sn dn t) (user_vks d)\<rparr>)
    \<longleftrightarrow> names_fit sn dn"
proof -
  let ?rows = "update_where (\<lambda>r. uv_id r = i \<and> live r) (activated p sn dn t) (user_vks d)"
  have f: "user_vk_fits (activated p sn dn t x) \<longleftrightarrow> names_fit sn dn" for x
    using p by (simp add: user_vk_fits_def activated_def names_fit_def opt_fits_def)
  have m: "activated p sn dn t r \<in> set ?rows" using r by (auto simp: set_update_where)
  have old: "\<forall>x \<in> set (user_vks d). user_vk_fits x" using ok by (simp add: db_ok_def columns_ok_def list_all_iff)
  have "(\<forall>x \<in> set ?rows. user_vk_fits x) \<longleftrightarrow> names_fit sn dn"
  proof
    assume "\<forall>x \<in> set ?rows. user_vk_fits x"
    with m f show "names_fit sn dn" by blast
  next
    assume "names_fit sn dn"
    with f old show "\<forall>x \<in> set ?rows. user_vk_fits x" by (auto simp: set_update_where)
  qed
  then show ?thesis using ok by (simp add: db_ok_def columns_ok_def list_all_iff)
qed

lemma activate_unfold:
  fixes w :: "'x world_scheme"
  shows "UserVkRepository_activate i p sn dn w =
    bindM (catchM (update_user_vks (fits_bigint p) (\<lambda>r. uv_id r = i \<and> live r) (activated p sn dn (clock w (tick w))))
        [IntegrityError]
        (\<lambda>_. thenM rollback (raiseM AlreadyExistsError
            (lit ''VK account already linked: vk_peer_id='' @ str_int p))))
      exactly_one (w\<lparr>tick := Suc (tick w)\<rparr>)"
  by (simp add: UserVkRepository_activate_def prog_simps activated_def [abs_def])

lemma activate_ok:
  fixes w :: "'x world_scheme"
  assumes ok: "db_ok (db w)" and r: "find (\<lambda>r. uv_id r = i \<and> live r) (user_vks (db w)) = Some r"
    and fit: "fits_bigint p" "names_fit sn dn"
    and free: "\<forall>x \<in> set (user_vks (db w)). linked_to p x \<longrightarrow> uv_id x = i"
  shows "UserVkRepository_activate i p sn dn w =
    (Inr (activated p sn dn (clock w (tick w)) r),
     w\<lparr>tick := Suc (tick w),
       db := (db w)\<lparr>user_vks := update_where (\<lambda>r. uv_id r = i \<and> live r)
                                 (activated p sn dn (clock w (tick w))) (user_vks (db w))\<rparr>\<rparr>)"
proof -
  let ?P = "\<lambda>r. uv_id r = i \<and> live r" and ?f = "activated p sn dn (clock w (tick w))"
  let ?w = "w\<lparr>tick := Suc (tick w)\<rparr>"
  have r': "r \<in> set (user_vks (db w))" "uv_id r = i" "live r" using r by (auto simp: find_Some_iff)
  have "db_ok ((db ?w)\<lparr>user_vks := update_where ?P ?f (user_vks (db ?w))\<rparr>)"
    using constraints_ok_activated [OF ok r'] columns_ok_activated [OF ok r' fit(1)] fit free
    by (simp add: db_ok_def)
  from update_user_vks_run [OF this]
  have run: "update_user_vks True ?P ?f ?w = (Inr (updated ?P ?f (user_vks (db w))),
      ?w\<lparr>db := (db w)\<lparr>user_vks := update_where ?P ?f (user_vks (db w))\<rparr>\<rparr>)" by simp
  have "filter ?P (user_vks (db w)) = [r]"
    by (rule filter_unique [OF user_vks_live_unique [OF ok], where k = i])
      (use r' in auto)
  then have "updated ?P ?f (user_vks (db w)) = [?f r]" by (simp add: updated_def)
  then show ?thesis using fit run by (simp add: activate_unfold prog_simps)
qed

lemma activate_conflict:
  fixes w :: "'x world_scheme"
  assumes ok: "db_ok (db w)" and r: "find (\<lambda>r. uv_id r = i \<and> live r) (user_vks (db w)) = Some r"
    and fit: "fits_bigint p" "names_fit sn dn"
    and taken: "x \<in> set (user_vks (db w))" "linked_to p x" "uv_id x \<noteq> i"
  shows "UserVkRepository_activate i p sn dn w =
    (Inl (Exn AlreadyExistsError (lit ''VK account already linked: vk_peer_id='' @ str_int p)),
     w\<lparr>tick := Suc (tick w), db := committed w, locks := []\<rparr>)"
proof -
  have r': "r \<in> set (user_vks (db w))" "uv_id r = i" "live r" using r by (auto simp: find_Some_iff)
  show ?thesis
    using constraints_ok_activated [OF ok r'] columns_ok_activated [OF ok r' fit(1)] fit taken
    by (auto simp: activate_unfold prog_simps update_user_vks_def exec_write_def)
qed

lemma activate_misfit:
  fixes w :: "'x world_scheme"
  assumes ok: "db_ok (db w)" and r: "find (\<lambda>r. uv_id r = i \<and> live r) (user_vks (db w)) = Some r"
    and misfit: "\<not> (fits_bigint p \<and> names_fit sn dn)"
  shows "UserVkRepository_activate i p sn dn w =
    (Inl (Exn DataError (lit ''value out of range'')), w\<lparr>tick := Suc (tick w)\<rparr>)"
proof -
  have r': "r \<in> set (user_vks (db w))" "uv_id r = i" "live r" using r by (auto simp: find_Some_iff)
  show ?thesis
    using columns_ok_activated [OF ok r'] misfit
    by (auto simp: activate_unfold prog_simps update_user_vks_def exec_write_def)
qed

lemma activate_missing:
  fixes w :: "'x world_scheme"
  assumes ok: "db_ok (db w)" and r: "find (\<lambda>r. uv_id r = i \<and> live r) (user_vks (db w)) = None"
    and fit: "fits_bigint p"
  shows "UserVkRepository_activate i p sn dn w =
    (Inl (Exn NoResultFound (lit ''No row was found when one was required'')), w\<lparr>tick := Suc (tick w)\<rparr>)"
proof -
  have none: "\<forall>x \<in> set (user_vks (db w)). \<not> (uv_id x = i \<and> live x)" using r by (auto simp: find_None_iff)
  then have "update_where (\<lambda>r. uv_id r = i \<and> live r) f (user_vks (db w)) = user_vks (db w)" for f
    by (rule update_where_none)
  moreover have "updated (\<lambda>r. uv_id r = i \<and> live r) f (user_vks (db w)) = []" for f
    using none by (simp add: updated_def filter_empty_conv)
  ultimately show ?thesis using fit ok
    by (simp add: activate_unfold prog_simps update_user_vks_def exactly_one_def)
qed

section \<open>The contract\<close>

text \<open>A change of rows that keeps the identifiers keeps the supply of new ones.\<close>

lemma ids_of_update_user_vks:
  assumes "\<And>r. uv_id (f r) = uv_id r"
  shows "ids_of (d\<lparr>user_vks := update_where p f (user_vks d)\<rparr>) = ids_of d"
proof -
  have "set (map uv_id (update_where p f (user_vks d))) = set (map uv_id (user_vks d))"
    by (simp only: map_update_where [of uv_id f, OF assms])
  then show ?thesis by (simp add: ids_of_def)
qed

text \<open>Everything of the world but the bindings and the counters of outside reads.\<close>

definition beside_user_vks :: "'x world_scheme \<Rightarrow> 'x world_scheme" where
  "beside_user_vks w = w\<lparr>tick := 0, drawn := 0, db := (db w)\<lparr>user_vks := []\<rparr>\<rparr>"

lemma store_ok_update_rows:
  assumes "store_ok w" "\<And>r. uv_id (f r) = uv_id r"
    and "db_ok ((db w)\<lparr>user_vks := update_where p f (user_vks (db w))\<rparr>)"
  shows "store_ok (w\<lparr>tick := Suc (tick w), db := (db w)\<lparr>user_vks := update_where p f (user_vks (db w))\<rparr>\<rparr>)"
proof -
  let ?w = "w\<lparr>tick := Suc (tick w), db := (db w)\<lparr>user_vks := update_where p f (user_vks (db w))\<rparr>\<rparr>"
  have "fresh_supply w" using assms(1) by (simp add: store_ok_def)
  then have "fresh_supply ?w"
    by (rule fresh_supply_rows) (auto simp: ids_of_update_user_vks [of f, OF assms(2)])
  then show ?thesis using assms(1,3) by (simp add: store_ok_def)
qed

lemma store_ok_new_binding:
  fixes w :: "'x world_scheme"
  assumes "store_ok w" and row: "row = new_binding (uuids w (drawn w)) u t"
    and "db_ok ((db w)\<lparr>user_vks := user_vks (db w) @ [row]\<rparr>)"
  shows "store_ok (w\<lparr>tick := Suc (tick w), drawn := Suc (drawn w),
    db := (db w)\<lparr>user_vks := user_vks (db w) @ [row]\<rparr>\<rparr>)"
proof -
  let ?w = "w\<lparr>tick := Suc (tick w), drawn := Suc (drawn w), db := (db w)\<lparr>user_vks := user_vks (db w) @ [row]\<rparr>\<rparr>"
  have "fresh_supply w" using assms(1) by (simp add: store_ok_def)
  then have "fresh_supply ?w"
    by (rule fresh_supply_rows) (auto simp: ids_of_def row new_binding_def)
  then show ?thesis using assms(1,3) by (simp add: store_ok_def)
qed

lemma create_contract:
  fixes w :: "'x world_scheme"
  assumes "store_ok w"
  shows "wp (UserVkRepository_create u)
     (\<lambda>r w'. store_ok w' \<and> beside_user_vks w' = beside_user_vks w \<and>
        user_vks (db w') = user_vks (db w) @ [r] \<and> owned_by u r \<and> uv_state r = STATE_PENDING \<and>
        uv_peer_id r = None \<and> find (owned_by u) (user_vks (db w)) = None)
     (\<lambda>e w'. store_ok w' \<and> isinstance e AlreadyExistsError) w"
proof -
  have ok: "db_ok (db w)" and fresh: "fresh_supply w" using assms by (simp_all add: store_ok_def)
  let ?row = "new_binding (uuids w (drawn w)) u (clock w (tick w))"
  have "fresh_supply (w\<lparr>tick := Suc (tick w), drawn := Suc (drawn w), db := committed w, locks := []\<rparr>)"
    by (rule fresh_supply_same [OF fresh]) auto
  then have rolled: "store_ok (w\<lparr>tick := Suc (tick w), drawn := Suc (drawn w), db := committed w, locks := []\<rparr>)"
    using assms by (simp add: store_ok_def)
  show ?thesis
  proof (cases "uuids w (drawn w) \<notin> uv_id ` set (user_vks (db w)) \<and> find (owned_by u) (user_vks (db w)) = None")
    case True
    then have "db_ok ((db w)\<lparr>user_vks := user_vks (db w) @ [?row]\<rparr>)"
      using columns_ok_new_binding [OF ok] constraints_ok_new_binding [OF ok] by (simp add: db_ok_def)
    from store_ok_new_binding [OF assms refl this] True show ?thesis
      by (simp add: wp_def create_run [OF ok] Let_def beside_user_vks_def)
        (simp add: new_binding_def owned_by_def)
  next
    case False
    then show ?thesis using rolled unfolding wp_def create_run [OF ok] Let_def by (simp only: if_False) simp
  qed
qed

interpretation sql_bindings: user_vk_store
  SQLAlchemyUserVkRepository "\<lambda>w. user_vks (db w)" beside_user_vks store_ok
proof (unfold_locales, goal_cases)
  case (1 w i)
  then show ?case by (simp add: store_ok_def sql_simps)
next
  case (2 w u)
  then show ?case by (simp add: store_ok_def sql_simps)
next
  case (3 w us st)
  then show ?case by (simp add: sql_simps)
next
  case (4 w p)
  then show ?case by (simp add: store_ok_def sql_simps)
next
  case (5 w u)
  then show ?case using create_contract by simp
next
  case (6 w s i)
  let ?f = "with_state s (clock w (tick w))" and ?p = "\<lambda>r. uv_id r = i \<and> live r"
  have "fits_varchar 16 s" using 6(2) by (auto simp: ALLOWED_STATES_def)
  then have "db_ok ((db w)\<lparr>user_vks := update_where ?p ?f (user_vks (db w))\<rparr>)"
    using 6(1) by (intro db_ok_update_user_vks) (auto simp: with_state_def user_vk_fits_def store_ok_def)
  then have "store_ok (w\<lparr>tick := Suc (tick w), db := (db w)\<lparr>user_vks := update_where ?p ?f (user_vks (db w))\<rparr>\<rparr>)"
    by (intro store_ok_update_rows [OF 6(1)]) (simp_all add: with_state_def)
  moreover have "db_ok (db w)" using 6(1) by (simp add: store_ok_def)
  ultimately show ?case using 6(2)
    by (auto simp: wp_def set_state_run beside_user_vks_def)
next
  case (7 w u)
  let ?f = "with_deleted (clock w (tick w))"
  have "db_ok ((db w)\<lparr>user_vks := update_where (owned_by u) ?f (user_vks (db w))\<rparr>)"
    using 7(1) by (intro db_ok_update_user_vks) (auto simp: with_deleted_def user_vk_fits_def store_ok_def)
  then have "store_ok (w\<lparr>tick := Suc (tick w), db := (db w)\<lparr>user_vks := update_where (owned_by u) ?f (user_vks (db w))\<rparr>\<rparr>)"
    by (intro store_ok_update_rows [OF 7(1)]) (simp_all add: with_deleted_def)
  moreover have "db_ok (db w)" using 7(1) by (simp add: store_ok_def)
  ultimately show ?case by (auto simp: wp_def soft_delete_run beside_user_vks_def)
qed

end
