(* ===== verification/Vk_Confirmation_Repository.thy ===== *)
theory Vk_Confirmation_Repository
  imports Protocols
begin

text \<open>
  \<open>repositories/vk_confirmation.py\<close>: the SQL repository of confirmation codes.  No exception is
  translated here: an \<open>IntegrityError\<close> (a code or key that exists, a binding that does not) and a
  \<open>DataError\<close> (a code of more than 16 characters) reach the caller.
\<close>

definition VkConfirmationRepository_create ::
    "uuid \<Rightarrow> pystr \<Rightarrow> datetime \<Rightarrow> ('x world_scheme, vk_confirmation) prog" where
  "VkConfirmationRepository_create user_vk_id code expires_at =
     bindM fresh_uuid (\<lambda>new_id.
     bindM now_utc (\<lambda>now.
       let row = \<lparr>cf_id = new_id, cf_user_vk_id = user_vk_id, cf_code = code,
                  cf_expires_at = expires_at, cf_created_at = now, cf_used_at = None\<rparr>
       in thenM
            (exec_write True (\<lambda>d. d\<lparr>vk_confirmations := vk_confirmations d @ [row]\<rparr>))
            (retM row)))"

definition VkConfirmationRepository_get_by_code ::
    "pystr \<Rightarrow> ('x world_scheme, vk_confirmation option) prog" where
  "VkConfirmationRepository_get_by_code code =
     bindM (getsM (\<lambda>w. filter (\<lambda>r. cf_code r = code) (vk_confirmations (db w)))) one_or_none"

text \<open>\<open>UPDATE vk_confirmations SET used_at = now WHERE p\<close>; the result is \<open>rowcount\<close>.\<close>

definition with_used :: "datetime \<Rightarrow> vk_confirmation \<Rightarrow> vk_confirmation" where
  "with_used t r = r\<lparr>cf_used_at := Some t\<rparr>"

definition set_used_where :: "(vk_confirmation \<Rightarrow> bool) \<Rightarrow> ('x world_scheme, int) prog" where
  "set_used_where p =
     bindM now_utc (\<lambda>now.
     bindM (getsM (\<lambda>w. int (length (filter p (vk_confirmations (db w)))))) (\<lambda>rowcount.
       thenM
         (exec_write True
            (\<lambda>d. d\<lparr>vk_confirmations := update_where p (with_used now) (vk_confirmations d)\<rparr>))
         (retM rowcount)))"

definition VkConfirmationRepository_mark_used :: "uuid \<Rightarrow> ('x world_scheme, unit) prog" where
  "VkConfirmationRepository_mark_used confirmation_id =
     thenM (set_used_where (\<lambda>r. cf_id r = confirmation_id)) (retM ())"

definition VkConfirmationRepository_invalidate_previous :: "uuid \<Rightarrow> ('x world_scheme, int) prog" where
  "VkConfirmationRepository_invalidate_previous user_vk_id =
     set_used_where (\<lambda>r. cf_user_vk_id r = user_vk_id \<and> cf_used_at r = None)"

definition SQLAlchemyVkConfirmationRepository :: "('x world_scheme) vk_confirmation_repository" where
  "SQLAlchemyVkConfirmationRepository =
     \<lparr>cr_create = VkConfirmationRepository_create,
      cr_get_by_code = VkConfirmationRepository_get_by_code,
      cr_mark_used = VkConfirmationRepository_mark_used,
      cr_invalidate_previous = VkConfirmationRepository_invalidate_previous\<rparr>"

lemma vk_confirmation_repository_sel [simp]:
  "cr_create SQLAlchemyVkConfirmationRepository = VkConfirmationRepository_create"
  "cr_get_by_code SQLAlchemyVkConfirmationRepository = VkConfirmationRepository_get_by_code"
  "cr_mark_used SQLAlchemyVkConfirmationRepository = VkConfirmationRepository_mark_used"
  "cr_invalidate_previous SQLAlchemyVkConfirmationRepository =
     VkConfirmationRepository_invalidate_previous"
  by (simp_all add: SQLAlchemyVkConfirmationRepository_def)

section \<open>What the statements do on a consistent database\<close>

lemma get_by_code_run [sql_simps]:
  fixes w :: "'x world_scheme"
  assumes "db_ok (db w)"
  shows "VkConfirmationRepository_get_by_code c w =
    (Inr (find (\<lambda>r. cf_code r = c) (vk_confirmations (db w))), w)"
proof -
  have "distinct (map cf_code (filter (\<lambda>_. True) (vk_confirmations (db w))))"
    using assms by (simp add: db_ok_def constraints_ok_def vk_confirmations_ok_def)
  then have "one_or_none (filter (\<lambda>r. cf_code r = c) (vk_confirmations (db w))) =
      (retM (find (\<lambda>r. cf_code r = c) (vk_confirmations (db w))) :: ('x world_scheme, vk_confirmation option) prog)"
    by (rule one_or_none_find) simp
  then show ?thesis by (simp add: VkConfirmationRepository_get_by_code_def prog_simps)
qed

lemma db_ok_set_used:
  assumes "db_ok d"
  shows "db_ok (d\<lparr>vk_confirmations := update_where p (with_used t) (vk_confirmations d)\<rparr>)"
proof -
  have "vk_confirmations_ok (user_vks d) (update_where p (with_used t) (vk_confirmations d))"
    unfolding update_where_def
    by (rule vk_confirmations_ok_map)
      (use assms in \<open>auto simp: db_ok_def constraints_ok_def with_used_def\<close>)
  then show ?thesis using assms
    by (auto simp: db_ok_def constraints_ok_def columns_ok_def update_where_def list_all_iff
        vk_confirmation_fits_def with_used_def)
qed

lemma set_used_where_run:
  assumes "db_ok (db w)"
  shows "set_used_where p w =
    (Inr (int (length (filter p (vk_confirmations (db w))))),
     w\<lparr>tick := Suc (tick w),
       db := (db w)\<lparr>vk_confirmations := update_where p (with_used (clock w (tick w))) (vk_confirmations (db w))\<rparr>\<rparr>)"
  using db_ok_set_used [OF assms] by (simp add: set_used_where_def prog_simps)

lemma mark_used_run [sql_simps]:
  assumes "db_ok (db w)"
  shows "VkConfirmationRepository_mark_used i w =
    (Inr (),
     w\<lparr>tick := Suc (tick w),
       db := (db w)\<lparr>vk_confirmations :=
         update_where (\<lambda>r. cf_id r = i) (with_used (clock w (tick w))) (vk_confirmations (db w))\<rparr>\<rparr>)"
  using assms by (simp add: VkConfirmationRepository_mark_used_def prog_simps set_used_where_run)

definition unused_of :: "uuid \<Rightarrow> vk_confirmation \<Rightarrow> bool" where
  "unused_of i r \<longleftrightarrow> cf_user_vk_id r = i \<and> cf_used_at r = None"

lemma invalidate_previous_run [sql_simps]:
  assumes "db_ok (db w)"
  shows "VkConfirmationRepository_invalidate_previous i w =
    (Inr (int (length (filter (unused_of i) (vk_confirmations (db w))))),
     w\<lparr>tick := Suc (tick w),
       db := (db w)\<lparr>vk_confirmations :=
         update_where (unused_of i) (with_used (clock w (tick w))) (vk_confirmations (db w))\<rparr>\<rparr>)"
  using assms
  by (simp add: VkConfirmationRepository_invalidate_previous_def set_used_where_run unused_of_def [abs_def])

definition new_confirmation :: "uuid \<Rightarrow> uuid \<Rightarrow> pystr \<Rightarrow> datetime \<Rightarrow> datetime \<Rightarrow> vk_confirmation" where
  "new_confirmation new_id user_vk_id code expires_at now =
     \<lparr>cf_id = new_id, cf_user_vk_id = user_vk_id, cf_code = code,
      cf_expires_at = expires_at, cf_created_at = now, cf_used_at = None\<rparr>"

text \<open>
  The insertion: too long a code, a broken constraint (key or code taken, no such binding), or the
  new row.
\<close>

lemma confirmation_create_run:
  assumes "db_ok (db w)"
  shows "VkConfirmationRepository_create i c e w =
    (let row = new_confirmation (uuids w (drawn w)) i c e (clock w (tick w));
         w' = w\<lparr>tick := Suc (tick w), drawn := Suc (drawn w)\<rparr>
     in if \<not> fits_varchar 16 c then (Inl (Exn DataError (lit ''value out of range'')), w')
        else if uuids w (drawn w) \<in> cf_id ` set (vk_confirmations (db w)) \<or>
                c \<in> cf_code ` set (vk_confirmations (db w)) \<or> i \<notin> uv_id ` set (user_vks (db w))
        then (Inl (Exn IntegrityError (lit ''constraint violated'')), w')
        else (Inr row, w'\<lparr>db := (db w)\<lparr>vk_confirmations := vk_confirmations (db w) @ [row]\<rparr>\<rparr>))"
proof -
  let ?row = "new_confirmation (uuids w (drawn w)) i c e (clock w (tick w))"
  let ?d = "(db w)\<lparr>vk_confirmations := vk_confirmations (db w) @ [?row]\<rparr>"
  have col: "columns_ok ?d \<longleftrightarrow> fits_varchar 16 c"
    using assms by (auto simp: db_ok_def columns_ok_def vk_confirmation_fits_def new_confirmation_def)
  have con: "constraints_ok ?d \<longleftrightarrow> uuids w (drawn w) \<notin> cf_id ` set (vk_confirmations (db w)) \<and>
      c \<notin> cf_code ` set (vk_confirmations (db w)) \<and> i \<in> uv_id ` set (user_vks (db w))"
    using assms by (auto simp: db_ok_def constraints_ok_def vk_confirmations_ok_def new_confirmation_def)
  show ?thesis using col con
    by (simp add: VkConfirmationRepository_create_def prog_simps exec_write_def Let_def flip: new_confirmation_def)
qed

interpretation sql_codes: code_store
  SQLAlchemyVkConfirmationRepository "\<lambda>w. vk_confirmations (db w)" "\<lambda>w. db_ok (db w)"
  by unfold_locales (simp add: sql_simps)

end
