(* ===== verification/Vk_Log_Repository.thy ===== *)
theory Vk_Log_Repository
  imports Protocols
begin

text \<open>
  \<open>repositories/vk_log.py\<close>: the journal.  \<open>log_action\<close> appends a row whose time is the server's
  \<open>now()\<close>; \<open>count_failed_since\<close> counts the rows of an action with one of the given statuses since a
  moment whose details name a peer.
\<close>

definition vk_peer_id_key :: pystr where
  "vk_peer_id_key = lit ''vk_peer_id''"

definition VkLogRepository_log_action ::
    "pystr \<Rightarrow> pystr \<Rightarrow> details option \<Rightarrow> ('x world_scheme, vk_log) prog" where
  "VkLogRepository_log_action action status details =
     bindM fresh_uuid (\<lambda>new_id.
     bindM fresh_uuid (\<lambda>event_uuid.
     bindM server_now (\<lambda>created_at.
       let row = \<lparr>lg_id = new_id, lg_event_uuid = event_uuid, lg_action = action, lg_status = status,
                  lg_details = (case details of None \<Rightarrow> [] | Some d \<Rightarrow> d),
                  lg_created_at = created_at\<rparr>
       in thenM (exec_write True (\<lambda>d. d\<lparr>vk_logs := vk_logs d @ [row]\<rparr>)) (retM row))))"

definition VkLogRepository_count_failed_since ::
    "pystr \<Rightarrow> int \<Rightarrow> datetime \<Rightarrow> pystr list \<Rightarrow> ('x world_scheme, int) prog" where
  "VkLogRepository_count_failed_since action vk_peer_id since failed_statuses =
     getsM (\<lambda>w. int (length (filter
       (\<lambda>r. lg_action r = action \<and> lg_status r \<in> set failed_statuses \<and> since \<le> lg_created_at r \<and>
            map_of (lg_details r) vk_peer_id_key = Some (str_int vk_peer_id))
       (vk_logs (db w)))))"

definition SQLAlchemyVkLogRepository :: "('x world_scheme) vk_log_repository" where
  "SQLAlchemyVkLogRepository =
     \<lparr>lr_log_action = VkLogRepository_log_action,
      lr_count_failed_since = VkLogRepository_count_failed_since\<rparr>"

lemma vk_log_repository_sel [simp]:
  "lr_log_action SQLAlchemyVkLogRepository = VkLogRepository_log_action"
  "lr_count_failed_since SQLAlchemyVkLogRepository = VkLogRepository_count_failed_since"
  by (simp_all add: SQLAlchemyVkLogRepository_def)

section \<open>Appending to the journal\<close>

definition new_log :: "uuid \<Rightarrow> uuid \<Rightarrow> pystr \<Rightarrow> pystr \<Rightarrow> details \<Rightarrow> datetime \<Rightarrow> vk_log" where
  "new_log new_id event_uuid action status details created_at =
     \<lparr>lg_id = new_id, lg_event_uuid = event_uuid, lg_action = action, lg_status = status,
      lg_details = details, lg_created_at = created_at\<rparr>"

definition append_log :: "pystr \<Rightarrow> pystr \<Rightarrow> details \<Rightarrow> 'x world_scheme \<Rightarrow> 'x world_scheme" where
  "append_log action status details w =
     w\<lparr>tick := Suc (tick w), drawn := drawn w + 2,
       db := (db w)\<lparr>vk_logs := vk_logs (db w) @
         [new_log (uuids w (drawn w)) (uuids w (Suc (drawn w))) action status details
            (db_now w (tick w))]\<rparr>\<rparr>"

definition log_fits :: "pystr \<Rightarrow> pystr \<Rightarrow> bool" where
  "log_fits action status \<longleftrightarrow> fits_varchar 64 action \<and> fits_varchar 32 status"

lemma db_ok_append_log:
  assumes "db_ok (db w)" "fresh_supply w" "log_fits a s" "room 2 w"
  shows "db_ok (db (append_log a s d w))"
proof -
  have f: "uuids w (drawn w) \<notin> ids_of (db w)" "uuids w (Suc (drawn w)) \<notin> ids_of (db w)"
    using fresh_id [OF assms(2), of 0] fresh_id [OF assms(2), of 1] assms(4) by (simp_all add: room_def)
  then have "vk_logs_ok (vk_logs (db (append_log a s d w)))"
    using assms(1)
    by (simp add: append_log_def new_log_def vk_logs_ok_def db_ok_def constraints_ok_def ids_of_def)
  then show ?thesis using assms(1,3)
    by (simp add: db_ok_def constraints_ok_def columns_ok_def append_log_def log_fits_def vk_log_fits_def new_log_def)
qed

lemma fresh_supply_append_log:
  assumes "fresh_supply w"
  shows "fresh_supply (append_log a s d w)"
proof (rule fresh_supply_step [OF assms])
  have "ids_of (db (append_log a s d w)) \<union> ids_of (committed (append_log a s d w)) =
      {uuids w (drawn w), uuids w (Suc (drawn w))} \<union> ids_of (db w) \<union> ids_of (committed w)"
    by (auto simp: append_log_def new_log_def ids_of_def)
  moreover have "{uuids w (drawn w), uuids w (Suc (drawn w))} \<subseteq> uuids w ` {drawn w..<drawn w + 2}"
    by auto
  ultimately show "ids_of (db (append_log a s d w)) \<union> ids_of (committed (append_log a s d w)) \<subseteq>
      ids_of (db w) \<union> ids_of (committed w) \<union> uuids w ` {drawn w..<drawn (append_log a s d w)}"
    by (auto simp: append_log_def)
qed (simp_all add: append_log_def)

lemma log_action_run [sql_simps]:
  assumes "db_ok (db w)" "fresh_supply w" "log_fits a s" "room 2 w"
  shows "\<exists>r. VkLogRepository_log_action a s d w =
    (Inr r, append_log a s (case d of None \<Rightarrow> [] | Some x \<Rightarrow> x) w)"
  using db_ok_append_log [OF assms]
  by (simp add: VkLogRepository_log_action_def prog_simps append_log_def Let_def new_log_def
      exec_write_def db_ok_def eval_nat_numeral)

lemma append_log_sel [simp]:
  "user_vks (db (append_log a s d w)) = user_vks (db w)"
  "vk_confirmations (db (append_log a s d w)) = vk_confirmations (db w)"
  "vk_deliveries (db (append_log a s d w)) = vk_deliveries (db w)"
  "committed (append_log a s d w) = committed w"
  "outbox (append_log a s d w) = outbox w"
  "clock (append_log a s d w) = clock w"
  "uuids (append_log a s d w) = uuids w"
  "random (append_log a s d w) = random w"
  "tick (append_log a s d w) = Suc (tick w)"
  "drawn (append_log a s d w) = drawn w + 2"
  by (simp_all add: append_log_def)

end
