(* ===== verification/Vk_Delivery_Repository.thy ===== *)
theory Vk_Delivery_Repository
  imports Vk_Log_Repository
begin

text \<open>
  \<open>repositories/vk_notification_delivery.py\<close>: the ledger of deliveries, one row per event and
  recipient.  \<open>claim_attempt\<close> takes the advisory lock of the pair, answers \<open>None\<close> when the row is
  \<open>SENT\<close>, and otherwise upserts it with one more attempt.

  The contract of the ledger (locale \<open>delivery_ledger\<close>) is stated on its view as a map from
  (event, recipient) to status and number of attempts; \<open>spare\<close> is how many rows it can still name.
\<close>

definition STATUS_PENDING :: pystr where
  "STATUS_PENDING = lit ''PENDING''"

definition STATUS_SENT :: pystr where
  "STATUS_SENT = lit ''SENT''"

definition STATUS_FAILED :: pystr where
  "STATUS_FAILED = lit ''FAILED''"

definition same_recipient :: "uuid \<Rightarrow> uuid \<Rightarrow> vk_delivery \<Rightarrow> bool" where
  "same_recipient event_uuid user_id r \<longleftrightarrow> dl_event_uuid r = event_uuid \<and> dl_user_id r = user_id"

definition claimed_again :: "int \<Rightarrow> datetime \<Rightarrow> vk_delivery \<Rightarrow> vk_delivery" where
  "claimed_again vk_peer_id now r =
     r\<lparr>dl_peer_id := vk_peer_id, dl_status := STATUS_PENDING, dl_attempts := dl_attempts r + 1,
       dl_last_error := None, dl_updated_at := now\<rparr>"

text \<open>\<open>INSERT ... ON CONFLICT ON CONSTRAINT (event, recipient) DO UPDATE ... RETURNING *\<close>\<close>

definition upsert_delivery ::
    "bool \<Rightarrow> vk_delivery \<Rightarrow> (vk_delivery \<Rightarrow> vk_delivery) \<Rightarrow> ('x world_scheme, vk_delivery list) prog" where
  "upsert_delivery bound row f =
     (let conflict = same_recipient (dl_event_uuid row) (dl_user_id row) in
      bindM (getsM (\<lambda>w. filter conflict (vk_deliveries (db w)))) (\<lambda>hits.
        if hits = []
        then thenM
               (exec_write bound (\<lambda>d. d\<lparr>vk_deliveries := vk_deliveries d @ [row]\<rparr>))
               (retM [row])
        else thenM
               (exec_write bound (\<lambda>d. d\<lparr>vk_deliveries := update_where conflict f (vk_deliveries d)\<rparr>))
               (retM (map f hits))))"

definition VkNotificationDeliveryRepository_claim_attempt ::
    "uuid \<Rightarrow> uuid \<Rightarrow> int \<Rightarrow> ('x world_scheme, vk_delivery option) prog" where
  "VkNotificationDeliveryRepository_claim_attempt event_uuid user_id vk_peer_id =
     thenM (advisory_xact_lock (uuid_str event_uuid) (uuid_str user_id))
     (bindM
       (bindM (getsM (\<lambda>w. filter (same_recipient event_uuid user_id) (vk_deliveries (db w)))) one_or_none)
       (\<lambda>existing.
         if (case existing of None \<Rightarrow> False | Some r \<Rightarrow> dl_status r = STATUS_SENT)
         then retM None
         else
           bindM now_utc (\<lambda>now.
           bindM fresh_uuid (\<lambda>new_id.
           bindM server_now (\<lambda>created_at.
           bindM
             (upsert_delivery (fits_bigint vk_peer_id)
                \<lparr>dl_id = new_id, dl_event_uuid = event_uuid, dl_user_id = user_id,
                 dl_peer_id = vk_peer_id, dl_status = STATUS_PENDING, dl_attempts = 1,
                 dl_last_error = None, dl_created_at = created_at, dl_updated_at = now,
                 dl_sent_at = None\<rparr>
                (claimed_again vk_peer_id now))
             (\<lambda>rows. bindM (exactly_one rows) (\<lambda>r. retM (Some r))))))))"

text \<open>\<open>UPDATE vk_notification_deliveries SET ... WHERE (event, recipient) RETURNING *\<close>\<close>

definition update_delivery ::
    "uuid \<Rightarrow> uuid \<Rightarrow> (vk_delivery \<Rightarrow> vk_delivery) \<Rightarrow> ('x world_scheme, vk_delivery) prog" where
  "update_delivery event_uuid user_id f =
     bindM (getsM (\<lambda>w. updated (same_recipient event_uuid user_id) f (vk_deliveries (db w)))) (\<lambda>rows.
       thenM
         (exec_write True
            (\<lambda>d. d\<lparr>vk_deliveries := update_where (same_recipient event_uuid user_id) f (vk_deliveries d)\<rparr>))
         (exactly_one rows))"

definition sent_at :: "datetime \<Rightarrow> vk_delivery \<Rightarrow> vk_delivery" where
  "sent_at now r =
     r\<lparr>dl_status := STATUS_SENT, dl_last_error := None, dl_sent_at := Some now, dl_updated_at := now\<rparr>"

definition failed_at :: "pystr \<Rightarrow> datetime \<Rightarrow> vk_delivery \<Rightarrow> vk_delivery" where
  "failed_at error_category now r =
     r\<lparr>dl_status := STATUS_FAILED, dl_last_error := Some (take 64 error_category), dl_updated_at := now\<rparr>"

definition VkNotificationDeliveryRepository_mark_sent ::
    "uuid \<Rightarrow> uuid \<Rightarrow> ('x world_scheme, vk_delivery) prog" where
  "VkNotificationDeliveryRepository_mark_sent event_uuid user_id =
     bindM now_utc (\<lambda>now. update_delivery event_uuid user_id (sent_at now))"

definition VkNotificationDeliveryRepository_mark_failed ::
    "uuid \<Rightarrow> uuid \<Rightarrow> pystr \<Rightarrow> ('x world_scheme, vk_delivery) prog" where
  "VkNotificationDeliveryRepository_mark_failed event_uuid user_id error_category =
     bindM now_utc (\<lambda>now. update_delivery event_uuid user_id (failed_at error_category now))"

definition SQLAlchemyVkNotificationDeliveryRepository :: "('x world_scheme) vk_delivery_repository" where
  "SQLAlchemyVkNotificationDeliveryRepository =
     \<lparr>dr_claim_attempt = VkNotificationDeliveryRepository_claim_attempt,
      dr_mark_sent = VkNotificationDeliveryRepository_mark_sent,
      dr_mark_failed = VkNotificationDeliveryRepository_mark_failed\<rparr>"

lemma vk_delivery_repository_sel [simp]:
  "dr_claim_attempt SQLAlchemyVkNotificationDeliveryRepository =
     VkNotificationDeliveryRepository_claim_attempt"
  "dr_mark_sent SQLAlchemyVkNotificationDeliveryRepository = VkNotificationDeliveryRepository_mark_sent"
  "dr_mark_failed SQLAlchemyVkNotificationDeliveryRepository =
     VkNotificationDeliveryRepository_mark_failed"
  by (simp_all add: SQLAlchemyVkNotificationDeliveryRepository_def)

lemmas status_defs = STATUS_PENDING_def STATUS_SENT_def STATUS_FAILED_def

lemma statuses_distinct [simp]:
  "STATUS_PENDING \<noteq> STATUS_SENT" "STATUS_SENT \<noteq> STATUS_PENDING"
  "STATUS_PENDING \<noteq> STATUS_FAILED" "STATUS_FAILED \<noteq> STATUS_PENDING"
  "STATUS_SENT \<noteq> STATUS_FAILED" "STATUS_FAILED \<noteq> STATUS_SENT"
  by (simp_all add: status_defs)

lemma statuses_declared [simp]:
  "STATUS_PENDING \<in> set delivery_statuses" "STATUS_SENT \<in> set delivery_statuses"
  "STATUS_FAILED \<in> set delivery_statuses"
  by (simp_all add: delivery_statuses_def status_defs)

lemma statuses_fit [simp]:
  "fits_varchar 16 STATUS_PENDING" "fits_varchar 16 STATUS_SENT" "fits_varchar 16 STATUS_FAILED"
  by (simp_all add: fits_varchar_def status_defs)

section \<open>The ledger as a map\<close>

type_synonym ledger = "uuid \<times> uuid \<Rightarrow> (pystr \<times> int) option"

definition ledger_of :: "vk_delivery list \<Rightarrow> ledger" where
  "ledger_of rows =
     (\<lambda>(e, u). map_option (\<lambda>r. (dl_status r, dl_attempts r)) (find (same_recipient e u) rows))"

fun attempts_of :: "(pystr \<times> int) option \<Rightarrow> int" where
  "attempts_of None = 0"
| "attempts_of (Some (s, n)) = n"

fun is_sent :: "(pystr \<times> int) option \<Rightarrow> bool" where
  "is_sent None \<longleftrightarrow> False"
| "is_sent (Some (s, n)) \<longleftrightarrow> s = STATUS_SENT"

text \<open>What a claim needs: a peer that fits its column and a counter that can still be increased.\<close>

definition claimable :: "ledger \<Rightarrow> uuid \<Rightarrow> uuid \<Rightarrow> int \<Rightarrow> bool" where
  "claimable led e u p \<longleftrightarrow> fits_bigint p \<and> fits_integer (attempts_of (led (e, u)) + 1)"

locale delivery_ledger =
  fixes D :: "'w vk_delivery_repository"
    and led :: "'w \<Rightarrow> ledger"
    and other :: "'w \<Rightarrow> 'o"
    and ok :: "'w \<Rightarrow> bool"
    and spare :: "'w \<Rightarrow> nat"
  assumes claim_sent:
      "ok w \<Longrightarrow> is_sent (led w (e, u)) \<Longrightarrow> wp (dr_claim_attempt D e u p)
         (\<lambda>r w'. r = None \<and> ok w' \<and> led w' = led w \<and> other w' = other w \<and> spare w' = spare w)
         (\<lambda>x w'. False) w"
    and claim_open:
      "ok w \<Longrightarrow> \<not> is_sent (led w (e, u)) \<Longrightarrow> 0 < spare w \<Longrightarrow> wp (dr_claim_attempt D e u p)
         (\<lambda>r w'. r \<noteq> None \<and> ok w' \<and> other w' = other w \<and> spare w \<le> Suc (spare w') \<and>
            led w' = (led w)((e, u) \<mapsto> (STATUS_PENDING, attempts_of (led w (e, u)) + 1)))
         (\<lambda>x w'. ok w' \<and> other w' = other w \<and> \<not> claimable (led w) e u p \<and>
            \<not> isinstance x VkDeliveryRetryableError) w"
    and mark_sent:
      "ok w \<Longrightarrow> led w (e, u) = Some (s, n) \<Longrightarrow> wp (dr_mark_sent D e u)
         (\<lambda>r w'. ok w' \<and> other w' = other w \<and> spare w' = spare w \<and> led w' = (led w)((e, u) \<mapsto> (STATUS_SENT, n)))
         (\<lambda>x w'. False) w"
    and mark_failed:
      "ok w \<Longrightarrow> led w (e, u) = Some (s, n) \<Longrightarrow> wp (dr_mark_failed D e u c)
         (\<lambda>r w'. ok w' \<and> other w' = other w \<and> spare w' = spare w \<and> led w' = (led w)((e, u) \<mapsto> (STATUS_FAILED, n)))
         (\<lambda>x w'. False) w"

section \<open>The SQL ledger keeps the contract\<close>

lemma find_update_where_same:
  "(\<And>r. p (f r) = p r) \<Longrightarrow> find p (update_where p f rows) = map_option f (find p rows)"
  by (induction rows) (auto simp: update_where_def)

lemma find_update_where_other:
  "(\<And>r. p r \<Longrightarrow> \<not> q r \<and> \<not> q (f r)) \<Longrightarrow> find q (update_where p f rows) = find q rows"
  by (induction rows) (auto simp: update_where_def)

lemma ledger_of_update:
  assumes "\<And>r. dl_event_uuid (f r) = dl_event_uuid r" "\<And>r. dl_user_id (f r) = dl_user_id r"
    and "find (same_recipient e u) rows = Some r"
  shows "ledger_of (update_where (same_recipient e u) f rows) =
    (ledger_of rows)((e, u) \<mapsto> (dl_status (f r), dl_attempts (f r)))"
proof
  fix k :: "uuid \<times> uuid"
  obtain e' u' where k: "k = (e', u')" by (cases k)
  show "ledger_of (update_where (same_recipient e u) f rows) k =
      ((ledger_of rows)((e, u) \<mapsto> (dl_status (f r), dl_attempts (f r)))) k"
  proof (cases "k = (e, u)")
    case True
    then show ?thesis using assms k
      by (simp add: ledger_of_def find_update_where_same same_recipient_def)
  next
    case False
    then have "find (same_recipient e' u') (update_where (same_recipient e u) f rows) = find (same_recipient e' u') rows"
      using k assms by (intro find_update_where_other) (auto simp: same_recipient_def)
    then have "ledger_of (update_where (same_recipient e u) f rows) k = ledger_of rows k"
      using k by (simp add: ledger_of_def)
    then show ?thesis using False by simp
  qed
qed

lemma ledger_of_append:
  assumes "find (same_recipient (dl_event_uuid row) (dl_user_id row)) rows = None"
  shows "ledger_of (rows @ [row]) =
    (ledger_of rows)((dl_event_uuid row, dl_user_id row) \<mapsto> (dl_status row, dl_attempts row))"
  using assms
  by (auto simp: ledger_of_def find_append same_recipient_def fun_eq_iff split: option.splits)

text \<open>Everything of the world but the ledger, the locks and the counters of outside reads.\<close>

definition beside_deliveries :: "'x world_scheme \<Rightarrow> 'x world_scheme" where
  "beside_deliveries w = w\<lparr>tick := 0, drawn := 0, locks := [], db := (db w)\<lparr>vk_deliveries := []\<rparr>\<rparr>"

lemma db_ok_update_deliveries:
  assumes "db_ok d"
    and "\<And>r. dl_id (f r) = dl_id r" "\<And>r. dl_event_uuid (f r) = dl_event_uuid r"
    and "\<And>r. dl_user_id (f r) = dl_user_id r"
    and "\<And>r. dl_status (f r) \<in> set delivery_statuses"
    and "\<And>r. 0 \<le> dl_attempts r \<Longrightarrow> 0 \<le> dl_attempts (f r)"
    and "\<And>r. r \<in> set (vk_deliveries d) \<Longrightarrow> p r \<Longrightarrow> vk_delivery_fits r \<Longrightarrow> vk_delivery_fits (f r)"
  shows "db_ok (d\<lparr>vk_deliveries := update_where p f (vk_deliveries d)\<rparr>)"
proof -
  let ?rows = "update_where p f (vk_deliveries d)"
  have m: "map dl_id ?rows = map dl_id (vk_deliveries d)"
    "map (\<lambda>r. (dl_event_uuid r, dl_user_id r)) ?rows = map (\<lambda>r. (dl_event_uuid r, dl_user_id r)) (vk_deliveries d)"
    using assms(2-4) by (simp_all add: map_update_where)
  have "vk_deliveries_ok (vk_deliveries d)" using assms(1) by (simp add: db_ok_def constraints_ok_def)
  then have "vk_deliveries_ok ?rows"
    unfolding vk_deliveries_ok_def m using assms(5,6) by (auto simp: set_update_where)
  moreover have "list_all vk_delivery_fits ?rows"
    using assms(1,7) by (auto simp: db_ok_def columns_ok_def list_all_iff set_update_where)
  ultimately show ?thesis using assms(1) by (simp add: db_ok_def constraints_ok_def columns_ok_def)
qed

lemma deliveries_unique:
  assumes "db_ok d"
  shows "distinct (map (\<lambda>r. (dl_event_uuid r, dl_user_id r)) (filter (\<lambda>_. True) (vk_deliveries d)))"
  using assms by (simp add: db_ok_def constraints_ok_def vk_deliveries_ok_def)

lemma recipient_rows:
  assumes "db_ok d"
  shows "filter (same_recipient e u) (vk_deliveries d) =
    (case find (same_recipient e u) (vk_deliveries d) of None \<Rightarrow> [] | Some r \<Rightarrow> [r])"
  using filter_unique_cases [OF deliveries_unique [OF assms], of "same_recipient e u" "(e, u)"]
  by (auto simp: find_eq_filter same_recipient_def)

lemma claim_select:
  fixes w :: "'x world_scheme"
  assumes "db_ok (db w)"
  shows "one_or_none (filter (same_recipient e u) (vk_deliveries (db w))) =
    (retM (find (same_recipient e u) (vk_deliveries (db w))) :: ('x world_scheme, vk_delivery option) prog)"
  using recipient_rows [OF assms] by (auto split: option.splits)

lemma is_sent_ledger:
  "is_sent (ledger_of rows (e, u)) \<longleftrightarrow>
     (case find (same_recipient e u) rows of None \<Rightarrow> False | Some r \<Rightarrow> dl_status r = STATUS_SENT)"
  by (simp add: ledger_of_def split: option.splits)

definition locked :: "uuid \<Rightarrow> uuid \<Rightarrow> 'x world_scheme \<Rightarrow> 'x world_scheme" where
  "locked e u w = w\<lparr>locks := (hashtext w (uuid_str e), hashtext w (uuid_str u)) # locks w\<rparr>"

definition new_delivery :: "uuid \<Rightarrow> uuid \<Rightarrow> uuid \<Rightarrow> int \<Rightarrow> datetime \<Rightarrow> datetime \<Rightarrow> vk_delivery" where
  "new_delivery i e u p created now =
     \<lparr>dl_id = i, dl_event_uuid = e, dl_user_id = u, dl_peer_id = p, dl_status = STATUS_PENDING,
      dl_attempts = 1, dl_last_error = None, dl_created_at = created, dl_updated_at = now,
      dl_sent_at = None\<rparr>"

text \<open>A pair already sent is not claimed: only its lock is taken.\<close>

lemma claim_sent_run:
  fixes w :: "'x world_scheme"
  assumes "db_ok (db w)" "find (same_recipient e u) (vk_deliveries (db w)) = Some r" "dl_status r = STATUS_SENT"
  shows "VkNotificationDeliveryRepository_claim_attempt e u p w = (Inr None, locked e u w)"
  using claim_select [OF assms(1), of e u] assms(2,3)
  by (simp add: VkNotificationDeliveryRepository_claim_attempt_def prog_simps advisory_xact_lock_def locked_def)

lemma claim_open_run:
  fixes w :: "'x world_scheme"
  assumes "db_ok (db w)" "\<not> is_sent (ledger_of (vk_deliveries (db w)) (e, u))"
  shows "VkNotificationDeliveryRepository_claim_attempt e u p w =
    bindM
      (upsert_delivery (fits_bigint p)
        (new_delivery (uuids w (drawn w)) e u p (db_now w (Suc (tick w))) (clock w (tick w)))
        (claimed_again p (clock w (tick w))))
      (\<lambda>rows. bindM (exactly_one rows) (\<lambda>r. retM (Some r)))
      (locked e u w\<lparr>drawn := Suc (drawn w), tick := tick w + 2\<rparr>)"
  using claim_select [OF assms(1), of e u] assms(2)
  by (auto simp: VkNotificationDeliveryRepository_claim_attempt_def prog_simps advisory_xact_lock_def
      locked_def is_sent_ledger new_delivery_def eval_nat_numeral split: option.splits)

text \<open>The first claim of a pair inserts its row.\<close>

lemma claim_first_run:
  fixes w :: "'x world_scheme" and p :: int
  assumes ok: "db_ok (db w)" "fresh_supply w" "room 1 w"
    and none: "find (same_recipient e u) (vk_deliveries (db w)) = None"
  defines "row \<equiv> new_delivery (uuids w (drawn w)) e u p (db_now w (Suc (tick w))) (clock w (tick w))"
  shows "VkNotificationDeliveryRepository_claim_attempt e u p w =
    (let w' = locked e u w\<lparr>drawn := Suc (drawn w), tick := tick w + 2\<rparr> in
     if fits_bigint p
     then (Inr (Some row), w'\<lparr>db := (db w)\<lparr>vk_deliveries := vk_deliveries (db w) @ [row]\<rparr>\<rparr>)
     else (Inl (Exn DataError (lit ''value out of range'')), w'))"
    and "fits_bigint p \<Longrightarrow> db_ok ((db w)\<lparr>vk_deliveries := vk_deliveries (db w) @ [row]\<rparr>)"
proof -
  have "uuids w (drawn w) \<notin> ids_of (db w)" using fresh_id [OF ok(2), of 0] ok(3) by simp
  then have "vk_deliveries_ok (vk_deliveries (db w) @ [row])"
    using ok(1) none
    by (auto simp: vk_deliveries_ok_def db_ok_def constraints_ok_def row_def new_delivery_def ids_of_def
        find_None_iff same_recipient_def)
  then show db: "db_ok ((db w)\<lparr>vk_deliveries := vk_deliveries (db w) @ [row]\<rparr>)" if "fits_bigint p"
    using ok(1) that
    by (simp add: db_ok_def constraints_ok_def columns_ok_def vk_delivery_fits_def row_def new_delivery_def
        fits_integer_def opt_fits_def)
  have e: "dl_event_uuid row = e" "dl_user_id row = u" by (simp_all add: row_def new_delivery_def)
  have rows: "filter (same_recipient e u) (vk_deliveries (db w)) = []"
    using recipient_rows [OF ok(1)] none by simp
  have open': "\<not> is_sent (ledger_of (vk_deliveries (db w)) (e, u))" using none by (simp add: is_sent_ledger)
  show "VkNotificationDeliveryRepository_claim_attempt e u p w =
    (let w' = locked e u w\<lparr>drawn := Suc (drawn w), tick := tick w + 2\<rparr> in
     if fits_bigint p
     then (Inr (Some row), w'\<lparr>db := (db w)\<lparr>vk_deliveries := vk_deliveries (db w) @ [row]\<rparr>\<rparr>)
     else (Inl (Exn DataError (lit ''value out of range'')), w'))"
    using db rows e claim_open_run [OF ok(1) open', of p]
    by (simp add: upsert_delivery_def prog_simps locked_def Let_def exec_write_def db_ok_def flip: row_def)
qed

text \<open>A later claim reopens the row and counts one more attempt, while the counter fits its column.\<close>

lemma claim_again_run:
  fixes w :: "'x world_scheme" and p :: int
  assumes ok: "db_ok (db w)"
    and some: "find (same_recipient e u) (vk_deliveries (db w)) = Some r" and open': "dl_status r \<noteq> STATUS_SENT"
  defines "f \<equiv> claimed_again p (clock w (tick w))"
  shows "VkNotificationDeliveryRepository_claim_attempt e u p w =
    (let w' = locked e u w\<lparr>drawn := Suc (drawn w), tick := tick w + 2\<rparr> in
     if fits_bigint p \<and> fits_integer (dl_attempts r + 1)
     then (Inr (Some (f r)),
           w'\<lparr>db := (db w)\<lparr>vk_deliveries := update_where (same_recipient e u) f (vk_deliveries (db w))\<rparr>\<rparr>)
     else (Inl (Exn DataError (lit ''value out of range'')), w'))"
    and "fits_bigint p \<Longrightarrow> fits_integer (dl_attempts r + 1) \<Longrightarrow>
      db_ok ((db w)\<lparr>vk_deliveries := update_where (same_recipient e u) f (vk_deliveries (db w))\<rparr>)"
proof -
  have rows: "filter (same_recipient e u) (vk_deliveries (db w)) = [r]"
    using recipient_rows [OF ok] some by simp
  have one: "x = r" if "x \<in> set (vk_deliveries (db w))" "same_recipient e u x" for x
  proof -
    have "x \<in> set (filter (same_recipient e u) (vk_deliveries (db w)))" using that by simp
    then show ?thesis by (simp only: rows list.set singleton_iff)
  qed
  have mem: "r \<in> set (vk_deliveries (db w))" "same_recipient e u r"
    using some by (auto simp: find_Some_iff)
  have fit: "vk_delivery_fits (f x) \<longleftrightarrow> fits_bigint p \<and> fits_integer (dl_attempts x + 1)" for x
    by (auto simp: f_def claimed_again_def vk_delivery_fits_def opt_fits_def)
  show db: "db_ok ((db w)\<lparr>vk_deliveries := update_where (same_recipient e u) f (vk_deliveries (db w))\<rparr>)"
    if "fits_bigint p" "fits_integer (dl_attempts r + 1)"
    using ok that one fit
    by (intro db_ok_update_deliveries) (auto simp: f_def claimed_again_def)
  have bad: "\<not> columns_ok ((db w)\<lparr>vk_deliveries := update_where (same_recipient e u) f (vk_deliveries (db w))\<rparr>)"
    if "\<not> (fits_bigint p \<and> fits_integer (dl_attempts r + 1))"
  proof -
    have "f r \<in> set (update_where (same_recipient e u) f (vk_deliveries (db w)))"
      using mem by (auto simp: set_update_where)
    moreover have "\<not> vk_delivery_fits (f r)" using fit that by blast
    ultimately show ?thesis by (auto simp: columns_ok_def list_all_iff)
  qed
  have op: "\<not> is_sent (ledger_of (vk_deliveries (db w)) (e, u))"
    using some open' by (simp add: is_sent_ledger)
  show "VkNotificationDeliveryRepository_claim_attempt e u p w =
    (let w' = locked e u w\<lparr>drawn := Suc (drawn w), tick := tick w + 2\<rparr> in
     if fits_bigint p \<and> fits_integer (dl_attempts r + 1)
     then (Inr (Some (f r)),
           w'\<lparr>db := (db w)\<lparr>vk_deliveries := update_where (same_recipient e u) f (vk_deliveries (db w))\<rparr>\<rparr>)
     else (Inl (Exn DataError (lit ''value out of range'')), w'))"
    using db bad rows claim_open_run [OF ok op, of p]
    by (auto simp: upsert_delivery_def prog_simps locked_def Let_def exec_write_def db_ok_def new_delivery_def
        simp flip: f_def)
qed

text \<open>A mark rewrites the one row of its pair.\<close>

lemma update_delivery_run:
  fixes w :: "'x world_scheme"
  assumes ok: "db_ok (db w)" and some: "find (same_recipient e u) (vk_deliveries (db w)) = Some r"
    and db': "db_ok ((db w)\<lparr>vk_deliveries := update_where (same_recipient e u) f (vk_deliveries (db w))\<rparr>)"
  shows "update_delivery e u f w =
    (Inr (f r), w\<lparr>db := (db w)\<lparr>vk_deliveries := update_where (same_recipient e u) f (vk_deliveries (db w))\<rparr>\<rparr>)"
proof -
  have "updated (same_recipient e u) f (vk_deliveries (db w)) = [f r]"
    using recipient_rows [OF ok, of e u] some by (simp add: updated_def)
  then show ?thesis using db' by (simp add: update_delivery_def prog_simps)
qed

lemma db_ok_sent_at:
  assumes "db_ok d"
  shows "db_ok (d\<lparr>vk_deliveries := update_where p (sent_at t) (vk_deliveries d)\<rparr>)"
  using assms
  by (intro db_ok_update_deliveries) (auto simp: sent_at_def vk_delivery_fits_def opt_fits_def)

lemma db_ok_failed_at:
  assumes "db_ok d"
  shows "db_ok (d\<lparr>vk_deliveries := update_where p (failed_at c t) (vk_deliveries d)\<rparr>)"
  using assms
  by (intro db_ok_update_deliveries)
    (use statuses_fit in \<open>auto simp: failed_at_def vk_delivery_fits_def opt_fits_def fits_varchar_def\<close>)

lemma mark_sent_run:
  fixes w :: "'x world_scheme"
  assumes "db_ok (db w)" "find (same_recipient e u) (vk_deliveries (db w)) = Some r"
  shows "VkNotificationDeliveryRepository_mark_sent e u w =
    (Inr (sent_at (clock w (tick w)) r),
     w\<lparr>tick := Suc (tick w),
       db := (db w)\<lparr>vk_deliveries :=
         update_where (same_recipient e u) (sent_at (clock w (tick w))) (vk_deliveries (db w))\<rparr>\<rparr>)"
  using assms update_delivery_run [of "w\<lparr>tick := Suc (tick w)\<rparr>" e u r "sent_at (clock w (tick w))"]
  by (simp add: VkNotificationDeliveryRepository_mark_sent_def prog_simps db_ok_sent_at)

lemma mark_failed_run:
  fixes w :: "'x world_scheme"
  assumes "db_ok (db w)" "find (same_recipient e u) (vk_deliveries (db w)) = Some r"
  shows "VkNotificationDeliveryRepository_mark_failed e u c w =
    (Inr (failed_at c (clock w (tick w)) r),
     w\<lparr>tick := Suc (tick w),
       db := (db w)\<lparr>vk_deliveries :=
         update_where (same_recipient e u) (failed_at c (clock w (tick w))) (vk_deliveries (db w))\<rparr>\<rparr>)"
  using assms update_delivery_run [of "w\<lparr>tick := Suc (tick w)\<rparr>" e u r "failed_at c (clock w (tick w))"]
  by (simp add: VkNotificationDeliveryRepository_mark_failed_def prog_simps db_ok_failed_at)

text \<open>A pair never claimed has no row to mark.\<close>

lemma mark_missing_run:
  assumes "find (same_recipient e u) (vk_deliveries (db w)) = None" "db_ok (db w)"
  shows "VkNotificationDeliveryRepository_mark_sent e u w =
    (Inl (Exn NoResultFound (lit ''No row was found when one was required'')), w\<lparr>tick := Suc (tick w)\<rparr>)"
proof -
  have "\<forall>r \<in> set (vk_deliveries (db w)). \<not> same_recipient e u r" using assms(1) by (auto simp: find_None_iff)
  then show ?thesis using assms(2)
    by (simp add: VkNotificationDeliveryRepository_mark_sent_def update_delivery_def prog_simps updated_def
        update_where_none filter_empty_conv exactly_one_def)
qed

section \<open>The interpretation\<close>

lemma ids_of_update_deliveries:
  assumes "\<And>r. dl_id (f r) = dl_id r"
  shows "ids_of (d\<lparr>vk_deliveries := update_where p f (vk_deliveries d)\<rparr>) = ids_of d"
proof -
  have "set (map dl_id (update_where p f (vk_deliveries d))) = set (map dl_id (vk_deliveries d))"
    by (simp only: map_update_where [of dl_id f, OF assms])
  then show ?thesis by (simp add: ids_of_def)
qed

lemma ledger_fields:
  "dl_event_uuid (claimed_again p t r) = dl_event_uuid r" "dl_user_id (claimed_again p t r) = dl_user_id r"
  "dl_id (claimed_again p t r) = dl_id r" "dl_status (claimed_again p t r) = STATUS_PENDING"
  "dl_attempts (claimed_again p t r) = dl_attempts r + 1"
  "dl_event_uuid (sent_at t r) = dl_event_uuid r" "dl_user_id (sent_at t r) = dl_user_id r"
  "dl_id (sent_at t r) = dl_id r" "dl_status (sent_at t r) = STATUS_SENT"
  "dl_attempts (sent_at t r) = dl_attempts r"
  "dl_event_uuid (failed_at c t r) = dl_event_uuid r" "dl_user_id (failed_at c t r) = dl_user_id r"
  "dl_id (failed_at c t r) = dl_id r" "dl_status (failed_at c t r) = STATUS_FAILED"
  "dl_attempts (failed_at c t r) = dl_attempts r"
  "dl_event_uuid (new_delivery i e u p c' t) = e" "dl_user_id (new_delivery i e u p c' t) = u"
  "dl_id (new_delivery i e u p c' t) = i" "dl_status (new_delivery i e u p c' t) = STATUS_PENDING"
  "dl_attempts (new_delivery i e u p c' t) = 1"
  by (simp_all add: claimed_again_def sent_at_def failed_at_def new_delivery_def)

lemma store_ok_update:
  assumes "store_ok w" "\<And>r. dl_id (f r) = dl_id r"
    and "db_ok ((db w)\<lparr>vk_deliveries := update_where p f (vk_deliveries (db w))\<rparr>)"
    and "uuids w' = uuids w" "drawn w \<le> drawn w'" "committed w' = committed w"
    and "db w' = (db w)\<lparr>vk_deliveries := update_where p f (vk_deliveries (db w))\<rparr>"
  shows "store_ok w'"
  using assms by (auto simp: store_ok_def ids_of_update_deliveries intro: fresh_supply_rows)

text \<open>The identifiers still to be drawn.\<close>

definition uuids_left :: "'x world_scheme \<Rightarrow> nat" where
  "uuids_left w = uuid_limit - drawn w"

lemma claim_sent_contract:
  fixes w :: "'x world_scheme"
  assumes "store_ok w" "is_sent (ledger_of (vk_deliveries (db w)) (e, u))"
  shows "wp (VkNotificationDeliveryRepository_claim_attempt e u p)
    (\<lambda>r w'. r = None \<and> store_ok w' \<and> ledger_of (vk_deliveries (db w')) = ledger_of (vk_deliveries (db w)) \<and>
       beside_deliveries w' = beside_deliveries w \<and> uuids_left w' = uuids_left w) (\<lambda>x w'. False) w"
proof -
  obtain r where r: "find (same_recipient e u) (vk_deliveries (db w)) = Some r" "dl_status r = STATUS_SENT"
    using assms(2) by (auto simp: is_sent_ledger split: option.splits)
  have "store_ok (locked e u w)"
    using assms(1) by (auto simp: store_ok_def locked_def intro: fresh_supply_same)
  then show ?thesis using assms(1) r
    by (simp add: wp_def claim_sent_run store_ok_def beside_deliveries_def locked_def uuids_left_def)
qed

lemma claim_open_contract:
  fixes w :: "'x world_scheme"
  assumes "store_ok w" "\<not> is_sent (ledger_of (vk_deliveries (db w)) (e, u))" "0 < uuids_left w"
  shows "wp (VkNotificationDeliveryRepository_claim_attempt e u p)
    (\<lambda>r w'. r \<noteq> None \<and> store_ok w' \<and> beside_deliveries w' = beside_deliveries w \<and>
       uuids_left w \<le> Suc (uuids_left w') \<and>
       ledger_of (vk_deliveries (db w')) = (ledger_of (vk_deliveries (db w)))
         ((e, u) \<mapsto> (STATUS_PENDING, attempts_of (ledger_of (vk_deliveries (db w)) (e, u)) + 1)))
    (\<lambda>x w'. store_ok w' \<and> beside_deliveries w' = beside_deliveries w \<and>
       \<not> claimable (ledger_of (vk_deliveries (db w))) e u p \<and> \<not> isinstance x VkDeliveryRetryableError) w"
proof -
  have refused: "store_ok (locked e u w\<lparr>drawn := Suc (drawn w), tick := tick w + 2\<rparr>)"
    using assms(1) by (auto simp: store_ok_def locked_def intro: fresh_supply_same)
  show ?thesis
proof (cases "find (same_recipient e u) (vk_deliveries (db w))")
  case None
  have ok: "db_ok (db w)" "fresh_supply w" "room 1 w"
    using assms(1,3) by (simp_all add: store_ok_def room_def uuids_left_def)
  let ?row = "new_delivery (uuids w (drawn w)) e u p (db_now w (Suc (tick w))) (clock w (tick w))"
  let ?w = "locked e u w\<lparr>drawn := Suc (drawn w), tick := tick w + 2, db := (db w)\<lparr>vk_deliveries := vk_deliveries (db w) @ [?row]\<rparr>\<rparr>"
  have led: "ledger_of (vk_deliveries (db w) @ [?row]) =
      (ledger_of (vk_deliveries (db w)))((e, u) \<mapsto> (STATUS_PENDING, 1))"
    using ledger_of_append [of ?row "vk_deliveries (db w)"] None by (simp add: ledger_fields)
  have att: "attempts_of (ledger_of (vk_deliveries (db w)) (e, u)) = 0" using None by (simp add: ledger_of_def)
  have ids: "ids_of (db ?w) \<subseteq> ids_of (db w) \<union> uuids w ` {drawn w..<drawn ?w}"
    by (auto simp: ids_of_def ledger_fields)
  have "fresh_supply ?w"
    by (rule fresh_supply_rows [OF ok(2) _ _ _ ids]) (simp_all add: locked_def)
  then have "fits_bigint p \<Longrightarrow> store_ok ?w"
    using assms(1) claim_first_run(2) [OF ok None] by (simp add: store_ok_def locked_def)
  then show ?thesis
    using claim_first_run(1) [OF ok None, of p] led att refused
    by (auto simp: wp_def Let_def claimable_def beside_deliveries_def locked_def uuids_left_def)
next
  case (Some r)
  have ok: "db_ok (db w)" using assms(1) by (simp add: store_ok_def)
  have op: "dl_status r \<noteq> STATUS_SENT" using assms(2) Some by (simp add: is_sent_ledger)
  let ?f = "claimed_again p (clock w (tick w))"
  let ?rows = "update_where (same_recipient e u) ?f (vk_deliveries (db w))"
  let ?w = "locked e u w\<lparr>drawn := Suc (drawn w), tick := tick w + 2, db := (db w)\<lparr>vk_deliveries := ?rows\<rparr>\<rparr>"
  have led: "ledger_of ?rows = (ledger_of (vk_deliveries (db w)))((e, u) \<mapsto> (STATUS_PENDING, dl_attempts r + 1))"
    using ledger_of_update [of ?f e u "vk_deliveries (db w)" r] Some by (simp add: ledger_fields)
  have att: "attempts_of (ledger_of (vk_deliveries (db w)) (e, u)) = dl_attempts r"
    using Some by (simp add: ledger_of_def)
  have "store_ok ?w" if "fits_bigint p" "fits_integer (dl_attempts r + 1)"
    by (rule store_ok_update [OF assms(1), where f = ?f and p = "same_recipient e u"])
      (use claim_again_run(2) [OF ok Some op that] in \<open>simp_all add: ledger_fields locked_def\<close>)
  then show ?thesis
    using claim_again_run(1) [OF ok Some op, of p] led att refused
    by (auto simp: wp_def Let_def claimable_def beside_deliveries_def locked_def uuids_left_def)
qed
qed

lemma mark_contract:
  fixes w :: "'x world_scheme"
  assumes "store_ok w" "ledger_of (vk_deliveries (db w)) (e, u) = Some (s, n)"
    and run: "\<And>r. find (same_recipient e u) (vk_deliveries (db w)) = Some r \<Longrightarrow> m w = (Inr (f r),
       w\<lparr>tick := Suc (tick w),
         db := (db w)\<lparr>vk_deliveries := update_where (same_recipient e u) f (vk_deliveries (db w))\<rparr>\<rparr>)"
    and db': "db_ok ((db w)\<lparr>vk_deliveries := update_where (same_recipient e u) f (vk_deliveries (db w))\<rparr>)"
    and f: "\<And>r. dl_id (f r) = dl_id r" "\<And>r. dl_event_uuid (f r) = dl_event_uuid r"
       "\<And>r. dl_user_id (f r) = dl_user_id r" "\<And>r. dl_status (f r) = s'" "\<And>r. dl_attempts (f r) = dl_attempts r"
  shows "wp m (\<lambda>r w'. store_ok w' \<and> beside_deliveries w' = beside_deliveries w \<and>
       uuids_left w' = uuids_left w \<and>
       ledger_of (vk_deliveries (db w')) = (ledger_of (vk_deliveries (db w)))((e, u) \<mapsto> (s', n)))
     (\<lambda>x w'. False) w"
proof -
  obtain r where r: "find (same_recipient e u) (vk_deliveries (db w)) = Some r" "dl_attempts r = n"
    using assms(2) by (auto simp: ledger_of_def)
  let ?rows = "update_where (same_recipient e u) f (vk_deliveries (db w))"
  let ?w = "w\<lparr>tick := Suc (tick w), db := (db w)\<lparr>vk_deliveries := ?rows\<rparr>\<rparr>"
  have "ledger_of ?rows = (ledger_of (vk_deliveries (db w)))((e, u) \<mapsto> (s', n))"
    using ledger_of_update [OF f(2,3) r(1)] r(2) f by simp
  moreover have "store_ok ?w"
    by (rule store_ok_update [OF assms(1), where f = f and p = "same_recipient e u"])
      (use db' f in simp_all)
  ultimately show ?thesis using run [OF r(1)] by (simp add: wp_def beside_deliveries_def uuids_left_def)
qed

interpretation sql_ledger: delivery_ledger
  SQLAlchemyVkNotificationDeliveryRepository "\<lambda>w. ledger_of (vk_deliveries (db w))" beside_deliveries store_ok
  uuids_left
proof (unfold_locales, goal_cases)
  case (1 w e u p)
  then show ?case using claim_sent_contract [of w e u p] by simp
next
  case (2 w e u p)
  then show ?case using claim_open_contract [of w e u p] by simp
next
  case (3 w e u s n)
  then have ok: "db_ok (db w)" by (simp add: store_ok_def)
  show ?case unfolding vk_delivery_repository_sel
    by (rule mark_contract [OF 3, where f = "sent_at (clock w (tick w))"])
      (simp_all add: mark_sent_run [OF ok] db_ok_sent_at [OF ok] ledger_fields)
next
  case (4 w e u s n c)
  then have ok: "db_ok (db w)" by (simp add: store_ok_def)
  show ?case unfolding vk_delivery_repository_sel
    by (rule mark_contract [OF 4, where f = "failed_at c (clock w (tick w))"])
      (simp_all add: mark_failed_run [OF ok] db_ok_failed_at [OF ok] ledger_fields)
qed

end
