(* ===== verification/Domain_Invariant.thy ===== *)
theory Domain_Invariant
  imports User_Vk_Repository Vk_Confirmation_Repository Vk_Delivery_Repository
begin

text \<open>
  The invariant of the stored data that the services keep and the database does not declare:

  \<^item> a live binding is \<open>PENDING\<close>, \<open>ACTIVE\<close> or \<open>BLOCKED\<close>, and it is \<open>PENDING\<close> exactly when no VK
    account is linked to it;
  \<^item> a binding has at most one code that can still be used;
  \<^item> a code that can still be used belongs to a live \<open>PENDING\<close> binding.

  For every write of the services a function gives the world it leaves behind (\<open>added_binding\<close>,
  \<open>invalidated\<close>, \<open>added_code\<close>, \<open>state_set\<close>, \<open>deleted\<close>, \<open>linked_used\<close>, \<open>append_log\<close>), with the
  lemma that the SQL operation runs to it and the lemma that it keeps the invariant.
\<close>

definition binding_ok :: "user_vk \<Rightarrow> bool" where
  "binding_ok r \<longleftrightarrow> uv_state r \<in> set ALLOWED_STATES \<and> (uv_state r = STATE_PENDING \<longleftrightarrow> uv_peer_id r = None)"

definition awaiting :: "user_vk list \<Rightarrow> uuid \<Rightarrow> bool" where
  "awaiting rows i \<longleftrightarrow> (\<exists>r \<in> set rows. uv_id r = i \<and> live r \<and> uv_state r = STATE_PENDING)"

definition bindings_ok :: "db \<Rightarrow> bool" where
  "bindings_ok d \<longleftrightarrow>
     (\<forall>r \<in> set (user_vks d). live r \<longrightarrow> binding_ok r) \<and>
     (\<forall>i. length (filter (unused_of i) (vk_confirmations d)) \<le> 1) \<and>
     (\<forall>c \<in> set (vk_confirmations d). cf_used_at c = None \<longrightarrow> awaiting (user_vks d) (cf_user_vk_id c))"

definition domain_ok :: "'x world_scheme \<Rightarrow> bool" where
  "domain_ok w \<longleftrightarrow>
     db_ok (db w) \<and> db_ok (committed w) \<and> fresh_supply w \<and> bindings_ok (db w) \<and> bindings_ok (committed w)"

lemma domain_okD:
  assumes "domain_ok w"
  shows "db_ok (db w)" "db_ok (committed w)" "fresh_supply w" "bindings_ok (db w)" "bindings_ok (committed w)"
    "store_ok w"
  using assms by (simp_all add: domain_ok_def store_ok_def)

lemma bindings_okD:
  assumes "bindings_ok d"
  shows "r \<in> set (user_vks d) \<Longrightarrow> live r \<Longrightarrow> binding_ok r"
    "length (filter (unused_of i) (vk_confirmations d)) \<le> 1"
    "c \<in> set (vk_confirmations d) \<Longrightarrow> cf_used_at c = None \<Longrightarrow> awaiting (user_vks d) (cf_user_vk_id c)"
  using assms by (auto simp: bindings_ok_def)

text \<open>A write of the session: the identifiers it adds are new ones.\<close>

lemma domain_ok_write:
  assumes "domain_ok w" "uuids w' = uuids w" "drawn w \<le> drawn w'" "committed w' = committed w"
    and "ids_of (db w') \<subseteq> ids_of (db w) \<union> uuids w ` {drawn w..<drawn w'}"
    and "db_ok (db w')" "bindings_ok (db w')"
  shows "domain_ok w'"
  using assms fresh_supply_rows [of w w'] by (simp add: domain_ok_def)

lemma domain_ok_read: "domain_ok w \<Longrightarrow> domain_ok (w\<lparr>tick := Suc (tick w)\<rparr>)"
  by (rule domain_ok_write) (auto simp: domain_ok_def)

lemma domain_ok_restart:
  assumes "domain_ok w"
  shows "domain_ok (w\<lparr>db := committed w, locks := ls\<rparr>)" "domain_ok (w\<lparr>committed := db w, locks := ls\<rparr>)"
  using assms by (auto simp: domain_ok_def intro: fresh_supply_same)

lemma domain_ok_irrelevant:
  assumes "domain_ok w" "db w' = db w" "committed w' = committed w" "uuids w' = uuids w" "drawn w \<le> drawn w'"
  shows "domain_ok w'"
  by (rule domain_ok_write) (use assms in \<open>auto simp: domain_ok_def\<close>)

lemma wp_Inr: "m w = (Inr x, w') \<Longrightarrow> wp m Q E w = Q x w'"
  by (simp add: wp_def)

lemma wp_Inl: "m w = (Inl e, w') \<Longrightarrow> wp m Q E w = E e w'"
  by (simp add: wp_def)

section \<open>Reads of the outside\<close>

definition later :: "nat \<Rightarrow> 'x world_scheme \<Rightarrow> 'x world_scheme" where
  "later n w = w\<lparr>tick := tick w + n\<rparr>"

lemma later_sel [simp]:
  "db (later n w) = db w" "committed (later n w) = committed w" "outbox (later n w) = outbox w"
  "clock (later n w) = clock w" "uuids (later n w) = uuids w" "tick (later n w) = tick w + n"
  "drawn (later n w) = drawn w"
  by (simp_all add: later_def)

lemma domain_ok_later: "domain_ok w \<Longrightarrow> domain_ok (later n w)"
  by (erule domain_ok_irrelevant) simp_all

section \<open>The journal\<close>

lemma domain_ok_append_log:
  assumes "domain_ok w" "log_fits a s" "room 2 w"
  shows "domain_ok (append_log a s d w)"
  using assms db_ok_append_log [of w a s d] fresh_supply_append_log [of w a s d]
  by (auto simp: domain_ok_def bindings_ok_def)

lemma wp_log_action:
  assumes "domain_ok w" "log_fits a s" "room 2 w" "\<And>r. Q r (append_log a s d w)"
  shows "wp (VkLogRepository_log_action a s (Some d)) Q E w"
  using log_action_run [of w a s "Some d"] assms by (auto simp: wp_def domain_ok_def)

section \<open>A new binding\<close>

definition fresh_binding :: "uuid \<Rightarrow> 'x world_scheme \<Rightarrow> user_vk" where
  "fresh_binding u w = new_binding (uuids w (drawn w)) u (clock w (tick w))"

definition added_binding :: "uuid \<Rightarrow> 'x world_scheme \<Rightarrow> 'x world_scheme" where
  "added_binding u w =
     w\<lparr>tick := Suc (tick w), drawn := Suc (drawn w), db := (db w)\<lparr>user_vks := user_vks (db w) @ [fresh_binding u w]\<rparr>\<rparr>"

lemma fresh_binding_fields [simp]:
  "uv_id (fresh_binding u w) = uuids w (drawn w)" "uv_user_id (fresh_binding u w) = u"
  "uv_peer_id (fresh_binding u w) = None" "uv_state (fresh_binding u w) = STATE_PENDING"
  "uv_deleted_at (fresh_binding u w) = None" "owned_by u (fresh_binding u w)"
  by (simp_all add: fresh_binding_def new_binding_def owned_by_def)

lemma added_binding_sel [simp]:
  "user_vks (db (added_binding u w)) = user_vks (db w) @ [fresh_binding u w]"
  "vk_confirmations (db (added_binding u w)) = vk_confirmations (db w)"
  "vk_logs (db (added_binding u w)) = vk_logs (db w)"
  "vk_deliveries (db (added_binding u w)) = vk_deliveries (db w)"
  "committed (added_binding u w) = committed w" "outbox (added_binding u w) = outbox w"
  "clock (added_binding u w) = clock w" "uuids (added_binding u w) = uuids w"
  "random (added_binding u w) = random w" "tick (added_binding u w) = Suc (tick w)"
  "drawn (added_binding u w) = Suc (drawn w)"
  by (simp_all add: added_binding_def)

lemma create_fresh_run:
  assumes "domain_ok w" "room 1 w" "find (owned_by u) (user_vks (db w)) = None"
  shows "UserVkRepository_create u w = (Inr (fresh_binding u w), added_binding u w)"
  using create_run [OF domain_okD(1) [OF assms(1)], of u] assms fresh_id [OF domain_okD(3) [OF assms(1)], of 0]
  by (auto simp: Let_def fresh_binding_def added_binding_def ids_of_def)

lemma awaiting_append: "awaiting rows i \<Longrightarrow> awaiting (rows @ rs) i"
  by (auto simp: awaiting_def)

lemma domain_ok_added_binding:
  assumes "domain_ok w" "room 1 w" "find (owned_by u) (user_vks (db w)) = None"
  shows "domain_ok (added_binding u w)"
proof (rule domain_ok_write [OF assms(1)])
  have db: "db (added_binding u w) = (db w)\<lparr>user_vks := user_vks (db w) @
      [new_binding (uuids w (drawn w)) u (clock w (tick w))]\<rparr>"
    by (simp add: added_binding_def fresh_binding_def)
  have "uuids w (drawn w) \<notin> uv_id ` set (user_vks (db w))"
    using fresh_id [OF domain_okD(3) [OF assms(1)], of 0] assms(2) by (auto simp: ids_of_def)
  then show "db_ok (db (added_binding u w))"
    using constraints_ok_new_binding [OF domain_okD(1) [OF assms(1)]] columns_ok_new_binding [OF domain_okD(1) [OF assms(1)]] assms(3)
    unfolding db db_ok_def by simp
  show "bindings_ok (db (added_binding u w))"
    using domain_okD(4) [OF assms(1)]
    by (auto simp: bindings_ok_def binding_ok_def awaiting_append)
qed (auto simp: ids_of_def)

section \<open>Using codes up\<close>

definition invalidated :: "uuid \<Rightarrow> 'x world_scheme \<Rightarrow> 'x world_scheme" where
  "invalidated i w =
     w\<lparr>tick := Suc (tick w),
       db := (db w)\<lparr>vk_confirmations :=
         update_where (unused_of i) (with_used (clock w (tick w))) (vk_confirmations (db w))\<rparr>\<rparr>"

lemma invalidated_sel [simp]:
  "user_vks (db (invalidated i w)) = user_vks (db w)"
  "vk_confirmations (db (invalidated i w)) =
     update_where (unused_of i) (with_used (clock w (tick w))) (vk_confirmations (db w))"
  "vk_logs (db (invalidated i w)) = vk_logs (db w)"
  "vk_deliveries (db (invalidated i w)) = vk_deliveries (db w)"
  "committed (invalidated i w) = committed w" "outbox (invalidated i w) = outbox w"
  "clock (invalidated i w) = clock w" "uuids (invalidated i w) = uuids w"
  "random (invalidated i w) = random w" "tick (invalidated i w) = Suc (tick w)"
  "drawn (invalidated i w) = drawn w"
  by (simp_all add: invalidated_def)

lemma with_used_fields [simp]:
  "cf_id (with_used t c) = cf_id c" "cf_code (with_used t c) = cf_code c"
  "cf_user_vk_id (with_used t c) = cf_user_vk_id c" "cf_used_at (with_used t c) = Some t"
  "cf_expires_at (with_used t c) = cf_expires_at c" "\<not> unused_of i (with_used t c)"
  by (simp_all add: with_used_def unused_of_def)

lemma filter_unused_update:
  "filter (unused_of j) (update_where p (with_used t) cs) = filter (\<lambda>c. unused_of j c \<and> \<not> p c) cs"
  by (induction cs) (auto simp: update_where_def)

lemma bindings_ok_used:
  assumes "bindings_ok d"
  shows "bindings_ok (d\<lparr>vk_confirmations := update_where p (with_used t) (vk_confirmations d)\<rparr>)"
proof -
  have "length (filter (\<lambda>c. unused_of i c \<and> \<not> p c) (vk_confirmations d)) \<le>
      length (filter (unused_of i) (vk_confirmations d))" for i
    using length_filter_le [of "\<lambda>c. \<not> p c" "filter (unused_of i) (vk_confirmations d)"] by simp
  then have "length (filter (\<lambda>c. unused_of i c \<and> \<not> p c) (vk_confirmations d)) \<le> 1" for i
    using bindings_okD(2) [OF assms, of i] le_trans by blast
  then show ?thesis using assms
    by (auto simp: bindings_ok_def filter_unused_update set_update_where)
qed

lemma ids_of_used:
  "ids_of (d\<lparr>vk_confirmations := update_where p (with_used t) (vk_confirmations d)\<rparr>) = ids_of d"
proof -
  have "set (map cf_id (update_where p (with_used t) (vk_confirmations d))) = set (map cf_id (vk_confirmations d))"
    by (simp only: map_update_where [of cf_id "with_used t", OF with_used_fields(1)])
  then show ?thesis by (simp add: ids_of_def)
qed

lemma domain_ok_invalidated: "domain_ok w \<Longrightarrow> domain_ok (invalidated i w)"
  by (rule domain_ok_write)
    (auto simp: domain_ok_def invalidated_def bindings_ok_used db_ok_set_used ids_of_used)

lemma invalidate_run:
  assumes "domain_ok w"
  shows "VkConfirmationRepository_invalidate_previous i w =
    (Inr (int (length (filter (unused_of i) (vk_confirmations (db w))))), invalidated i w)"
  using invalidate_previous_run [OF domain_okD(1) [OF assms]] by (simp add: invalidated_def)

lemma invalidated_none: "filter (unused_of i) (vk_confirmations (db (invalidated i w))) = []"
  by (simp add: filter_unused_update)

section \<open>A new code\<close>

definition fresh_code :: "uuid \<Rightarrow> pystr \<Rightarrow> datetime \<Rightarrow> 'x world_scheme \<Rightarrow> vk_confirmation" where
  "fresh_code i c e w = new_confirmation (uuids w (drawn w)) i c e (clock w (tick w))"

definition added_code :: "uuid \<Rightarrow> pystr \<Rightarrow> datetime \<Rightarrow> 'x world_scheme \<Rightarrow> 'x world_scheme" where
  "added_code i c e w =
     w\<lparr>tick := Suc (tick w), drawn := Suc (drawn w),
       db := (db w)\<lparr>vk_confirmations := vk_confirmations (db w) @ [fresh_code i c e w]\<rparr>\<rparr>"

lemma fresh_code_fields [simp]:
  "cf_id (fresh_code i c e w) = uuids w (drawn w)" "cf_user_vk_id (fresh_code i c e w) = i"
  "cf_code (fresh_code i c e w) = c" "cf_expires_at (fresh_code i c e w) = e"
  "cf_used_at (fresh_code i c e w) = None" "unused_of j (fresh_code i c e w) \<longleftrightarrow> i = j"
  by (auto simp: fresh_code_def new_confirmation_def unused_of_def)

lemma added_code_sel [simp]:
  "user_vks (db (added_code i c e w)) = user_vks (db w)"
  "vk_confirmations (db (added_code i c e w)) = vk_confirmations (db w) @ [fresh_code i c e w]"
  "vk_logs (db (added_code i c e w)) = vk_logs (db w)"
  "vk_deliveries (db (added_code i c e w)) = vk_deliveries (db w)"
  "committed (added_code i c e w) = committed w" "outbox (added_code i c e w) = outbox w"
  "clock (added_code i c e w) = clock w" "uuids (added_code i c e w) = uuids w"
  "random (added_code i c e w) = random w" "tick (added_code i c e w) = Suc (tick w)"
  "drawn (added_code i c e w) = Suc (drawn w)"
  by (simp_all add: added_code_def)

text \<open>What the insertion of a code needs.\<close>

definition code_admitted :: "uuid \<Rightarrow> pystr \<Rightarrow> db \<Rightarrow> bool" where
  "code_admitted i c d \<longleftrightarrow>
     fits_varchar 16 c \<and> c \<notin> cf_code ` set (vk_confirmations d) \<and> awaiting (user_vks d) i"

lemma add_code_run:
  assumes "domain_ok w" "room 1 w" "code_admitted i c (db w)"
  shows "VkConfirmationRepository_create i c e w = (Inr (fresh_code i c e w), added_code i c e w)"
  using confirmation_create_run [OF domain_okD(1) [OF assms(1)], of i c e] assms(2,3)
    fresh_id [OF domain_okD(3) [OF assms(1)], of 0]
  by (auto simp: code_admitted_def Let_def fresh_code_def added_code_def ids_of_def awaiting_def)

lemma add_code_misfit:
  assumes "domain_ok w" "\<not> fits_varchar 16 c"
  shows "VkConfirmationRepository_create i c e w =
    (Inl (Exn DataError (lit ''value out of range'')), w\<lparr>tick := Suc (tick w), drawn := Suc (drawn w)\<rparr>)"
  using confirmation_create_run [OF domain_okD(1) [OF assms(1)], of i c e] assms(2) by (simp add: Let_def)

lemma domain_ok_added_code:
  assumes "domain_ok w" "room 1 w" "code_admitted i c (db w)" "filter (unused_of i) (vk_confirmations (db w)) = []"
  shows "domain_ok (added_code i c e w)"
proof (rule domain_ok_write [OF assms(1)])
  have "uuids w (drawn w) \<notin> cf_id ` set (vk_confirmations (db w))"
    using fresh_id [OF domain_okD(3) [OF assms(1)], of 0] assms(2) by (auto simp: ids_of_def)
  then show "db_ok (db (added_code i c e w))"
    using domain_okD(1) [OF assms(1)] assms(3)
    by (auto simp: db_ok_def constraints_ok_def columns_ok_def vk_confirmations_ok_def code_admitted_def
        vk_confirmation_fits_def awaiting_def)
  show "bindings_ok (db (added_code i c e w))"
    using domain_okD(4) [OF assms(1)] assms(3,4)
    by (auto simp: bindings_ok_def code_admitted_def)
qed (auto simp: ids_of_def)

section \<open>Changing a binding\<close>

abbreviation live_row :: "uuid \<Rightarrow> user_vk \<Rightarrow> bool" where
  "live_row i r \<equiv> uv_id r = i \<and> live r"

definition state_set :: "uuid \<Rightarrow> pystr \<Rightarrow> 'x world_scheme \<Rightarrow> 'x world_scheme" where
  "state_set i s w =
     w\<lparr>tick := Suc (tick w),
       db := (db w)\<lparr>user_vks := update_where (live_row i) (with_state s (clock w (tick w))) (user_vks (db w))\<rparr>\<rparr>"

definition deleted :: "uuid \<Rightarrow> 'x world_scheme \<Rightarrow> 'x world_scheme" where
  "deleted u w =
     w\<lparr>tick := Suc (tick w),
       db := (db w)\<lparr>user_vks := update_where (owned_by u) (with_deleted (clock w (tick w))) (user_vks (db w))\<rparr>\<rparr>"

lemma state_set_sel [simp]:
  "user_vks (db (state_set i s w)) = update_where (live_row i) (with_state s (clock w (tick w))) (user_vks (db w))"
  "vk_confirmations (db (state_set i s w)) = vk_confirmations (db w)"
  "vk_logs (db (state_set i s w)) = vk_logs (db w)"
  "vk_deliveries (db (state_set i s w)) = vk_deliveries (db w)"
  "committed (state_set i s w) = committed w" "outbox (state_set i s w) = outbox w"
  "clock (state_set i s w) = clock w" "uuids (state_set i s w) = uuids w"
  "random (state_set i s w) = random w" "tick (state_set i s w) = Suc (tick w)"
  "drawn (state_set i s w) = drawn w"
  by (simp_all add: state_set_def)

lemma deleted_sel [simp]:
  "user_vks (db (deleted u w)) = update_where (owned_by u) (with_deleted (clock w (tick w))) (user_vks (db w))"
  "vk_confirmations (db (deleted u w)) = vk_confirmations (db w)"
  "vk_logs (db (deleted u w)) = vk_logs (db w)"
  "vk_deliveries (db (deleted u w)) = vk_deliveries (db w)"
  "committed (deleted u w) = committed w" "outbox (deleted u w) = outbox w"
  "clock (deleted u w) = clock w" "uuids (deleted u w) = uuids w"
  "random (deleted u w) = random w" "tick (deleted u w) = Suc (tick w)"
  "drawn (deleted u w) = drawn w"
  by (simp_all add: deleted_def)

lemma row_fields [simp]:
  "uv_id (with_state s t r) = uv_id r" "uv_user_id (with_state s t r) = uv_user_id r"
  "uv_peer_id (with_state s t r) = uv_peer_id r" "uv_state (with_state s t r) = s"
  "uv_deleted_at (with_state s t r) = uv_deleted_at r"
  "uv_id (with_deleted t r) = uv_id r" "uv_user_id (with_deleted t r) = uv_user_id r"
  "uv_peer_id (with_deleted t r) = uv_peer_id r" "uv_state (with_deleted t r) = uv_state r"
  "uv_deleted_at (with_deleted t r) = Some t"
  "uv_id (activated p sn dn t r) = uv_id r" "uv_user_id (activated p sn dn t r) = uv_user_id r"
  "uv_peer_id (activated p sn dn t r) = Some p" "uv_state (activated p sn dn t r) = STATE_ACTIVE"
  "uv_deleted_at (activated p sn dn t r) = uv_deleted_at r"
  "uv_screen_name (activated p sn dn t r) = sn" "uv_display_name (activated p sn dn t r) = dn"
  by (simp_all add: with_state_def with_deleted_def activated_def)

lemma state_set_run:
  assumes "domain_ok w" "s \<in> set ALLOWED_STATES"
  shows "UserVkRepository_set_state i s w =
    (Inr (map_option (with_state s (clock w (tick w))) (find (live_row i) (user_vks (db w)))), state_set i s w)"
  using set_state_run [OF domain_okD(1) [OF assms(1)] assms(2)] by (simp add: state_set_def)

lemma deleted_run:
  assumes "domain_ok w"
  shows "UserVkRepository_soft_delete u w =
    (Inr (\<exists>r \<in> set (user_vks (db w)). owned_by u r), deleted u w)"
  using soft_delete_run [OF domain_okD(1) [OF assms]] by (simp add: deleted_def)

text \<open>Rows that were not awaiting a code may change freely without disturbing the usable codes.\<close>

lemma awaiting_update:
  assumes "awaiting rows i" "\<And>r. r \<in> set rows \<Longrightarrow> p r \<Longrightarrow> uv_id r = i \<Longrightarrow> \<not> (live r \<and> uv_state r = STATE_PENDING)"
  shows "awaiting (update_where p f rows) i"
proof -
  obtain r where r: "r \<in> set rows" "uv_id r = i" "live r" "uv_state r = STATE_PENDING"
    using assms(1) by (auto simp: awaiting_def)
  then have "\<not> p r" using assms(2) by blast
  then have "r \<in> set (update_where p f rows)" using r(1) by (simp add: set_update_where)
  then show ?thesis using r by (auto simp: awaiting_def)
qed

lemma bindings_ok_update_user_vks:
  assumes "bindings_ok d"
    and "\<And>r. r \<in> set (user_vks d) \<Longrightarrow> p r \<Longrightarrow> live (f r) \<Longrightarrow> binding_ok (f r)"
    and "\<And>c r. c \<in> set (vk_confirmations d) \<Longrightarrow> cf_used_at c = None \<Longrightarrow> r \<in> set (user_vks d) \<Longrightarrow> p r \<Longrightarrow>
           uv_id r = cf_user_vk_id c \<Longrightarrow> \<not> (live r \<and> uv_state r = STATE_PENDING)"
  shows "bindings_ok (d\<lparr>user_vks := update_where p f (user_vks d)\<rparr>)"
  unfolding bindings_ok_def
proof (intro conjI ballI allI impI, goal_cases)
  case (1 r)
  then show ?case using bindings_okD(1) [OF assms(1)] assms(2) by (auto simp: set_update_where)
next
  case (2 i)
  then show ?case using bindings_okD(2) [OF assms(1)] by simp
next
  case (3 c)
  then have c: "c \<in> set (vk_confirmations d)" "cf_used_at c = None" by simp_all
  have "awaiting (update_where p f (user_vks d)) (cf_user_vk_id c)"
    by (rule awaiting_update [OF bindings_okD(3) [OF assms(1) c]]) (rule assms(3) [OF c])
  then show ?case by simp
qed

lemma domain_ok_state_set:
  assumes ok: "domain_ok w" and s: "s = STATE_ACTIVE \<or> s = STATE_BLOCKED"
    and linked: "\<And>r. r \<in> set (user_vks (db w)) \<Longrightarrow> live_row i r \<Longrightarrow> uv_peer_id r \<noteq> None"
  shows "domain_ok (state_set i s w)"
proof (rule domain_ok_write [OF ok])
  let ?f = "with_state s (clock w (tick w))"
  have db: "db (state_set i s w) = (db w)\<lparr>user_vks := update_where (live_row i) ?f (user_vks (db w))\<rparr>"
    by (simp add: state_set_def)
  have "s \<in> set ALLOWED_STATES" using s by auto
  then have "fits_varchar 16 s" by (auto simp: ALLOWED_STATES_def)
  then show "db_ok (db (state_set i s w))"
    unfolding db using domain_okD(1) [OF ok]
    by (intro db_ok_update_user_vks) (auto simp: user_vk_fits_def with_state_def)
  have pend: "\<not> (live r \<and> uv_state r = STATE_PENDING)" if "r \<in> set (user_vks (db w))" "live_row i r" for r
    using bindings_okD(1) [OF domain_okD(4) [OF ok] that(1)] linked [OF that] that by (simp add: binding_ok_def)
  show "bindings_ok (db (state_set i s w))"
    unfolding db using domain_okD(4) [OF ok]
    by (rule bindings_ok_update_user_vks)
      (use s linked pend in \<open>force simp: binding_ok_def\<close>)+
  show "ids_of (db (state_set i s w)) \<subseteq> ids_of (db w) \<union> uuids w ` {drawn w..<drawn (state_set i s w)}"
    unfolding db using ids_of_update_user_vks [of ?f] by auto
qed simp_all

lemma domain_ok_deleted:
  assumes ok: "domain_ok w"
    and free: "\<And>r. r \<in> set (user_vks (db w)) \<Longrightarrow> owned_by u r \<Longrightarrow>
           filter (unused_of (uv_id r)) (vk_confirmations (db w)) = []"
  shows "domain_ok (deleted u w)"
proof (rule domain_ok_write [OF ok])
  let ?f = "with_deleted (clock w (tick w))"
  have db: "db (deleted u w) = (db w)\<lparr>user_vks := update_where (owned_by u) ?f (user_vks (db w))\<rparr>"
    by (simp add: deleted_def)
  show "db_ok (db (deleted u w))"
    unfolding db using domain_okD(1) [OF ok]
    by (intro db_ok_update_user_vks) (auto simp: user_vk_fits_def with_deleted_def)
  show "bindings_ok (db (deleted u w))"
    unfolding db using domain_okD(4) [OF ok]
    by (rule bindings_ok_update_user_vks)
      (use free in \<open>force simp: filter_empty_conv unused_of_def\<close>)+
  show "ids_of (db (deleted u w)) \<subseteq> ids_of (db w) \<union> uuids w ` {drawn w..<drawn (deleted u w)}"
    unfolding db using ids_of_update_user_vks [of ?f] by auto
qed simp_all

section \<open>Linking an account\<close>

definition linked :: "uuid \<Rightarrow> int \<Rightarrow> pystr option \<Rightarrow> pystr option \<Rightarrow> 'x world_scheme \<Rightarrow> 'x world_scheme" where
  "linked i p sn dn w =
     w\<lparr>tick := Suc (tick w),
       db := (db w)\<lparr>user_vks :=
         update_where (live_row i) (activated p sn dn (clock w (tick w))) (user_vks (db w))\<rparr>\<rparr>"

definition marked_used :: "uuid \<Rightarrow> 'x world_scheme \<Rightarrow> 'x world_scheme" where
  "marked_used i w =
     w\<lparr>tick := Suc (tick w),
       db := (db w)\<lparr>vk_confirmations :=
         update_where (\<lambda>r. cf_id r = i) (with_used (clock w (tick w))) (vk_confirmations (db w))\<rparr>\<rparr>"

lemma linked_sel [simp]:
  "user_vks (db (linked i p sn dn w)) =
     update_where (live_row i) (activated p sn dn (clock w (tick w))) (user_vks (db w))"
  "vk_confirmations (db (linked i p sn dn w)) = vk_confirmations (db w)"
  "vk_logs (db (linked i p sn dn w)) = vk_logs (db w)"
  "vk_deliveries (db (linked i p sn dn w)) = vk_deliveries (db w)"
  "committed (linked i p sn dn w) = committed w" "outbox (linked i p sn dn w) = outbox w"
  "clock (linked i p sn dn w) = clock w" "uuids (linked i p sn dn w) = uuids w"
  "random (linked i p sn dn w) = random w" "tick (linked i p sn dn w) = Suc (tick w)"
  "drawn (linked i p sn dn w) = drawn w"
  by (simp_all add: linked_def)

lemma marked_used_sel [simp]:
  "user_vks (db (marked_used i w)) = user_vks (db w)"
  "vk_confirmations (db (marked_used i w)) =
     update_where (\<lambda>r. cf_id r = i) (with_used (clock w (tick w))) (vk_confirmations (db w))"
  "vk_logs (db (marked_used i w)) = vk_logs (db w)"
  "vk_deliveries (db (marked_used i w)) = vk_deliveries (db w)"
  "committed (marked_used i w) = committed w" "outbox (marked_used i w) = outbox w"
  "clock (marked_used i w) = clock w" "uuids (marked_used i w) = uuids w"
  "random (marked_used i w) = random w" "tick (marked_used i w) = Suc (tick w)"
  "drawn (marked_used i w) = drawn w"
  by (simp_all add: marked_used_def)

text \<open>Row \<open>i\<close> exists and no other live row holds the account.\<close>

definition linkable :: "uuid \<Rightarrow> int \<Rightarrow> db \<Rightarrow> bool" where
  "linkable i p d \<longleftrightarrow>
     (\<exists>r. find (live_row i) (user_vks d) = Some r) \<and>
     (\<forall>x \<in> set (user_vks d). linked_to p x \<longrightarrow> uv_id x = i)"

lemma db_ok_linked:
  assumes ok: "db_ok (db w)" and l: "linkable i p (db w)" "fits_bigint p" "names_fit sn dn"
  shows "db_ok (db (linked i p sn dn w))"
proof -
  obtain r where "find (live_row i) (user_vks (db w)) = Some r" using l(1) by (auto simp: linkable_def)
  then have r: "r \<in> set (user_vks (db w))" "uv_id r = i" "live r" by (auto simp: find_Some_iff)
  show ?thesis
    using constraints_ok_activated [OF ok r] columns_ok_activated [OF ok r l(2)] l
    by (simp add: db_ok_def linked_def linkable_def)
qed

lemma linked_run:
  assumes "domain_ok w" "linkable i p (db w)" "fits_bigint p" "names_fit sn dn"
  shows "\<exists>r. UserVkRepository_activate i p sn dn w = (Inr r, linked i p sn dn w)"
  using assms activate_ok [OF domain_okD(1) [OF assms(1)], of i _ p sn dn]
  by (auto simp: linkable_def linked_def)

lemma marked_used_run:
  "db_ok (db w) \<Longrightarrow> VkConfirmationRepository_mark_used i w = (Inr (), marked_used i w)"
  by (simp add: mark_used_run marked_used_def)

text \<open>The code that can still be used is the only one of its binding.\<close>

lemma only_unused:
  assumes "bindings_ok d" "c \<in> set (vk_confirmations d)" "cf_used_at c = None"
    "c' \<in> set (vk_confirmations d)" "unused_of (cf_user_vk_id c) c'"
  shows "c' = c"
proof -
  let ?l = "filter (unused_of (cf_user_vk_id c)) (vk_confirmations d)"
  have "c \<in> set ?l" "c' \<in> set ?l" using assms by (simp_all add: unused_of_def)
  moreover have "length ?l \<le> 1" using bindings_okD(2) [OF assms(1)] .
  moreover have "x = y" if "length l \<le> 1" "x \<in> set l" "y \<in> set l" for l and x y :: vk_confirmation
    using that by (cases l) auto
  ultimately show ?thesis by blast
qed

lemma awaiting_find:
  assumes "db_ok d" "awaiting (user_vks d) i"
  shows "\<exists>r. find (\<lambda>r. uv_id r = i) (user_vks d) = Some r \<and> find (live_row i) (user_vks d) = Some r \<and>
    live r \<and> uv_state r = STATE_PENDING"
proof -
  obtain r where r: "r \<in> set (user_vks d)" "uv_id r = i" "live r" "uv_state r = STATE_PENDING"
    using assms(2) by (auto simp: awaiting_def)
  have "filter (\<lambda>r. uv_id r = i) (user_vks d) = [r]"
    by (rule filter_unique [OF user_vks_unique(1) [OF assms(1)], of _ i]) (use r in auto)
  moreover have "filter (live_row i) (user_vks d) = [r]"
    by (rule filter_unique [OF user_vks_live_unique [OF assms(1)], of _ i]) (use r in auto)
  ultimately show ?thesis using r by (simp add: find_eq_filter)
qed

lemma domain_ok_linked_used:
  assumes ok: "domain_ok w" and l: "linkable i p (db w)" "fits_bigint p" "names_fit sn dn"
    and c: "c \<in> set (vk_confirmations (db w))" "cf_user_vk_id c = i" "cf_used_at c = None"
  shows "domain_ok (marked_used (cf_id c) (linked i p sn dn w))"
proof (rule domain_ok_write [OF ok])
  let ?f = "activated p sn dn (clock w (tick w))" and ?t = "clock w (Suc (tick w))"
  let ?d = "(db w)\<lparr>vk_confirmations := update_where (\<lambda>r. cf_id r = cf_id c) (with_used ?t) (vk_confirmations (db w))\<rparr>"
  let ?w = "marked_used (cf_id c) (linked i p sn dn w)"
  have db: "db ?w = ?d\<lparr>user_vks := update_where (live_row i) ?f (user_vks ?d)\<rparr>"
    by (simp add: marked_used_def linked_def)
  show "db_ok (db ?w)"
    using db_ok_set_used [OF db_ok_linked [OF domain_okD(1) [OF ok] l]] by (simp add: marked_used_def)
  have B: "bindings_ok ?d" by (rule bindings_ok_used [OF domain_okD(4) [OF ok]])
  have used: "cf_user_vk_id x \<noteq> i" if x: "x \<in> set (vk_confirmations ?d)" "cf_used_at x = None" for x
  proof
    assume i: "cf_user_vk_id x = i"
    have "x \<in> set (vk_confirmations (db w))" "cf_id x \<noteq> cf_id c"
      using x by (auto simp: set_update_where)
    then show False
      using only_unused [OF domain_okD(4) [OF ok] c(1) c(3), of x] i x(2) c(2) by (auto simp: unused_of_def)
  qed
  show "bindings_ok (db ?w)"
    unfolding db
    by (rule bindings_ok_update_user_vks [OF B]) (use used in \<open>auto simp: binding_ok_def\<close>)
  have "ids_of (db ?w) = ids_of (db w)"
    unfolding db using ids_of_update_user_vks [of ?f "live_row i" ?d] ids_of_used by simp
  then show "ids_of (db ?w) \<subseteq> ids_of (db w) \<union> uuids w ` {drawn w..<drawn ?w}" by simp
qed simp_all

section \<open>The operations as conditions on the world before\<close>

named_theorems sql_wp \<open>weakest preconditions of the operations under the invariant\<close>

lemma wp_get_by_id [sql_wp]:
  "domain_ok w \<Longrightarrow> wp (UserVkRepository_get_by_id i) Q E w = Q (find (\<lambda>r. uv_id r = i) (user_vks (db w))) w"
  by (rule wp_Inr) (rule get_by_id_run [OF domain_okD(1)])

lemma wp_get_by_user_id [sql_wp]:
  "domain_ok w \<Longrightarrow> wp (UserVkRepository_get_by_user_id u) Q E w = Q (find (owned_by u) (user_vks (db w))) w"
  by (rule wp_Inr) (rule get_by_user_id_run [OF domain_okD(1)])

lemma wp_get_by_peer_id [sql_wp]:
  "domain_ok w \<Longrightarrow> fits_bigint p \<Longrightarrow>
    wp (UserVkRepository_get_by_peer_id p) Q E w = Q (find (linked_to p) (user_vks (db w))) w"
  by (rule wp_Inr) (rule get_by_peer_id_run [OF domain_okD(1)])

lemma wp_get_by_code [sql_wp]:
  "domain_ok w \<Longrightarrow> wp (VkConfirmationRepository_get_by_code c) Q E w =
     Q (find (\<lambda>r. cf_code r = c) (vk_confirmations (db w))) w"
  by (rule wp_Inr) (rule get_by_code_run [OF domain_okD(1)])

lemma wp_create_fresh [sql_wp]:
  "domain_ok w \<Longrightarrow> room 1 w \<Longrightarrow> find (owned_by u) (user_vks (db w)) = None \<Longrightarrow>
    wp (UserVkRepository_create u) Q E w = Q (fresh_binding u w) (added_binding u w)"
  by (rule wp_Inr) (rule create_fresh_run)

lemma wp_invalidate [sql_wp]:
  "domain_ok w \<Longrightarrow> wp (VkConfirmationRepository_invalidate_previous i) Q E w =
     Q (int (length (filter (unused_of i) (vk_confirmations (db w))))) (invalidated i w)"
  by (rule wp_Inr) (rule invalidate_run)

lemma wp_add_code [sql_wp]:
  "domain_ok w \<Longrightarrow> room 1 w \<Longrightarrow> code_admitted i c (db w) \<Longrightarrow>
    wp (VkConfirmationRepository_create i c e) Q E w = Q (fresh_code i c e w) (added_code i c e w)"
  by (rule wp_Inr) (rule add_code_run)

lemma wp_add_code_misfit:
  "domain_ok w \<Longrightarrow> \<not> fits_varchar 16 c \<Longrightarrow>
    wp (VkConfirmationRepository_create i c e) Q E w =
      E (Exn DataError (lit ''value out of range'')) (w\<lparr>tick := Suc (tick w), drawn := Suc (drawn w)\<rparr>)"
  by (rule wp_Inl) (rule add_code_misfit)

lemma wp_state_set [sql_wp]:
  "domain_ok w \<Longrightarrow> s \<in> set ALLOWED_STATES \<Longrightarrow> wp (UserVkRepository_set_state i s) Q E w =
     Q (map_option (with_state s (clock w (tick w))) (find (live_row i) (user_vks (db w)))) (state_set i s w)"
  by (rule wp_Inr) (rule state_set_run)

lemma wp_deleted [sql_wp]:
  "domain_ok w \<Longrightarrow> wp (UserVkRepository_soft_delete u) Q E w =
     Q (\<exists>r \<in> set (user_vks (db w)). owned_by u r) (deleted u w)"
  by (rule wp_Inr) (rule deleted_run)

lemma wp_marked_used [sql_wp]:
  "db_ok (db w) \<Longrightarrow> wp (VkConfirmationRepository_mark_used i) Q E w = Q () (marked_used i w)"
  by (rule wp_Inr) (rule marked_used_run)

lemma wp_count_failed [sql_wp]:
  "wp (VkLogRepository_count_failed_since a p t ss) Q E w =
     Q (int (length (filter (\<lambda>r. lg_action r = a \<and> lg_status r \<in> set ss \<and> t \<le> lg_created_at r \<and>
            map_of (lg_details r) vk_peer_id_key = Some (str_int p)) (vk_logs (db w))))) w"
  by (simp add: VkLogRepository_count_failed_since_def)

end
