(* ===== verification/Vk_Client.thy ===== *)
theory Vk_Client
  imports Domain_Invariant
begin

text \<open>
  \<open>clients/vk/client.py\<close>: \<open>VkbottleMessenger\<close>, the messenger over the VK API.  The API itself
  (\<open>vkbottle\<close>) is outside: whether a call of \<open>messages.send\<close> returns or raises, and what
  \<open>users.get\<close> answers (\<open>None\<close> stands for an exception), are the functions \<open>vk_send_answer\<close> and
  \<open>vk_users_answer\<close> of the world.  An attribute that a user object lacks is \<open>None\<close>.
\<close>

definition RANDOM_ID_BOUND :: nat where
  "RANDOM_ID_BOUND = 2 ^ 31 - 1"

text \<open>\<open>await api.messages.send(...)\<close>: the call, recorded, and its answer.\<close>

definition messages_send :: "int \<Rightarrow> pystr \<Rightarrow> nat \<Rightarrow> ('x world_scheme, unit) prog" where
  "messages_send peer_id msg rid = (\<lambda>w.
     let r = vk_send_answer w (tick w) peer_id msg rid;
         call = \<lparr>vc_peer_id = peer_id, vc_message = msg, vc_random_id = rid, vc_returned = r\<rparr>;
         w' = w\<lparr>tick := Suc (tick w), outbox := outbox w @ [call]\<rparr>
     in (if r then Inr () else Inl (Exn VKAPIError (lit ''messages.send'')), w'))"

definition users_get :: "int \<Rightarrow> ('x world_scheme, vk_user list) prog" where
  "users_get peer_id = (\<lambda>w.
     (case vk_users_answer w (tick w) peer_id of
        None \<Rightarrow> Inl (Exn VKAPIError (lit ''users.get'')) | Some us \<Rightarrow> Inr us,
      w\<lparr>tick := Suc (tick w)\<rparr>))"

text \<open>\<open>random.randint(1, RANDOM_ID_BOUND)\<close>\<close>

definition random_id :: "('x world_scheme, nat) prog" where
  "random_id = bindM (choice_index RANDOM_ID_BOUND) (\<lambda>i. retM (1 + i))"

definition VkbottleMessenger_send_message :: "int \<Rightarrow> pystr \<Rightarrow> ('x world_scheme, bool) prog" where
  "VkbottleMessenger_send_message peer_id text =
     catchM
       (thenM (bindM random_id (messages_send peer_id text)) (retM True))
       [PyException] (\<lambda>_. retM False)"

definition or_empty :: "pystr option \<Rightarrow> pystr" where
  "or_empty x = (case x of None \<Rightarrow> [] | Some s \<Rightarrow> s)"

definition display_name_of :: "vk_user \<Rightarrow> pystr option" where
  "display_name_of user =
     (let first_name = py_strip (or_empty (vu_first_name user));
          last_name = py_strip (or_empty (vu_last_name user));
          joined = py_join (lit '' '') (filter (\<lambda>part. part \<noteq> []) [first_name, last_name])
      in if joined = [] then None else Some joined)"

definition VkbottleMessenger_get_profile :: "int \<Rightarrow> ('x world_scheme, vk_user_profile option) prog" where
  "VkbottleMessenger_get_profile peer_id =
     bindM (catchM (bindM (users_get peer_id) (\<lambda>us. retM (Some us))) [PyException] (\<lambda>_. retM None)) (\<lambda>users.
       case users of
         None \<Rightarrow> retM None
       | Some [] \<Rightarrow> retM None
       | Some (user # _) \<Rightarrow>
           retM (Some \<lparr>pf_peer_id = peer_id, pf_screen_name = vu_screen_name user,
                       pf_display_name = display_name_of user\<rparr>))"

definition VkbottleMessenger :: "('x world_scheme) vk_messenger" where
  "VkbottleMessenger =
     \<lparr>ms_send_message = VkbottleMessenger_send_message, ms_get_profile = VkbottleMessenger_get_profile\<rparr>"

lemma vkbottle_sel [simp]:
  "ms_send_message VkbottleMessenger = VkbottleMessenger_send_message"
  "ms_get_profile VkbottleMessenger = VkbottleMessenger_get_profile"
  by (simp_all add: VkbottleMessenger_def)

section \<open>The contract of a messenger\<close>

text \<open>Between two worlds nothing happened but reads of the outside and calls of the VK API.\<close>

definition only_messages :: "'x world_scheme \<Rightarrow> 'x world_scheme \<Rightarrow> bool" where
  "only_messages w w' \<longleftrightarrow>
     w'\<lparr>tick := 0, outbox := []\<rparr> = w\<lparr>tick := 0, outbox := []\<rparr> \<and> tick w \<le> tick w' \<and>
     (\<exists>calls. outbox w' = outbox w @ calls)"

lemma only_messages_refl: "only_messages w w"
  by (simp add: only_messages_def)

lemma only_messages_trans: "only_messages a b \<Longrightarrow> only_messages b c \<Longrightarrow> only_messages a c"
  by (auto simp: only_messages_def)

lemma only_messagesD:
  assumes "only_messages w w'"
  shows "db w' = db w" "committed w' = committed w" "uuids w' = uuids w" "clock w' = clock w"
    "drawn w' = drawn w" "\<exists>calls. outbox w' = outbox w @ calls"
proof -
  have e: "w'\<lparr>tick := 0, outbox := []\<rparr> = w\<lparr>tick := 0, outbox := []\<rparr>"
    and "\<exists>calls. outbox w' = outbox w @ calls"
    using assms by (simp_all add: only_messages_def)
  then show "\<exists>calls. outbox w' = outbox w @ calls" by simp
  note eq = arg_cong [OF e]
  from eq [of drawn] show "drawn w' = drawn w" by simp
  from eq [of db] show "db w' = db w" by simp
  from eq [of committed] show "committed w' = committed w" by simp
  from eq [of uuids] show "uuids w' = uuids w" by simp
  from eq [of clock] show "clock w' = clock w" by simp
qed

lemma domain_ok_messages: "domain_ok w \<Longrightarrow> only_messages w w' \<Longrightarrow> domain_ok w'"
  by (erule domain_ok_irrelevant) (simp_all add: only_messagesD)

text \<open>The calls of \<open>messages.send\<close> made between two worlds.\<close>

definition sent_between :: "'x world_scheme \<Rightarrow> 'x world_scheme \<Rightarrow> (int \<times> pystr) list \<Rightarrow> bool" where
  "sent_between w w' ms \<longleftrightarrow>
     (\<exists>calls. outbox w' = outbox w @ calls \<and> map (\<lambda>c. (vc_peer_id c, vc_message c)) calls = ms)"

definition messages_sent :: "'x world_scheme \<Rightarrow> (int \<times> pystr) list" where
  "messages_sent w = map (\<lambda>c. (vc_peer_id c, vc_message c)) (outbox w)"

text \<open>One call per message, with an identifier in the range the API admits.\<close>

lemma send_message_run:
  "\<exists>i. 1 \<le> i \<and> i \<le> RANDOM_ID_BOUND \<and>
     VkbottleMessenger_send_message p t w =
       (let r = vk_send_answer w (Suc (tick w)) p t i;
            call = \<lparr>vc_peer_id = p, vc_message = t, vc_random_id = i, vc_returned = r\<rparr>
        in (Inr r, w\<lparr>tick := Suc (Suc (tick w)), outbox := outbox w @ [call]\<rparr>))"
proof -
  let ?i = "Suc (random w (tick w) mod RANDOM_ID_BOUND)"
  have "?i \<le> RANDOM_ID_BOUND" using mod_less_divisor [of RANDOM_ID_BOUND "random w (tick w)"]
    by (simp add: RANDOM_ID_BOUND_def)
  then show ?thesis
    by (intro exI [of _ ?i])
      (auto simp: VkbottleMessenger_send_message_def random_id_def messages_send_def prog_simps Let_def)
qed

interpretation vkbottle: messenger VkbottleMessenger only_messages
proof (unfold_locales, goal_cases)
  case (1 p t w)
  show ?case using send_message_run [of p t w]
    by (auto simp: wp_def Let_def only_messages_def)
next
  case (2 p w)
  show ?case
    by (auto simp: VkbottleMessenger_get_profile_def users_get_def wp_def prog_simps only_messages_def
        split: option.split list.split)
qed

end
