(* ===== verification/Delivery_Service.thy ===== *)
theory Delivery_Service
  imports Vk_Client
begin

text \<open>
  \<open>core/services/vk_notification_delivery.py\<close>: \<open>VkNotificationDeliveryService\<close>, which sends one
  notification to every recipient with an \<open>ACTIVE\<close> binding, keeping the ledger, and
  \<open>core/schemas/messaging/notification_command_send_vk.py\<close>: the command it takes.

  What \<open>deliver\<close> does is proved in locale \<open>delivery_service\<close>, from the contracts of the ledger and of
  the messenger alone.
\<close>

section \<open>The command\<close>

record notification_command =
  cm_event_uuid :: uuid
  cm_callback_request_id :: uuid
  cm_user_ids :: "uuid list"
  cm_text :: pystr

text \<open>\<open>list(dict.fromkeys(value))\<close>: the first occurrence of each.\<close>

fun dedupe_from :: "'a list \<Rightarrow> 'a list \<Rightarrow> 'a list" where
  "dedupe_from seen [] = []"
| "dedupe_from seen (x # xs) =
     (if x \<in> set seen then dedupe_from seen xs else x # dedupe_from (x # seen) xs)"

definition deduplicate_user_ids :: "uuid list \<Rightarrow> uuid list" where
  "deduplicate_user_ids value = dedupe_from [] value"

definition validate_text :: "pystr \<Rightarrow> ('w, pystr) prog" where
  "validate_text value =
     (let stripped = py_strip value in
      if stripped = [] then raiseM ValueError (lit ''text must contain non-whitespace characters'')
      else retM stripped)"

text \<open>
  The fields of a parsed command: their declared lengths first, then their validators; pydantic
  reports any failure as one \<open>ValidationError\<close>.
\<close>

definition NotificationCommandSendVkData_validate ::
    "notification_command \<Rightarrow> ('w, notification_command) prog" where
  "NotificationCommandSendVkData_validate raw =
     catchM
       (if cm_user_ids raw = [] then raiseM ValueError (lit ''user_ids: at least 1 item'')
        else if cm_text raw = [] \<or> 4096 < length (cm_text raw)
        then raiseM ValueError (lit ''text: 1 to 4096 characters'')
        else bindM (validate_text (cm_text raw)) (\<lambda>text.
          retM (raw\<lparr>cm_user_ids := deduplicate_user_ids (cm_user_ids raw), cm_text := text\<rparr>)))
       [ValueError] (\<lambda>e. throwM (Exn ValidationError (message e)))"

lemma dedupe_from_props:
  "distinct (dedupe_from seen xs) \<and> set (dedupe_from seen xs) = set xs - set seen"
proof (induction xs arbitrary: seen)
  case (Cons x xs)
  show ?case using Cons.IH [of "x # seen"] Cons.IH [of seen] by auto
qed simp

text \<open>
  C39. A command is accepted exactly when it has a recipient and a text that is not blank and, as sent,
  white space included, of at most 4096 characters; every other is refused with \<open>ValidationError\<close>.
  An accepted command names each of its recipients once and no other, a recipient named twice being
  no error, has the text without the white space around it, and keeps the identities it came with.
\<close>

theorem command_validated:
  "wp (NotificationCommandSendVkData_validate raw)
     (\<lambda>c w'. w' = w \<and>
        cm_user_ids raw \<noteq> [] \<and> length (cm_text raw) \<le> 4096 \<and> py_strip (cm_text raw) \<noteq> [] \<and>
        distinct (cm_user_ids c) \<and> set (cm_user_ids c) = set (cm_user_ids raw) \<and>
        cm_user_ids c \<noteq> [] \<and> cm_text c = py_strip (cm_text raw) \<and> cm_text c \<noteq> [] \<and>
        length (cm_text c) \<le> 4096 \<and> \<not> py_isspace (hd (cm_text c)) \<and> \<not> py_isspace (last (cm_text c)) \<and>
        cm_event_uuid c = cm_event_uuid raw \<and> cm_callback_request_id c = cm_callback_request_id raw)
     (\<lambda>e w'. w' = w \<and> exn_class e = ValidationError \<and>
        (cm_user_ids raw = [] \<or> 4096 < length (cm_text raw) \<or> py_strip (cm_text raw) = [])) w"
proof -
  let ?t = "py_strip (cm_text raw)"
  have strip: "?t = rev (dropWhile py_isspace (rev (dropWhile py_isspace (cm_text raw))))"
    by (simp add: py_strip_def py_strip_chars_def py_rstrip_def py_lstrip_def)
  have len: "length ?t \<le> length (cm_text raw)"
    unfolding strip by (simp add: order_trans [OF length_dropWhile_le])
  note ends = py_strip_clean [of "cm_text raw"]
  have empty: "cm_text raw = [] \<Longrightarrow> ?t = []"
    by (simp add: py_strip_def py_strip_chars_def py_rstrip_def py_lstrip_def)
  have dd: "distinct (deduplicate_user_ids us)" "set (deduplicate_user_ids us) = set us" for us
    using dedupe_from_props [of "[]" us] by (simp_all add: deduplicate_user_ids_def)
  have ne: "deduplicate_user_ids us \<noteq> []" if "us \<noteq> []" for us
    using dd(2) [of us] that by (metis set_empty)
  show ?thesis
    using len ends empty dd ne
    by (auto simp: NotificationCommandSendVkData_validate_def validate_text_def Let_def)
qed

section \<open>The service\<close>

record 'w vk_notification_delivery_service =
  ds_bindings :: "'w user_vk_repository"
  ds_deliveries :: "'w vk_delivery_repository"
  ds_messenger :: "'w vk_messenger"

text \<open>The dictionary of the recipients that can be reached; a later row replaces an earlier one.\<close>

definition active_peers :: "user_vk list \<Rightarrow> uuid \<Rightarrow> int option" where
  "active_peers bindings =
     map_of (rev (map (\<lambda>b. (uv_user_id b, the (uv_peer_id b)))
       (filter (\<lambda>b. uv_deleted_at b = None \<and> uv_peer_id b \<noteq> None) bindings)))"

definition VK_API_SEND_FAILED :: pystr where
  "VK_API_SEND_FAILED = lit ''VK_API_SEND_FAILED''"

fun deliver_each ::
    "'w vk_notification_delivery_service \<Rightarrow> notification_command \<Rightarrow> (uuid \<Rightarrow> int option) \<Rightarrow> bool \<Rightarrow>
       uuid list \<Rightarrow> ('w, bool) prog" where
  "deliver_each S command active failed [] = retM failed"
| "deliver_each S command active failed (user_id # user_ids) =
     (case active user_id of
        None \<Rightarrow> deliver_each S command active failed user_ids
      | Some peer_id \<Rightarrow>
          bindM (dr_claim_attempt (ds_deliveries S) (cm_event_uuid command) user_id peer_id) (\<lambda>claimed.
            if claimed = None then deliver_each S command active failed user_ids
            else
              bindM (ms_send_message (ds_messenger S) peer_id (cm_text command)) (\<lambda>sent.
                if sent
                then thenM (dr_mark_sent (ds_deliveries S) (cm_event_uuid command) user_id)
                       (deliver_each S command active failed user_ids)
                else thenM
                       (dr_mark_failed (ds_deliveries S) (cm_event_uuid command) user_id VK_API_SEND_FAILED)
                       (deliver_each S command active True user_ids))))"

definition VkNotificationDeliveryService_deliver ::
    "'w vk_notification_delivery_service \<Rightarrow> notification_command \<Rightarrow> ('w, unit) prog" where
  "VkNotificationDeliveryService_deliver S command =
     bindM (ur_get_by_user_ids (ds_bindings S) (cm_user_ids command) (Some (lit ''ACTIVE''))) (\<lambda>bindings.
     bindM (deliver_each S command (active_peers bindings) False (cm_user_ids command)) (\<lambda>failed.
       if failed
       then raiseM VkDeliveryRetryableError (lit ''VK delivery has retryable recipient failures'')
       else retM ()))"

section \<open>What a delivery does to the ledger\<close>

text \<open>The recipients to write to: reachable and not yet \<open>SENT\<close>.\<close>

definition due :: "ledger \<Rightarrow> uuid \<Rightarrow> (uuid \<Rightarrow> int option) \<Rightarrow> uuid list \<Rightarrow> uuid list" where
  "due l e active us = filter (\<lambda>u. active u \<noteq> None \<and> \<not> is_sent (l (e, u))) us"

definition attempted :: "ledger \<Rightarrow> uuid \<Rightarrow> uuid \<Rightarrow> pystr \<Rightarrow> pystr \<times> int" where
  "attempted l e u s = (s, attempts_of (l (e, u)) + 1)"

definition processed :: "ledger \<Rightarrow> uuid \<Rightarrow> uuid list \<Rightarrow> uuid list \<Rightarrow> ledger \<Rightarrow> bool" where
  "processed l e us bad l' \<longleftrightarrow>
     set bad \<subseteq> set us \<and>
     (\<forall>u \<in> set us. l' (e, u) = Some (attempted l e u (if u \<in> set bad then STATUS_FAILED else STATUS_SENT))) \<and>
     (\<forall>k. k \<notin> Pair e ` set us \<longrightarrow> l' k = l k)"

lemma processed_Nil [simp]: "processed l e [] [] l"
  by (simp add: processed_def)

lemma processed_Cons:
  assumes "processed (l((e, u) \<mapsto> attempted l e u s)) e us bad l'" "u \<notin> set us"
    "s = (if b then STATUS_FAILED else STATUS_SENT)"
  shows "processed l e (u # us) (if b then u # bad else bad) l'"
proof -
  have bad: "u \<notin> set bad" using assms(1,2) by (auto simp: processed_def)
  have "(e, u) \<notin> Pair e ` set us" using assms(2) by auto
  then have mine: "l' (e, u) = Some (attempted l e u s)" using assms(1) by (simp add: processed_def)
  have "attempted (l((e, u) \<mapsto> attempted l e u s)) e v t = attempted l e v t" if "v \<in> set us" for v t
    using that assms(2) by (auto simp: attempted_def)
  then show ?thesis using assms bad mine unfolding processed_def by (cases b) (auto simp: image_iff)
qed

lemma due_update: "u \<notin> set us \<Longrightarrow> due (l((e, u) \<mapsto> x)) e active us = due l e active us"
  unfolding due_def by (rule filter_cong) auto

text \<open>The outcome of a pass over some recipients, and what may stop it.\<close>

definition passed ::
    "ledger \<Rightarrow> uuid \<Rightarrow> (uuid \<Rightarrow> int option) \<Rightarrow> uuid list \<Rightarrow> bool \<Rightarrow> bool \<Rightarrow> ledger \<Rightarrow> bool" where
  "passed l e active us failed r l' \<longleftrightarrow>
     (\<exists>bad. r = (failed \<or> bad \<noteq> []) \<and> processed l e (due l e active us) bad l')"

definition blocked :: "ledger \<Rightarrow> uuid \<Rightarrow> (uuid \<Rightarrow> int option) \<Rightarrow> uuid list \<Rightarrow> bool" where
  "blocked l e active us \<longleftrightarrow> (\<exists>u \<in> set (due l e active us). \<not> claimable l e u (the (active u)))"

definition addressed ::
    "ledger \<Rightarrow> uuid \<Rightarrow> (uuid \<Rightarrow> int option) \<Rightarrow> uuid list \<Rightarrow> pystr \<Rightarrow> (int \<times> pystr) list" where
  "addressed l e active us t = map (\<lambda>u. (the (active u), t)) (due l e active us)"

lemma pass_Nil: "passed l e active [] failed failed l" "addressed l e active [] t = []"
  by (auto simp: passed_def due_def addressed_def)

lemma pass_skip:
  assumes "active u = None \<or> is_sent (l (e, u))"
  shows "passed l e active (u # us) = passed l e active us" "blocked l e active (u # us) = blocked l e active us"
    "addressed l e active (u # us) t = addressed l e active us t"
proof -
  have "due l e active (u # us) = due l e active us" using assms by (auto simp: due_def)
  then show "passed l e active (u # us) = passed l e active us"
    "blocked l e active (u # us) = blocked l e active us"
    "addressed l e active (u # us) t = addressed l e active us t"
    by (simp_all add: passed_def blocked_def addressed_def fun_eq_iff)
qed

lemma due_step:
  "active u = Some p \<Longrightarrow> \<not> is_sent (l (e, u)) \<Longrightarrow> due l e active (u # us) = u # due l e active us"
  by (simp add: due_def)

lemma pass_step:
  assumes "active u = Some p" "\<not> is_sent (l (e, u))" "u \<notin> set us"
    "passed (l((e, u) \<mapsto> attempted l e u (if b then STATUS_FAILED else STATUS_SENT))) e active us (failed \<or> b) r l'"
  shows "passed l e active (u # us) failed r l'"
proof -
  obtain bad where "r = ((failed \<or> b) \<or> bad \<noteq> [])"
    "processed (l((e, u) \<mapsto> attempted l e u (if b then STATUS_FAILED else STATUS_SENT))) e (due l e active us) bad l'"
    using assms(4) due_update [OF assms(3)] by (auto simp: passed_def)
  moreover have "u \<notin> set (due l e active us)" using assms(3) by (simp add: due_def)
  ultimately have "r = (failed \<or> (if b then u # bad else bad) \<noteq> [])"
    "processed l e (due l e active (u # us)) (if b then u # bad else bad) l'"
    using processed_Cons [OF _ _ refl] by (auto simp: due_step [where active = active and l = l, OF assms(1,2)])
  then show ?thesis unfolding passed_def by blast
qed

lemma blocked_step:
  assumes "active u = Some p" "\<not> is_sent (l (e, u))" "u \<notin> set us"
    "blocked (l((e, u) \<mapsto> x)) e active us"
  shows "blocked l e active (u # us)"
proof -
  obtain v where v: "v \<in> set (due l e active us)" "\<not> claimable (l((e, u) \<mapsto> x)) e v (the (active v))"
    using assms(4) due_update [OF assms(3)] by (auto simp: blocked_def)
  then have "v \<noteq> u" using assms(3) by (auto simp: due_def)
  then have "\<not> claimable l e v (the (active v))" using v(2) by (simp add: claimable_def)
  with v(1) show ?thesis by (auto simp: blocked_def due_step [where active = active and l = l, OF assms(1,2)])
qed

lemma addressed_step:
  assumes "active u = Some p" "\<not> is_sent (l (e, u))" "u \<notin> set us"
  shows "addressed l e active (u # us) t = (p, t) # addressed (l((e, u) \<mapsto> x)) e active us t"
  using assms due_update [OF assms(3), of l e x active] by (simp add: addressed_def due_step)

locale delivery_service = delivery_ledger D led other ok spare + messenger M quiet
  for D :: "'w vk_delivery_repository" and led and other :: "'w \<Rightarrow> 'o" and ok and spare
    and M :: "'w vk_messenger" and quiet +
  fixes sent :: "'w \<Rightarrow> (int \<times> pystr) list"
    and frame :: "'w \<Rightarrow> 'f"
  assumes sent_other: "other w' = other w \<Longrightarrow> sent w' = sent w"
    and sent_one: "wp (ms_send_message M p t) (\<lambda>b w'. sent w' = sent w @ [(p, t)]) (\<lambda>e w'. True) w"
    and quiet_ok: "ok w \<Longrightarrow> quiet w w' \<Longrightarrow> ok w' \<and> led w' = led w \<and> frame w' = frame w \<and> spare w' = spare w"
    and frame_other: "other w' = other w \<Longrightarrow> frame w' = frame w"
begin

lemma claim_sent':
  assumes "ok w" "is_sent (led w (e, u))"
  shows "wp (dr_claim_attempt D e u p)
    (\<lambda>r w'. r = None \<and> ok w' \<and> led w' = led w \<and> sent w' = sent w \<and> frame w' = frame w \<and> spare w' = spare w)
    (\<lambda>x w'. False) w"
  by (rule wp_mono [OF claim_sent [OF assms]]) (auto dest: sent_other frame_other)

lemma claim_open':
  assumes "ok w" "\<not> is_sent (led w (e, u))" "0 < spare w"
  shows "wp (dr_claim_attempt D e u p)
    (\<lambda>r w'. r \<noteq> None \<and> ok w' \<and> led w' = (led w)((e, u) \<mapsto> attempted (led w) e u STATUS_PENDING) \<and>
       sent w' = sent w \<and> frame w' = frame w \<and> spare w \<le> Suc (spare w'))
    (\<lambda>x w'. ok w' \<and> frame w' = frame w \<and> \<not> claimable (led w) e u p \<and> \<not> isinstance x VkDeliveryRetryableError) w"
  by (rule wp_mono [OF claim_open [OF assms]]) (auto dest: sent_other frame_other simp: attempted_def)

lemma mark_sent':
  assumes "ok w" "led w (e, u) = Some (s, n)"
  shows "wp (dr_mark_sent D e u)
    (\<lambda>r w'. ok w' \<and> led w' = (led w)((e, u) \<mapsto> (STATUS_SENT, n)) \<and> sent w' = sent w \<and> frame w' = frame w \<and> spare w' = spare w)
    (\<lambda>x w'. False) w"
  by (rule wp_mono [OF mark_sent [OF assms]]) (auto dest: sent_other frame_other)

lemma mark_failed':
  assumes "ok w" "led w (e, u) = Some (s, n)"
  shows "wp (dr_mark_failed D e u c)
    (\<lambda>r w'. ok w' \<and> led w' = (led w)((e, u) \<mapsto> (STATUS_FAILED, n)) \<and> sent w' = sent w \<and> frame w' = frame w \<and> spare w' = spare w)
    (\<lambda>x w'. False) w"
  by (rule wp_mono [OF mark_failed [OF assms]]) (auto dest: sent_other frame_other)

text \<open>
  One pass over the recipients writes to each due one once and records the outcome of each; the
  errors left are those of a claim that does not fit its columns.
\<close>

lemma deliver_each_wp:
  assumes "ok w" "distinct us" "length us \<le> spare w" "ds_deliveries S = D" "ds_messenger S = M"
  shows "wp (deliver_each S c active failed us)
    (\<lambda>r w'. ok w' \<and> passed (led w) (cm_event_uuid c) active us failed r (led w') \<and>
       sent w' = sent w @ addressed (led w) (cm_event_uuid c) active us (cm_text c) \<and> frame w' = frame w)
    (\<lambda>x w'. ok w' \<and> frame w' = frame w \<and> \<not> isinstance x VkDeliveryRetryableError \<and> blocked (led w) (cm_event_uuid c) active us) w"
  using assms(1-3)
proof (induction us arbitrary: w failed)
  case Nil
  then show ?case by (simp add: pass_Nil)
next
  case (Cons u us)
  let ?e = "cm_event_uuid c" and ?t = "cm_text c" and ?l = "led w"
  have u: "u \<notin> set us" "distinct us" using Cons.prems by simp_all
  let ?Q = "\<lambda>r w'. ok w' \<and> passed ?l ?e active (u # us) failed r (led w') \<and>
       sent w' = sent w @ addressed ?l ?e active (u # us) ?t \<and> frame w' = frame w"
  let ?E = "\<lambda>x (w' :: 'w). ok w' \<and> frame w' = frame w \<and> \<not> isinstance x VkDeliveryRetryableError \<and> blocked ?l ?e active (u # us)"
  have space: "length us \<le> spare w" "0 < spare w" using Cons.prems(3) by simp_all
  note IH = Cons.IH [OF _ u(2)]
  show ?case
  proof (cases "active u = None \<or> is_sent (?l (?e, u))")
    case True
    have skip: "wp (deliver_each S c active failed us) ?Q ?E w1"
      if "ok w1" "led w1 = ?l" "sent w1 = sent w" "frame w1 = frame w" "spare w1 = spare w" for w1
      using IH [OF that(1)] that(2-5) space by (simp add: pass_skip [where l = ?l and active = active, OF True])
    show ?thesis
    proof (cases "active u")
      case None
      then show ?thesis using skip [OF Cons.prems(1)] by simp
    next
      case (Some p)
      then have "is_sent (?l (?e, u))" using True by simp
      from claim_sent' [OF Cons.prems(1) this]
      have "wp (dr_claim_attempt D ?e u p)
          (\<lambda>r. upon (r = None) (wp (deliver_each S c active failed us) ?Q ?E) X) ?E w" for X
        by (rule wp_mono) (use skip in simp_all)
      then show ?thesis by (simp add: Some assms(4))
    qed
  next
    case False
    then obtain p where p: "active u = Some p" and open': "\<not> is_sent (?l (?e, u))" by auto
    let ?upd = "\<lambda>s. ?l((?e, u) \<mapsto> attempted ?l ?e u s)"
    note step = pass_step [where active = active and l = ?l, OF p open' u(1)]
      blocked_step [where active = active and l = ?l, OF p open' u(1)]
      addressed_step [where active = active and l = ?l, OF p open' u(1)]
    have rest: "wp (deliver_each S c active (failed \<or> b) us) ?Q ?E w3"
      if w3: "ok w3" "led w3 = ?upd (if b then STATUS_FAILED else STATUS_SENT)" "sent w3 = sent w @ [(p, ?t)]"
        "frame w3 = frame w" "length us \<le> spare w3" for b w3
    proof (rule wp_mono [OF IH [OF w3(1,5)]])
      fix r w'
      assume "ok w' \<and> passed (led w3) ?e active us (failed \<or> b) r (led w') \<and>
        sent w' = sent w3 @ addressed (led w3) ?e active us ?t \<and> frame w' = frame w3"
      then have "ok w'" "frame w' = frame w"
        and "passed (?upd (if b then STATUS_FAILED else STATUS_SENT)) ?e active us (failed \<or> b) r (led w')"
        and "sent w' = sent w @ (p, ?t) # addressed (?upd (if b then STATUS_FAILED else STATUS_SENT)) ?e active us ?t"
        by (simp_all only: w3 append.simps append_assoc)
      then show "?Q r w'" using step(1) step(3) [of _ "attempted ?l ?e u (if b then STATUS_FAILED else STATUS_SENT)"]
        by (simp only: simp_thms)
    next
      fix x w'
      assume "ok w' \<and> frame w' = frame w3 \<and> \<not> isinstance x VkDeliveryRetryableError \<and> blocked (led w3) ?e active us"
      then have "ok w' \<and> frame w' = frame w \<and> \<not> isinstance x VkDeliveryRetryableError"
        "blocked (?upd (if b then STATUS_FAILED else STATUS_SENT)) ?e active us"
        unfolding w3(2) w3(4) by blast+
      with step(2) [OF this(2)] show "?E x w'" by blast
    qed
    let ?sent = "wp (dr_mark_sent D ?e u) (\<lambda>_. wp (deliver_each S c active failed us) ?Q ?E) ?E"
    let ?fail = "wp (dr_mark_failed D ?e u VK_API_SEND_FAILED) (\<lambda>_. wp (deliver_each S c active True us) ?Q ?E) ?E"
    have mark: "?sent w2" "?fail w2"
      if w2: "ok w2" "led w2 = ?upd STATUS_PENDING" "sent w2 = sent w @ [(p, ?t)]"
        "frame w2 = frame w" "length us \<le> spare w2" for w2
    proof -
      have l: "led w2 (?e, u) = Some (STATUS_PENDING, attempts_of (?l (?e, u)) + 1)"
        using w2(2) by (simp add: attempted_def)
      show "?sent w2"
        by (rule wp_mono [OF mark_sent' [OF w2(1) l]])
          (use rest [where b = False] w2 in \<open>simp_all add: attempted_def\<close>)
      show "?fail w2"
        by (rule wp_mono [OF mark_failed' [OF w2(1) l]])
          (use rest [where b = True] w2 in \<open>simp_all add: attempted_def\<close>)
    qed
    have send: "wp (ms_send_message M p ?t) (\<lambda>b. upon b ?sent ?fail) ?E w1"
      if w1: "ok w1" "led w1 = ?upd STATUS_PENDING" "sent w1 = sent w"
        "frame w1 = frame w" "length us \<le> spare w1" for w1
      by (rule wp_mono [OF wp_conj [OF send_answers sent_one]])
        (use mark w1(2-5) quiet_ok [OF w1(1)] in simp_all)
    have stop: "blocked ?l ?e active (u # us)" if "\<not> claimable ?l ?e u p"
      using that by (simp add: blocked_def due_step [where l = ?l and active = active, OF p open'] p)
    have "wp (dr_claim_attempt D ?e u p)
        (\<lambda>r. upon (r = None) X (wp (ms_send_message M p ?t) (\<lambda>b. upon b ?sent ?fail) ?E)) ?E w" for X
    proof (rule wp_mono [OF claim_open' [OF Cons.prems(1) open' space(2)]], goal_cases)
      case (1 r w1)
      then have "wp (ms_send_message M p ?t) (\<lambda>b. upon b ?sent ?fail) ?E w1" using Cons.prems(3) by (intro send) (blast, blast, blast, blast, simp)
      with 1 show ?case by (simp only: upon_apply simp_thms)
    next
      case (2 x w1)
      then show ?case using stop by blast
    qed
    then show ?thesis by (simp add: p assms(4,5))
  qed
qed

end

section \<open>On the database\<close>

definition sql_delivery_service :: "('x world_scheme) vk_notification_delivery_service" where
  "sql_delivery_service =
     \<lparr>ds_bindings = SQLAlchemyUserVkRepository,
      ds_deliveries = SQLAlchemyVkNotificationDeliveryRepository,
      ds_messenger = VkbottleMessenger\<rparr>"

lemma sql_delivery_service_sel [simp]:
  "ds_bindings sql_delivery_service = SQLAlchemyUserVkRepository"
  "ds_deliveries sql_delivery_service = SQLAlchemyVkNotificationDeliveryRepository"
  "ds_messenger sql_delivery_service = VkbottleMessenger"
  by (simp_all add: sql_delivery_service_def)

definition beside_ledger ::
    "'x world_scheme \<Rightarrow> user_vk list \<times> vk_confirmation list \<times> vk_log list \<times> db" where
  "beside_ledger w = (user_vks (db w), vk_confirmations (db w), vk_logs (db w), committed w)"

lemma store_ok_messages: "store_ok w \<Longrightarrow> only_messages w w' \<Longrightarrow> store_ok w'"
  using only_messagesD [of w w'] by (auto simp: store_ok_def intro: fresh_supply_same)

lemma beside_deliveriesD:
  assumes "beside_deliveries w' = beside_deliveries w"
  shows "messages_sent w' = messages_sent w" "beside_ledger w' = beside_ledger w"
proof -
  note eq = arg_cong [OF assms]
  from eq [of outbox] show "messages_sent w' = messages_sent w"
    by (simp add: beside_deliveries_def messages_sent_def)
  from eq [of "\<lambda>w. user_vks (db w)"] eq [of "\<lambda>w. vk_confirmations (db w)"] eq [of "\<lambda>w. vk_logs (db w)"] eq [of committed]
  show "beside_ledger w' = beside_ledger w" by (simp add: beside_deliveries_def beside_ledger_def)
qed

interpretation sql_delivery: delivery_service
  SQLAlchemyVkNotificationDeliveryRepository "\<lambda>w. ledger_of (vk_deliveries (db w))" beside_deliveries store_ok uuids_left
  VkbottleMessenger only_messages messages_sent beside_ledger
proof (unfold_locales, goal_cases)
  case (1 w' w)
  then show ?case by (rule beside_deliveriesD)
next
  case (2 p t w)
  show ?case using send_message_run [of p t w] by (auto simp: wp_def Let_def messages_sent_def)
next
  case (3 w w')
  then show ?case using only_messagesD [of w w'] store_ok_messages by (simp add: beside_ledger_def uuids_left_def)
next
  case (4 w' w)
  then show ?case by (rule beside_deliveriesD)
qed

text \<open>The account an owner can be written to at: the one of the live \<open>ACTIVE\<close> binding.\<close>

definition reachable_at :: "db \<Rightarrow> uuid \<Rightarrow> int option" where
  "reachable_at d u =
     (case find (owned_by u) (user_vks d) of
        None \<Rightarrow> None | Some r \<Rightarrow> if uv_state r = STATE_ACTIVE then uv_peer_id r else None)"

abbreviation ledger_in :: "'x world_scheme \<Rightarrow> ledger" where
  "ledger_in w \<equiv> ledger_of (vk_deliveries (db w))"

definition due_recipients :: "'x world_scheme \<Rightarrow> notification_command \<Rightarrow> uuid list" where
  "due_recipients w c =
     filter (\<lambda>u. reachable_at (db w) u \<noteq> None \<and> \<not> is_sent (ledger_in w (cm_event_uuid c, u))) (cm_user_ids c)"

definition notices :: "'x world_scheme \<Rightarrow> notification_command \<Rightarrow> (int \<times> pystr) list" where
  "notices w c = map (\<lambda>u. (the (reachable_at (db w) u), cm_text c)) (due_recipients w c)"

lemma map_of_rev_distinct:
  assumes "distinct (map fst xs)"
  shows "map_of (rev xs) = map_of xs"
proof -
  have d: "distinct (map fst (rev xs))" using assms by (metis distinct_rev rev_map)
  show ?thesis
  proof
    fix k
    show "map_of (rev xs) k = map_of xs k"
    proof (cases "map_of xs k")
      case None
      then have "k \<notin> fst ` set (rev xs)" by (simp add: map_of_eq_None_iff)
      then have "map_of (rev xs) k = None" by (simp only: map_of_eq_None_iff not_False_eq_True)
      then show ?thesis using None by simp
    next
      case (Some v)
      then have "(k, v) \<in> set (rev xs)" by (simp add: map_of_SomeD)
      then show ?thesis using Some map_of_is_SomeI [OF d] by simp
    qed
  qed
qed

lemma active_peers_reachable:
  assumes "db_ok d" "u \<in> set us"
  shows "active_peers (filter (matches_ids us (Some STATE_ACTIVE)) (user_vks d)) u = reachable_at d u"
proof -
  let ?p = "\<lambda>b. matches_ids us (Some STATE_ACTIVE) b \<and> uv_deleted_at b = None \<and> uv_peer_id b \<noteq> None"
  let ?rows = "filter ?p (user_vks d)"
  have rows: "filter (\<lambda>b. uv_deleted_at b = None \<and> uv_peer_id b \<noteq> None)
      (filter (matches_ids us (Some STATE_ACTIVE)) (user_vks d)) = ?rows" by simp
  have "distinct (map uv_user_id ?rows)"
    by (rule distinct_map_filter_subset [OF user_vks_unique(2) [OF assms(1)]]) simp
  then have "distinct (map fst (map (\<lambda>b. (uv_user_id b, the (uv_peer_id b))) ?rows))" by (simp add: comp_def)
  then have m: "map_of (rev (map (\<lambda>b. (uv_user_id b, the (uv_peer_id b))) ?rows)) =
      map_of (map (\<lambda>b. (uv_user_id b, the (uv_peer_id b))) ?rows)" by (rule map_of_rev_distinct)
  have a: "active_peers (filter (matches_ids us (Some STATE_ACTIVE)) (user_vks d)) u =
      map_of (map (\<lambda>b. (uv_user_id b, the (uv_peer_id b))) ?rows) u"
    unfolding active_peers_def rows m ..
  have own: "filter (owned_by u) (user_vks d) = (case find (owned_by u) (user_vks d) of None \<Rightarrow> [] | Some b \<Rightarrow> [b])"
  proof -
    have "filter (owned_by u) (user_vks d) = [] \<and> (\<forall>x \<in> set (user_vks d). \<not> owned_by u x) \<or>
        (\<exists>r \<in> set (user_vks d). owned_by u r \<and> filter (owned_by u) (user_vks d) = [r])"
      by (rule filter_unique_cases [OF user_vks_unique(2) [OF assms(1)], where k = u]) (auto simp: owned_by_def)
    then show ?thesis by (auto simp: find_eq_filter)
  qed
  have find_map: "map_of (map (\<lambda>b. (uv_user_id b, the (uv_peer_id b))) rs) u =
      map_option (\<lambda>b. the (uv_peer_id b)) (find (\<lambda>b. uv_user_id b = u) rs)" for rs
    by (induction rs) auto
  have find_filter: "find q (filter p rs) = find (\<lambda>b. p b \<and> q b) rs" for p q and rs :: "user_vk list"
    by (induction rs) auto
  have "find (\<lambda>b. ?p b \<and> uv_user_id b = u) (user_vks d) =
      find (\<lambda>b. uv_state b = STATE_ACTIVE \<and> uv_peer_id b \<noteq> None) (filter (owned_by u) (user_vks d))"
    unfolding find_filter by (rule find_cong [OF refl]) (use assms(2) in \<open>auto simp: matches_ids_def owned_by_def\<close>)
  also have "\<dots> = (case find (owned_by u) (user_vks d) of None \<Rightarrow> None
      | Some b \<Rightarrow> if uv_state b = STATE_ACTIVE \<and> uv_peer_id b \<noteq> None then Some b else None)"
    unfolding own by (auto split: option.split)
  finally show ?thesis
    unfolding a find_map find_filter reachable_at_def by (auto split: option.splits)
qed

lemma due_recipients_eq:
  fixes c :: notification_command
  assumes "db_ok (db w)"
  defines "active \<equiv> active_peers (filter (matches_ids (cm_user_ids c) (Some STATE_ACTIVE)) (user_vks (db w)))"
  shows "due (ledger_in w) (cm_event_uuid c) active (cm_user_ids c) = due_recipients w c"
    "addressed (ledger_in w) (cm_event_uuid c) active (cm_user_ids c) (cm_text c) = notices w c"
proof -
  have act: "active u = reachable_at (db w) u" if "u \<in> set (cm_user_ids c)" for u
    unfolding active_def by (rule active_peers_reachable [OF assms(1) that])
  show due: "due (ledger_in w) (cm_event_uuid c) active (cm_user_ids c) = due_recipients w c"
    unfolding due_def due_recipients_def by (rule filter_cong [OF refl]) (simp add: act)
  show "addressed (ledger_in w) (cm_event_uuid c) active (cm_user_ids c) (cm_text c) = notices w c"
    unfolding addressed_def notices_def due by (rule map_cong [OF refl]) (simp add: act due_recipients_def)
qed

lemma domain_ok_ledger:
  assumes "domain_ok w" "store_ok w'" "beside_ledger w' = beside_ledger w"
  shows "domain_ok w'"
  using assms by (simp add: domain_ok_def store_ok_def beside_ledger_def bindings_ok_def)

text \<open>What is due after a pass: the recipients whose message failed.\<close>

lemma due_processed:
  assumes "processed (ledger_in w) (cm_event_uuid c) (due_recipients w c) bad (ledger_in w')"
    and "user_vks (db w') = user_vks (db w)"
  shows "due_recipients w' c = filter (\<lambda>u. u \<in> set bad) (due_recipients w c)"
proof -
  let ?e = "cm_event_uuid c"
  have reach: "reachable_at (db w') = reachable_at (db w)" by (simp add: reachable_at_def fun_eq_iff assms(2))
  have bad: "set bad \<subseteq> set (due_recipients w c)" using assms(1) by (simp add: processed_def)
  have sent: "is_sent (ledger_in w' (?e, u)) = (if u \<in> set (due_recipients w c) then u \<notin> set bad else is_sent (ledger_in w (?e, u)))" for u
  proof (cases "u \<in> set (due_recipients w c)")
    case True
    then show ?thesis using assms(1) by (simp add: processed_def attempted_def)
  next
    case False
    then have "(?e, u) \<notin> Pair ?e ` set (due_recipients w c)" by auto
    then show ?thesis using False assms(1) by (simp add: processed_def)
  qed
  show ?thesis
    unfolding due_recipients_def [of w'] due_recipients_def [of w] filter_filter reach
  proof (rule filter_cong [OF refl])
    fix u assume "u \<in> set (cm_user_ids c)"
    then show "(reachable_at (db w) u \<noteq> None \<and> \<not> is_sent (ledger_in w' (?e, u))) =
        ((reachable_at (db w) u \<noteq> None \<and> \<not> is_sent (ledger_in w (?e, u))) \<and> u \<in> set bad)"
      using bad sent [of u] by (auto simp: due_recipients_def)
  qed
qed

lemma deliver_wp:
  assumes ok: "domain_ok w" and dist: "distinct (cm_user_ids c)" and space: "room (length (cm_user_ids c)) w"
  shows "wp (VkNotificationDeliveryService_deliver sql_delivery_service c)
    (\<lambda>_ w'. domain_ok w' \<and> beside_ledger w' = beside_ledger w \<and> messages_sent w' = messages_sent w @ notices w c \<and>
       processed (ledger_in w) (cm_event_uuid c) (due_recipients w c) [] (ledger_in w'))
    (\<lambda>x w'. domain_ok w' \<and> beside_ledger w' = beside_ledger w \<and>
       (if isinstance x VkDeliveryRetryableError
        then messages_sent w' = messages_sent w @ notices w c \<and>
          (\<exists>bad. bad \<noteq> [] \<and> processed (ledger_in w) (cm_event_uuid c) (due_recipients w c) bad (ledger_in w'))
        else \<exists>u \<in> set (due_recipients w c).
          \<not> claimable (ledger_in w) (cm_event_uuid c) u (the (reachable_at (db w) u)))) w"
    (is "wp _ ?Q ?E w")
proof -
  let ?us = "cm_user_ids c" and ?e = "cm_event_uuid c"
  let ?act = "active_peers (filter (matches_ids ?us (Some STATE_ACTIVE)) (user_vks (db w)))"
  note due = due_recipients_eq [OF domain_okD(1) [OF ok], of c]
  have act: "?act u = reachable_at (db w) u" if "u \<in> set (due_recipients w c)" for u
    by (rule active_peers_reachable [OF domain_okD(1) [OF ok]]) (use that in \<open>simp add: due_recipients_def\<close>)
  have state: "lit ''ACTIVE'' = STATE_ACTIVE" by (simp add: STATE_ACTIVE_def)
  have get: "wp (UserVkRepository_get_by_user_ids ?us (Some STATE_ACTIVE)) Q E w =
      Q (filter (matches_ids ?us (Some STATE_ACTIVE)) (user_vks (db w))) w" for Q E
    by (rule wp_Inr) (rule get_by_user_ids_run)
  have spare: "length ?us \<le> uuids_left w" using space by (simp add: room_def uuids_left_def)
  have "wp (deliver_each sql_delivery_service c ?act False ?us)
      (\<lambda>r. upon r (?E (Exn VkDeliveryRetryableError (lit ''VK delivery has retryable recipient failures'')))
         (?Q ())) ?E w"
  proof (rule wp_mono [OF sql_delivery.deliver_each_wp [OF domain_okD(6) [OF ok] dist spare]], goal_cases)
    case (3 r w')
    then have "domain_ok w'" using domain_ok_ledger [OF ok] by blast
    then show ?case using 3 by (auto simp: due passed_def)
  next
    case (4 x w')
    then have "domain_ok w'" using domain_ok_ledger [OF ok] by blast
    then show ?case using 4 act by (auto simp: due blocked_def)
  qed simp_all
  then show ?thesis
    unfolding VkNotificationDeliveryService_deliver_def state sql_delivery_service_sel user_vk_repository_sel
      wp_bind get wp_if wp_throw wp_ret .
qed

text \<open>The first delivery to a single recipient: its outcome is the answer of the VK API.\<close>

lemma deliver_to_one_run:
  fixes w :: "'x world_scheme"
  assumes ok: "db_ok (db w)" "fresh_supply w" "room 1 w" and c: "cm_user_ids c = [u]"
    and p: "active_peers (filter (matches_ids [u] (Some STATE_ACTIVE)) (user_vks (db w))) u = Some p" "fits_bigint p"
    and none: "find (same_recipient (cm_event_uuid c) u) (vk_deliveries (db w)) = None"
    and ans: "\<And>t r. vk_send_answer w t p (cm_text c) r = b"
  shows "fst (VkNotificationDeliveryService_deliver sql_delivery_service c w) =
      (if b then Inr () else Inl (Exn VkDeliveryRetryableError (lit ''VK delivery has retryable recipient failures'')))"
    and "drawn (snd (VkNotificationDeliveryService_deliver sql_delivery_service c w)) = Suc (drawn w)"
proof -
  let ?e = "cm_event_uuid c"
  let ?row = "new_delivery (uuids w (drawn w)) ?e u p (db_now w (Suc (tick w))) (clock w (tick w))"
  let ?w1 = "locked ?e u w\<lparr>drawn := Suc (drawn w), tick := tick w + 2,
    db := (db w)\<lparr>vk_deliveries := vk_deliveries (db w) @ [?row]\<rparr>\<rparr>"
  obtain w1 where w1: "w1 = ?w1" by simp
  have claim: "VkNotificationDeliveryRepository_claim_attempt ?e u p w = (Inr (Some ?row), w1)"
    using claim_first_run(1) [OF ok none, of p] p(2) by (simp add: Let_def w1)
  have db1: "db_ok (db w1)" using claim_first_run(2) [OF ok none p(2)] by (simp add: w1)
  have row1: "find (same_recipient ?e u) (vk_deliveries (db w1)) = Some ?row"
    using none by (simp add: w1 find_append same_recipient_def new_delivery_def)
  have same1: "vk_send_answer w1 = vk_send_answer w" "drawn w1 = Suc (drawn w)" by (simp_all add: w1 locked_def)
  obtain w2 where send: "VkbottleMessenger_send_message p (cm_text c) w1 = (Inr b, w2)"
    and same2: "db w2 = db w1" "drawn w2 = Suc (drawn w)"
    using send_message_run [of p "cm_text c" w1] ans by (auto simp: Let_def same1)
  have db2: "db_ok (db w2)" and row: "find (same_recipient ?e u) (vk_deliveries (db w2)) = Some ?row"
    using db1 row1 by (simp_all add: same2)
  have state: "lit ''ACTIVE'' = STATE_ACTIVE" by (simp add: STATE_ACTIVE_def)
  note run = VkNotificationDeliveryService_deliver_def prog_simps get_by_user_ids_run state
  have "fst (VkNotificationDeliveryService_deliver sql_delivery_service c w) =
      (if b then Inr () else Inl (Exn VkDeliveryRetryableError (lit ''VK delivery has retryable recipient failures''))) \<and>
      drawn (snd (VkNotificationDeliveryService_deliver sql_delivery_service c w)) = Suc (drawn w)"
  proof (cases b)
    case True
    have "drawn (snd (VkNotificationDeliveryRepository_mark_sent ?e u w2)) = Suc (drawn w)"
      unfolding mark_sent_run [OF db2 row] by (simp add: same2)
    moreover have "\<exists>r. fst (VkNotificationDeliveryRepository_mark_sent ?e u w2) = Inr r"
      unfolding mark_sent_run [OF db2 row] by (simp add: same2)
    ultimately show ?thesis
      by (cases "VkNotificationDeliveryRepository_mark_sent ?e u w2") (use True p(1) in \<open>auto simp: run c claim send\<close>)
  next
    case False
    have "drawn (snd (VkNotificationDeliveryRepository_mark_failed ?e u VK_API_SEND_FAILED w2)) = Suc (drawn w)"
      unfolding mark_failed_run [OF db2 row] by (simp add: same2)
    moreover have "\<exists>r. fst (VkNotificationDeliveryRepository_mark_failed ?e u VK_API_SEND_FAILED w2) = Inr r"
      unfolding mark_failed_run [OF db2 row] by (simp add: same2)
    ultimately show ?thesis
      by (cases "VkNotificationDeliveryRepository_mark_failed ?e u VK_API_SEND_FAILED w2") (use False p(1) in \<open>auto simp: run c claim send\<close>)
  qed
  then show "fst (VkNotificationDeliveryService_deliver sql_delivery_service c w) =
      (if b then Inr () else Inl (Exn VkDeliveryRetryableError (lit ''VK delivery has retryable recipient failures'')))"
    "drawn (snd (VkNotificationDeliveryService_deliver sql_delivery_service c w)) = Suc (drawn w)" by blast+
qed

section \<open>Properties\<close>

text \<open>
  C7. One delivery of a command writes exactly once, in the order of the command, to every recipient
  whose live binding is \<open>ACTIVE\<close> and whose row of the ledger is not \<open>SENT\<close>, at the linked account,
  with the text of the command, and to nobody else.  It answers when all were taken, and then each
  has its row \<open>SENT\<close> with one more attempt; it raises \<open>VkDeliveryRetryableError\<close> when some were not,
  and then exactly these have their row \<open>FAILED\<close> and are due again.  Rows of other recipients and
  events, bindings, codes and the journal do not change.  The only other error is a counter of
  attempts that no longer fits its column.
\<close>

theorem deliver_correct:
  assumes "domain_ok w" "distinct (cm_user_ids c)" "room (length (cm_user_ids c)) w"
  shows "wp (VkNotificationDeliveryService_deliver sql_delivery_service c)
    (\<lambda>_ w'. domain_ok w' \<and> beside_ledger w' = beside_ledger w \<and> messages_sent w' = messages_sent w @ notices w c \<and>
       due_recipients w' c = [] \<and>
       (\<forall>u \<in> set (due_recipients w c). ledger_in w' (cm_event_uuid c, u) =
          Some (STATUS_SENT, attempts_of (ledger_in w (cm_event_uuid c, u)) + 1)) \<and>
       (\<forall>k. k \<notin> Pair (cm_event_uuid c) ` set (due_recipients w c) \<longrightarrow> ledger_in w' k = ledger_in w k))
    (\<lambda>x w'. domain_ok w' \<and> beside_ledger w' = beside_ledger w \<and>
       (if isinstance x VkDeliveryRetryableError
        then messages_sent w' = messages_sent w @ notices w c \<and>
          (\<exists>bad. bad \<noteq> [] \<and> set bad \<subseteq> set (due_recipients w c) \<and>
             due_recipients w' c = filter (\<lambda>u. u \<in> set bad) (due_recipients w c) \<and>
             (\<forall>u \<in> set (due_recipients w c). ledger_in w' (cm_event_uuid c, u) =
                Some (if u \<in> set bad then STATUS_FAILED else STATUS_SENT,
                      attempts_of (ledger_in w (cm_event_uuid c, u)) + 1))) \<and>
          (\<forall>k. k \<notin> Pair (cm_event_uuid c) ` set (due_recipients w c) \<longrightarrow> ledger_in w' k = ledger_in w k)
        else \<exists>u \<in> set (due_recipients w c).
          \<not> claimable (ledger_in w) (cm_event_uuid c) u (the (reachable_at (db w) u)))) w"
proof (rule wp_mono [OF deliver_wp [OF assms]], goal_cases)
  case (1 _ w')
  then have "user_vks (db w') = user_vks (db w)" by (simp add: beside_ledger_def)
  with 1 due_processed [of w c "[]" w'] have "due_recipients w' c = []" by simp
  with 1 show ?case by (auto simp: processed_def attempted_def)
next
  case (2 x w')
  then have same: "user_vks (db w') = user_vks (db w)" by (simp add: beside_ledger_def)
  show ?case
  proof (cases "isinstance x VkDeliveryRetryableError")
    case True
    with 2 obtain bad where bad: "bad \<noteq> []"
        "processed (ledger_in w) (cm_event_uuid c) (due_recipients w c) bad (ledger_in w')"
        and m: "messages_sent w' = messages_sent w @ notices w c" by auto
    from due_processed [OF bad(2) same] bad m show ?thesis using 2 True
      unfolding processed_def attempted_def by (simp only: if_True) blast
  next
    case False
    with 2 show ?thesis by simp
  qed
qed

lemma deliver_nothing_due:
  assumes "domain_ok w" "distinct (cm_user_ids c)" "room (length (cm_user_ids c)) w" "due_recipients w c = []"
  shows "wp (VkNotificationDeliveryService_deliver sql_delivery_service c)
    (\<lambda>_ w'. domain_ok w' \<and> messages_sent w' = messages_sent w \<and> beside_ledger w' = beside_ledger w \<and>
       ledger_in w' = ledger_in w) (\<lambda>x w'. False) w"
proof (rule wp_mono [OF deliver_wp [OF assms(1,2,3)]], goal_cases)
  case (1 _ w')
  then show ?case using assms(4) by (auto simp: notices_def processed_def)
next
  case (2 x w')
  then show ?case using assms(4) by (auto simp: processed_def split: if_splits)
qed

text \<open>
  A redelivered command is not sent twice: a second delivery after one that answered writes to nobody
  and changes no row of the ledger.
\<close>

lemma redelivery_sends_nothing:
  assumes "domain_ok w" "distinct (cm_user_ids c)" "room (length (cm_user_ids c)) w"
    and "VkNotificationDeliveryService_deliver sql_delivery_service c w = (Inr (), w')"
    and "room (length (cm_user_ids c)) w'"
  shows "wp (VkNotificationDeliveryService_deliver sql_delivery_service c)
    (\<lambda>_ w''. messages_sent w'' = messages_sent w @ notices w c \<and> ledger_in w'' = ledger_in w')
    (\<lambda>x w''. False) w'"
proof -
  have a: "domain_ok w'" "beside_ledger w' = beside_ledger w" "messages_sent w' = messages_sent w @ notices w c"
    "processed (ledger_in w) (cm_event_uuid c) (due_recipients w c) [] (ledger_in w')"
    using wp_InrD [OF deliver_wp [OF assms(1-3)] assms(4)] by simp_all
  have "due_recipients w' c = []"
    using due_processed [OF a(4)] a(2) by (simp add: beside_ledger_def)
  from deliver_nothing_due [OF a(1) assms(2,5) this] show ?thesis
    by (rule wp_mono) (simp_all add: a(3))
qed

text \<open>
  Redelivery converges: retried once after a failure, a command is written again only to the
  recipients whose first message failed, and when the retry answers, every recipient that was due
  has its row \<open>SENT\<close>.
\<close>

theorem retry_writes_to_failed_only:
  assumes "domain_ok w" "distinct (cm_user_ids c)" "room (length (cm_user_ids c)) w"
    and "VkNotificationDeliveryService_deliver sql_delivery_service c w = (Inl x, w')"
    and "isinstance x VkDeliveryRetryableError" "room (length (cm_user_ids c)) w'"
  shows "wp (VkNotificationDeliveryService_deliver sql_delivery_service c)
    (\<lambda>_ w''. (\<exists>failed. set failed \<subseteq> set (due_recipients w c) \<and>
         (\<forall>u \<in> set failed. fst (the (ledger_in w' (cm_event_uuid c, u))) = STATUS_FAILED) \<and>
         messages_sent w'' = messages_sent w @ notices w c @ map (\<lambda>u. (the (reachable_at (db w) u), cm_text c)) failed) \<and>
       (\<forall>u \<in> set (due_recipients w c). is_sent (ledger_in w'' (cm_event_uuid c, u))))
    (\<lambda>_ _. True) w'"
proof -
  let ?e = "cm_event_uuid c"
  obtain bad where a: "domain_ok w'" "beside_ledger w' = beside_ledger w" "messages_sent w' = messages_sent w @ notices w c"
    "processed (ledger_in w) ?e (due_recipients w c) bad (ledger_in w')"
    using wp_InlD [OF deliver_wp [OF assms(1-3)] assms(4)] assms(5) by auto
  have same: "user_vks (db w') = user_vks (db w)" using a(2) by (simp add: beside_ledger_def)
  let ?failed = "filter (\<lambda>u. u \<in> set bad) (due_recipients w c)"
  have due': "due_recipients w' c = ?failed" by (rule due_processed [OF a(4) same])
  have "reachable_at (db w') = reachable_at (db w)" by (simp add: reachable_at_def fun_eq_iff same)
  then have notices': "notices w' c = map (\<lambda>u. (the (reachable_at (db w) u), cm_text c)) ?failed"
    by (simp add: notices_def due')
  have failed: "\<forall>u \<in> set ?failed. fst (the (ledger_in w' (?e, u))) = STATUS_FAILED"
    using a(4) by (auto simp: processed_def attempted_def)
  show ?thesis
  proof (rule wp_mono [OF deliver_wp [OF a(1) assms(2,6)]], goal_cases)
    case (1 _ w'')
    have "is_sent (ledger_in w'' (?e, u))" if u: "u \<in> set (due_recipients w c)" for u
    proof (cases "u \<in> set bad")
      case True
      then show ?thesis using 1 u by (auto simp: due' processed_def attempted_def)
    next
      case False
      then have "(?e, u) \<notin> Pair ?e ` set (due_recipients w' c)" by (auto simp: due')
      then show ?thesis using 1 a(4) u False by (auto simp: processed_def attempted_def)
    qed
    moreover have "messages_sent w'' = messages_sent w @ notices w c @
        map (\<lambda>u. (the (reachable_at (db w) u), cm_text c)) ?failed"
      using 1 a(3) notices' by simp
    ultimately show ?case using failed by (intro conjI exI [of _ ?failed]) auto
  qed simp
qed

end
