(* ===== verification/Sessions.thy ===== *)
theory Sessions
  imports Domain_Invariant
begin

text \<open>
  The sessions of \<open>utils/database.py\<close>: the transaction around an HTTP request (\<open>get_session\<close>), and the
  sessions the bot and the consumer of commands open, commit, roll back and close themselves.
\<close>

section \<open>The transaction of a request\<close>

definition get_session :: "('x world_scheme, 'a) prog \<Rightarrow> ('x world_scheme, 'a) prog" where
  "get_session endpoint =
     thenM open_session
       (catchM
         (bindM endpoint (\<lambda>r. thenM commit (retM r)))
         [PyException] (\<lambda>e. thenM rollback (throwM e)))"

section \<open>Sessions of an event\<close>

text \<open>\<open>session.close()\<close> ends the transaction; what was not committed is gone.\<close>

definition close_session :: "('x world_scheme, unit) prog" where
  "close_session = rollback"

definition commit_and_close :: "('x world_scheme, unit) prog" where
  "commit_and_close = finallyM commit close_session"

text \<open>The world a new session works in, and the end of a session.\<close>

definition opened :: "'x world_scheme \<Rightarrow> 'x world_scheme" where
  "opened w = w\<lparr>db := committed w, locks := []\<rparr>"

definition kept :: "'x world_scheme \<Rightarrow> 'x world_scheme" where
  "kept w = w\<lparr>committed := db w, locks := []\<rparr>"

lemma opened_sel [simp]:
  "db (opened w) = committed w" "committed (opened w) = committed w" "tick (opened w) = tick w"
  "drawn (opened w) = drawn w" "clock (opened w) = clock w" "outbox (opened w) = outbox w"
  "uuids (opened w) = uuids w" "vk_users_answer (opened w) = vk_users_answer w" "locks (opened w) = []"
  by (simp_all add: opened_def)

lemma kept_sel [simp]:
  "db (kept w) = db w" "committed (kept w) = db w" "tick (kept w) = tick w" "outbox (kept w) = outbox w"
  "drawn (kept w) = drawn w" "clock (kept w) = clock w"
  by (simp_all add: kept_def)

lemma domain_ok_opened: "domain_ok w \<Longrightarrow> domain_ok (opened w)"
  by (simp add: opened_def domain_ok_restart)

lemma domain_ok_kept: "domain_ok w \<Longrightarrow> domain_ok (kept w)"
  by (simp add: kept_def domain_ok_restart)

lemma commit_and_close_run: "commit_and_close w = (Inr (), kept w)"
  by (simp add: commit_and_close_def finallyM_def close_session_def prog_simps kept_def)

text \<open>\<open>async with SessionFactory() as session\<close>: the session is closed however its block ends.\<close>

definition with_session :: "('x world_scheme, 'a) prog \<Rightarrow> ('x world_scheme, 'a) prog" where
  "with_session m = thenM open_session (finallyM m close_session)"

lemma with_session_reads: "with_session (getsM f) w = (Inr (f (opened w)), opened w)"
  by (simp add: with_session_def finallyM_def close_session_def prog_simps opened_def)

text \<open>\<open>task_session\<close>: the session of a worker task, on an engine of its own, which is disposed afterwards.\<close>

record task_world = world +
  task_engine :: bool

definition task_session :: "('x task_world_scheme, 'a) prog \<Rightarrow> ('x task_world_scheme, 'a) prog" where
  "task_session m =
     thenM (modifyM (\<lambda>w. w\<lparr>task_engine := True\<rparr>))
       (finallyM (with_session m) (modifyM (\<lambda>w. w\<lparr>task_engine := False\<rparr>)))"

text \<open>However the block ends, its outcome is kept, its engine is disposed and what it did not commit is gone.\<close>

lemma task_session_releases:
  fixes w :: "'x task_world_scheme"
  assumes "m (opened (w\<lparr>task_engine := True\<rparr>)) = (r, w')"
  shows "task_session m w = (r, opened w'\<lparr>task_engine := False\<rparr>)"
  using assms by (simp add: task_session_def with_session_def finallyM_def close_session_def prog_simps opened_def)

section \<open>What a transaction keeps\<close>

lemma wp_get_session:
  "wp (get_session m) Q E w =
     wp m (\<lambda>r w'. Q r (w'\<lparr>committed := db w', locks := []\<rparr>))
       (\<lambda>e. upon (isinstance e PyException) (\<lambda>w'. E e (w'\<lparr>db := committed w', locks := []\<rparr>)) (E e))
       (w\<lparr>db := committed w, locks := []\<rparr>)"
  by (simp add: get_session_def)

text \<open>What every endpoint keeps: the invariant and what has been committed before it.\<close>

definition inside :: "'x world_scheme \<Rightarrow> 'x world_scheme \<Rightarrow> bool" where
  "inside w w' \<longleftrightarrow> domain_ok w' \<and> committed w' = committed w"

text \<open>The transaction: what an endpoint did is committed when it answers and undone when it raises.\<close>

lemma session_wp:
  assumes "domain_ok w"
    and "wp m (\<lambda>r w'. inside w0 w' \<and> Q r w') (\<lambda>e w'. inside w0 w' \<and> isinstance e PyException \<and> E e w') w0"
    and w0: "w0 = w\<lparr>db := committed w, locks := []\<rparr>"
    and Q: "\<And>r w'. inside w0 w' \<Longrightarrow> Q r w' \<Longrightarrow> domain_ok (w'\<lparr>committed := db w', locks := []\<rparr>) \<Longrightarrow> Q' r (w'\<lparr>committed := db w', locks := []\<rparr>)"
    and E: "\<And>e w'. inside w0 w' \<Longrightarrow> E e w' \<Longrightarrow> domain_ok (w'\<lparr>db := committed w, locks := []\<rparr>) \<Longrightarrow> committed w' = committed w \<Longrightarrow>
      E' e (w'\<lparr>db := committed w, locks := []\<rparr>)"
  shows "wp (get_session m) Q' E' w"
  unfolding wp_get_session w0 [symmetric]
proof (rule wp_mono [OF assms(2)], goal_cases)
  case (1 r w')
  then show ?case using domain_ok_restart(2) [of w' "[]"] by (intro Q) (auto simp: inside_def)
next
  case (2 e w')
  then have c: "committed w' = committed w" by (simp add: inside_def w0)
  have "E' e (w'\<lparr>db := committed w, locks := []\<rparr>)"
    using 2 domain_ok_restart(1) [of w' "[]"] c by (intro E) (auto simp: inside_def)
  with 2 show ?case by (simp add: c)
qed

end
