(* ===== verification/Notification_Handler.thy ===== *)
theory Notification_Handler
  imports Delivery_Service Sessions Py_Uuid5
begin

text \<open>
  \<open>clients/nats/handlers/notification_commands_send_vk.py\<close>: one notification command, from the bytes and
  headers of its message to the end of its transaction.

  Decoding JSON into the fields of the command is the work of the schema library (\<open>decode\<close>, \<open>None\<close>
  when the bytes are not such a document); the validators of the fields are the model's
  (\<open>NotificationCommandSendVkData_validate\<close>).
\<close>

definition message_id_of :: "ucd \<Rightarrow> (pystr \<rightharpoonup> pystr) \<Rightarrow> ('w, uuid) prog" where
  "message_id_of u headers =
     (case headers (lit ''Nats-Msg-Id'') of
        None \<Rightarrow> raiseM KeyError (lit ''Nats-Msg-Id'')
      | Some h \<Rightarrow>
          (case uuid_of_str u h of
             None \<Rightarrow> raiseM ValueError (lit ''badly formed hexadecimal UUID string'')
           | Some i \<Rightarrow> retM i))"

definition model_validate_json ::
    "(byte list \<Rightarrow> notification_command option) \<Rightarrow> byte list \<Rightarrow> ('w, notification_command) prog" where
  "model_validate_json decode payload =
     (case decode payload of
        None \<Rightarrow> raiseM ValidationError (lit ''invalid document'')
      | Some raw \<Rightarrow> NotificationCommandSendVkData_validate raw)"

definition NotificationCommandsSendVkHandler_handle ::
    "('x world_scheme) vk_messenger \<Rightarrow> ucd \<Rightarrow> (byte list \<Rightarrow> notification_command option) \<Rightarrow>
       byte list \<Rightarrow> (pystr \<rightharpoonup> pystr) \<Rightarrow> ('x world_scheme, unit) prog" where
  "NotificationCommandsSendVkHandler_handle vk_messenger u decode payload headers =
     bindM
       (catchM
         (bindM (model_validate_json decode payload) (\<lambda>command.
          bindM (message_id_of u headers) (\<lambda>message_id. retM (command, message_id))))
         [ValidationError, ValueError, KeyError]
         (\<lambda>_. raiseM ValueError (lit ''Invalid VK notification command'')))
       (\<lambda>(command, message_id).
         let expected_message_id = build_command_msg_id (cm_callback_request_id command) VK_CHANNEL_CODE in
         if message_id \<noteq> expected_message_id
         then raiseM ValueError (lit ''Nats-Msg-Id does not match the VK command identity'')
         else
           let service =
             \<lparr>ds_bindings = SQLAlchemyUserVkRepository,
              ds_deliveries = SQLAlchemyVkNotificationDeliveryRepository, ds_messenger = vk_messenger\<rparr>
           in
           thenM open_session
             (finallyM
               (thenM
                 (catchM (VkNotificationDeliveryService_deliver service command)
                   [VkDeliveryRetryableError, PyException]
                   (\<lambda>e. if isinstance e VkDeliveryRetryableError then thenM commit (throwM e)
                        else thenM rollback (throwM e)))
                 commit)
               close_session))"

section \<open>Which commands reach a recipient\<close>

text \<open>The command a message carries, if it is one and is named as it should be.\<close>

definition accepted ::
    "ucd \<Rightarrow> (byte list \<Rightarrow> notification_command option) \<Rightarrow> byte list \<Rightarrow> (pystr \<rightharpoonup> pystr) \<Rightarrow>
       notification_command option" where
  "accepted u decode payload headers =
     (case decode payload of
        None \<Rightarrow> None
      | Some raw \<Rightarrow>
          if cm_user_ids raw \<noteq> [] \<and> length (cm_text raw) \<le> 4096 \<and> py_strip (cm_text raw) \<noteq> [] \<and>
             (\<exists>h. headers (lit ''Nats-Msg-Id'') = Some h \<and>
                uuid_of_str u h = Some (build_command_msg_id (cm_callback_request_id raw) VK_CHANNEL_CODE))
          then Some (raw\<lparr>cm_user_ids := deduplicate_user_ids (cm_user_ids raw), cm_text := py_strip (cm_text raw)\<rparr>)
          else None)"

lemma validate_run:
  "NotificationCommandSendVkData_validate raw w =
    (if cm_user_ids raw \<noteq> [] \<and> length (cm_text raw) \<le> 4096 \<and> py_strip (cm_text raw) \<noteq> []
     then (Inr (raw\<lparr>cm_user_ids := deduplicate_user_ids (cm_user_ids raw), cm_text := py_strip (cm_text raw)\<rparr>), w)
     else (Inl (Exn ValidationError
       (if cm_user_ids raw = [] then lit ''user_ids: at least 1 item''
        else if cm_text raw = [] \<or> 4096 < length (cm_text raw) then lit ''text: 1 to 4096 characters''
        else lit ''text must contain non-whitespace characters'')), w))"
  by (auto simp: NotificationCommandSendVkData_validate_def validate_text_def prog_simps Let_def
      py_strip_def py_strip_chars_def py_lstrip_def py_rstrip_def)

lemma accepted_distinct: "accepted u decode payload headers = Some c \<Longrightarrow> distinct (cm_user_ids c)"
  using dedupe_from_props [of "[]", THEN conjunct1] by (auto simp: accepted_def deduplicate_user_ids_def split: option.splits if_splits)

lemma refused_run_over:
  assumes "accepted u decode payload headers = None"
  shows "\<exists>m. NotificationCommandsSendVkHandler_handle M u decode payload headers w = (Inl (Exn ValueError m), w)"
  using assms
  by (auto simp: NotificationCommandsSendVkHandler_handle_def model_validate_json_def message_id_of_def accepted_def
      prog_simps validate_run Let_def split: option.splits if_splits)

lemmas refused_run = refused_run_over [where M = VkbottleMessenger]

text \<open>The service over a messenger; what the handler does with an accepted command.\<close>

definition delivery_service_over :: "('x world_scheme) vk_messenger \<Rightarrow> ('x world_scheme) vk_notification_delivery_service" where
  "delivery_service_over M =
     \<lparr>ds_bindings = SQLAlchemyUserVkRepository, ds_deliveries = SQLAlchemyVkNotificationDeliveryRepository,
      ds_messenger = M\<rparr>"

lemma delivery_service_over_vkbottle: "delivery_service_over VkbottleMessenger = sql_delivery_service"
  by (simp add: delivery_service_over_def sql_delivery_service_def)

lemma accepted_run_over:
  assumes "accepted u decode payload headers = Some c"
  shows "NotificationCommandsSendVkHandler_handle M u decode payload headers w =
    (case VkNotificationDeliveryService_deliver (delivery_service_over M) c (opened w) of
       (Inr _, w') \<Rightarrow> (Inr (), opened (kept w'))
     | (Inl e, w') \<Rightarrow>
         (Inl e,
          if isinstance e VkDeliveryRetryableError then opened (kept w')
          else opened w'))"
  using assms
  by (auto simp: NotificationCommandsSendVkHandler_handle_def model_validate_json_def message_id_of_def accepted_def
      prog_simps validate_run Let_def finallyM_def close_session_def opened_def kept_def delivery_service_over_def
      split: option.splits if_splits prod.splits sum.splits)

lemma accepted_run:
  assumes "accepted u decode payload headers = Some c"
  shows "NotificationCommandsSendVkHandler_handle VkbottleMessenger u decode payload headers w =
    (case VkNotificationDeliveryService_deliver sql_delivery_service c (opened w) of
       (Inr _, w') \<Rightarrow> (Inr (), opened (kept w'))
     | (Inl e, w') \<Rightarrow>
         (Inl e,
          if isinstance e VkDeliveryRetryableError then opened (kept w')
          else opened w'))"
  using accepted_run_over [OF assms, of VkbottleMessenger w]
  by (simp add: delivery_service_over_vkbottle split: prod.split sum.split)

lemma reachable_same: "user_vks d = user_vks d' \<Longrightarrow> reachable_at d = reachable_at d'"
  by (simp add: reachable_at_def fun_eq_iff)

lemma due_recipients_cong:
  "user_vks (db w) = user_vks (db w') \<Longrightarrow> vk_deliveries (db w) = vk_deliveries (db w') \<Longrightarrow>
    due_recipients w c = due_recipients w' c"
  using reachable_same [of "db w" "db w'"] by (simp add: due_recipients_def)

lemma messages_sent_session [simp]: "messages_sent (opened w) = messages_sent w" "messages_sent (kept w) = messages_sent w"
  by (simp_all add: messages_sent_def)

text \<open>The outcome of a handled command, as what it leaves committed.\<close>

definition handled :: "notification_command \<Rightarrow> uuid list \<Rightarrow> 'x world_scheme \<Rightarrow> 'x world_scheme \<Rightarrow> bool" where
  "handled c bad w w' \<longleftrightarrow>
     domain_ok w' \<and> db w' = committed w' \<and>
     messages_sent w' = messages_sent w @ notices (opened w) c \<and>
     user_vks (committed w') = user_vks (committed w) \<and>
     processed (ledger_in (opened w)) (cm_event_uuid c) (due_recipients (opened w) c) bad (ledger_in w') \<and>
     due_recipients w' c = filter (\<lambda>u. u \<in> set bad) (due_recipients (opened w) c)"

lemma handledI:
  assumes "domain_ok w1" "beside_ledger w1 = beside_ledger (opened w)"
    "messages_sent w1 = messages_sent (opened w) @ notices (opened w) c"
    "processed (ledger_in (opened w)) (cm_event_uuid c) (due_recipients (opened w) c) bad (ledger_in w1)"
  shows "handled c bad w (opened (kept w1))"
proof -
  have same: "user_vks (db w1) = user_vks (db (opened w))" using assms(2) by (simp add: beside_ledger_def)
  have "due_recipients (opened (kept w1)) c = due_recipients w1 c" by (rule due_recipients_cong) simp_all
  with due_processed [OF assms(4) same] domain_ok_opened [OF domain_ok_kept [OF assms(1)]] assms(3,4) same
  show ?thesis by (simp add: handled_def)
qed

lemma handle_wp:
  assumes "accepted u decode payload headers = Some c" "domain_ok w" "room (length (cm_user_ids c)) w"
  shows "wp (NotificationCommandsSendVkHandler_handle VkbottleMessenger u decode payload headers)
    (\<lambda>_ w'. handled c [] w w')
    (\<lambda>x w'. if isinstance x VkDeliveryRetryableError then \<exists>bad. bad \<noteq> [] \<and> handled c bad w w'
       else domain_ok w' \<and> db w' = committed w' \<and> committed w' = committed w \<and>
         (\<exists>r \<in> set (due_recipients (opened w) c).
            \<not> claimable (ledger_in (opened w)) (cm_event_uuid c) r (the (reachable_at (committed w) r)))) w"
proof -
  have ok: "domain_ok (opened w)" "room (length (cm_user_ids c)) (opened w)"
    using domain_ok_opened [OF assms(2)] assms(3) by (simp_all add: room_def)
  note run = accepted_run [OF assms(1), of w]
  from deliver_wp [OF ok(1) accepted_distinct [OF assms(1)] ok(2)] show ?thesis
    by (auto simp: wp_def run handledI beside_ledger_def split: prod.splits sum.splits if_splits
        intro!: handledI domain_ok_opened)
qed

section \<open>Properties\<close>

text \<open>
  A message that is not a command, or not under its own name, reaches nobody: when the document, its
  fields or its header are invalid, or the header differs from the identity derived from the
  command, the handler raises \<open>ValueError\<close> and has touched nothing.
\<close>

lemma strangers_are_refused:
  "(\<exists>c. accepted u decode payload headers = Some c \<and>
      headers (lit ''Nats-Msg-Id'') \<noteq> None \<and>
      uuid_of_str u (the (headers (lit ''Nats-Msg-Id''))) =
        Some (build_command_msg_id (cm_callback_request_id c) VK_CHANNEL_CODE)) \<or>
   (\<exists>m. NotificationCommandsSendVkHandler_handle VkbottleMessenger u decode payload headers w = (Inl (Exn ValueError m), w))"
proof (cases "accepted u decode payload headers")
  case None
  then show ?thesis using refused_run by blast
next
  case (Some c)
  then show ?thesis by (auto simp: accepted_def split: option.splits if_splits)
qed

text \<open>
  C12. A handled command commits what it did.  When the handler answers, every recipient that was due has
  been written to once and is \<open>SENT\<close> in the committed ledger, and nobody is due any more.  When it
  raises the retryable error, the committed ledger says exactly who failed, and only they are due
  again.  On any other error nothing is committed.
\<close>

theorem handler_commits_outcome:
  assumes "accepted u decode payload headers = Some c" "domain_ok w" "room (length (cm_user_ids c)) w"
  shows "wp (NotificationCommandsSendVkHandler_handle VkbottleMessenger u decode payload headers)
    (\<lambda>_ w'. domain_ok w' \<and> messages_sent w' = messages_sent w @ notices (opened w) c \<and>
       due_recipients (opened w') c = [] \<and>
       (\<forall>r \<in> set (due_recipients (opened w) c).
          is_sent (ledger_of (vk_deliveries (committed w')) (cm_event_uuid c, r))))
    (\<lambda>x w'. domain_ok w' \<and>
       (if isinstance x VkDeliveryRetryableError
        then messages_sent w' = messages_sent w @ notices (opened w) c \<and>
          (\<exists>bad. bad \<noteq> [] \<and> set bad \<subseteq> set (due_recipients (opened w) c) \<and>
             due_recipients (opened w') c = filter (\<lambda>r. r \<in> set bad) (due_recipients (opened w) c))
        else committed w' = committed w)) w"
proof (rule wp_mono [OF handle_wp [OF assms]], goal_cases)
  case (1 _ w')
  have "due_recipients (opened w') c = due_recipients w' c"
    using 1 by (intro due_recipients_cong) (simp_all add: handled_def)
  with 1 show ?case by (auto simp: handled_def processed_def attempted_def)
next
  case (2 x w')
  show ?case
  proof (cases "isinstance x VkDeliveryRetryableError")
    case True
    with 2 obtain bad where bad: "bad \<noteq> []" "handled c bad w w'" by auto
    then have "due_recipients (opened w') c = due_recipients w' c"
      by (intro due_recipients_cong) (simp_all add: handled_def)
    with True bad show ?thesis by (auto simp: handled_def processed_def)
  next
    case False
    with 2 show ?thesis by simp
  qed
qed

text \<open>
  C13. A command the broker delivers again after it was handled writes to nobody: the handler answers
  again, sends nothing, and the committed ledger stays as it is.
\<close>

theorem redelivered_command_is_silent:
  assumes "accepted u decode payload headers = Some c" "domain_ok w" "room (length (cm_user_ids c)) w"
    and "NotificationCommandsSendVkHandler_handle VkbottleMessenger u decode payload headers w = (Inr (), w')"
    and "room (length (cm_user_ids c)) w'"
  shows "wp (NotificationCommandsSendVkHandler_handle VkbottleMessenger u decode payload headers)
    (\<lambda>_ w''. messages_sent w'' = messages_sent w' \<and>
       ledger_of (vk_deliveries (committed w'')) = ledger_of (vk_deliveries (committed w')))
    (\<lambda>x w''. False) w'"
proof -
  have h: "handled c [] w w'" by (rule wp_InrD [OF handle_wp [OF assms(1-3)] assms(4)])
  then have ok: "domain_ok w'" by (simp add: handled_def)
  have "due_recipients (opened w') c = due_recipients w' c"
    using h by (intro due_recipients_cong) (simp_all add: handled_def)
  then have none: "due_recipients (opened w') c = []" using h by (simp add: handled_def)
  show ?thesis
  proof (rule wp_mono [OF handle_wp [OF assms(1) ok assms(5)]], goal_cases)
    case (1 _ w'')
    then show ?case using none by (auto simp: handled_def notices_def processed_def)
  next
    case (2 x w'')
    then show ?case using none by (auto simp: handled_def processed_def split: if_splits)
  qed
qed

end
