(* ===== verification/Notification_Consumer.thy ===== *)
theory Notification_Consumer
  imports Nats_Client Notification_Handler
begin

text \<open>
  \<open>clients/nats/consumers/notification_commands_send_vk.py\<close>: the task that fetches commands and hands
  them to the handler, acknowledging what was handled and returning what was not.

  The handler is a parameter (\<open>VkCommandHandlerProtocol\<close>): locale \<open>command_handler\<close> states what the
  consumer needs of one, and the real handler interprets it.  The task runs until it is cancelled;
  \<open>consume\<close> is its first \<open>n\<close> rounds, with an exception as soon as one leaves the loop.
\<close>

type_synonym 'w command_handler = "byte list \<Rightarrow> (pystr \<rightharpoonup> pystr) \<Rightarrow> ('w, unit) prog"

section \<open>Start and stop\<close>

definition is_running :: "'x nats_world_scheme \<Rightarrow> bool" where
  "is_running w \<longleftrightarrow> consumer_task w = Some Task_Running"

definition consumer_start :: "nats_settings \<Rightarrow> ('x nats_world_scheme, unit) prog" where
  "consumer_start s =
     bindM (getsM is_running) (\<lambda>running.
       if running then retM ()
       else
         thenM get_jetstream
         (thenM
           (nats_call (Call_Pull_Subscribe (nats_subject_notification_commands_send_vk s)
              (nats_consumer_notification_commands_send_vk s) (nats_stream_notification_commands s)))
         (modifyM (\<lambda>w. w\<lparr>consumer_subscription := True, consumer_task := Some Task_Running\<rparr>))))"

text \<open>
  A cancelled task raises \<open>CancelledError\<close>, which is swallowed; a task that had ended with an exception
  raises that one to whoever awaits it.
\<close>

definition consumer_stop :: "('x nats_world_scheme, unit) prog" where
  "consumer_stop =
     bindM (getsM consumer_task) (\<lambda>task.
       case task of
         None \<Rightarrow> retM ()
       | Some t \<Rightarrow>
           finallyM
             (catchM
               (case t of
                  Task_Running \<Rightarrow> raiseM CancelledError []
                | Task_Ended e \<Rightarrow> throwM e)
               [CancelledError] (\<lambda>_. retM ()))
             (modifyM (\<lambda>w. w\<lparr>consumer_task := None, consumer_subscription := False\<rparr>)))"

section \<open>One message\<close>

definition process_message :: "('x nats_world_scheme) command_handler \<Rightarrow> nats_msg \<Rightarrow> ('x nats_world_scheme, unit) prog" where
  "process_message handle msg =
     (let headers = (case nm_headers msg of None \<Rightarrow> Map.empty | Some h \<Rightarrow> h) in
      bindM
        (catchM
          (thenM (handle (nm_data msg) headers) (retM True))
          [PyException]
          (\<lambda>_. thenM (nats_call (Call_Nak (nm_id msg))) (retM False)))
        (\<lambda>ok. if ok then nats_call (Call_Ack (nm_id msg)) else retM ()))"

fun process_messages ::
    "('x nats_world_scheme) command_handler \<Rightarrow> nats_msg list \<Rightarrow> ('x nats_world_scheme, unit) prog" where
  "process_messages handle [] = retM ()"
| "process_messages handle (m # ms) = thenM (process_message handle m) (process_messages handle ms)"

section \<open>The loop\<close>

text \<open>A fetch: the batch the broker has for it, or an exception.\<close>

definition fetch :: "nats_settings \<Rightarrow> ('x nats_world_scheme, nats_msg list) prog" where
  "fetch s =
     bindM (getsM (\<lambda>w. nats_messages w (nats_tick w))) (\<lambda>ms.
     thenM (nats_call (Call_Fetch (nats_consumer_fetch_batch_size s) (nats_consumer_fetch_timeout_seconds s)))
       (retM ms))"

definition consume_round ::
    "nats_settings \<Rightarrow> ('x nats_world_scheme) command_handler \<Rightarrow> ('x nats_world_scheme, unit) prog" where
  "consume_round s handle =
     bindM
       (catchM (bindM (fetch s) (\<lambda>ms. retM (Some ms)))
         [PyTimeoutError, NatsTimeoutError, CancelledError, PyException]
         (\<lambda>e. if isinstance e PyTimeoutError \<or> isinstance e NatsTimeoutError then retM None
              else if isinstance e CancelledError then throwM e
              else thenM (sleep (Finite 1)) (retM None)))
       (\<lambda>batch. case batch of None \<Rightarrow> retM () | Some ms \<Rightarrow> process_messages handle ms)"

fun consume_rounds ::
    "nat \<Rightarrow> nats_settings \<Rightarrow> ('x nats_world_scheme) command_handler \<Rightarrow> ('x nats_world_scheme, unit) prog" where
  "consume_rounds 0 s handle = retM ()"
| "consume_rounds (Suc n) s handle = thenM (consume_round s handle) (consume_rounds n s handle)"

definition consume ::
    "nat \<Rightarrow> nats_settings \<Rightarrow> ('x nats_world_scheme) command_handler \<Rightarrow> ('x nats_world_scheme, unit) prog" where
  "consume n s handle =
     bindM (getsM consumer_subscription) (\<lambda>subscribed.
       if \<not> subscribed then raiseM RuntimeError (lit ''VK notification consumer has no subscription'')
       else consume_rounds n s handle)"

text \<open>The task as the event loop runs it: an exception ends it and stays in it.\<close>

definition consumer_runs ::
    "nat \<Rightarrow> nats_settings \<Rightarrow> ('x nats_world_scheme) command_handler \<Rightarrow> 'x nats_world_scheme \<Rightarrow> 'x nats_world_scheme" where
  "consumer_runs n s handle w =
     (if is_running w
      then (case consume n s handle w of
              (Inr _, w') \<Rightarrow> w'
            | (Inl e, w') \<Rightarrow> w'\<lparr>consumer_task := Some (Task_Ended e)\<rparr>)
      else w)"

section \<open>What the consumer needs of a handler\<close>

text \<open>A handler leaves the broker alone and, if it raises, raises an ordinary exception.\<close>

definition same_broker :: "'x nats_world_scheme \<Rightarrow> 'x nats_world_scheme \<Rightarrow> bool" where
  "same_broker w w' \<longleftrightarrow> world.more w' = world.more w"

lemma same_broker_sel:
  assumes "same_broker w w'"
  shows "nats_calls w' = nats_calls w" "nats_tick w' = nats_tick w" "nats_answer w' = nats_answer w"
    "nats_messages w' = nats_messages w" "consumer_task w' = consumer_task w"
    "consumer_subscription w' = consumer_subscription w" "nats_connection w' = nats_connection w"
    "nats_jetstream w' = nats_jetstream w"
  using assms by (cases w; cases w'; simp add: same_broker_def)+

text \<open>
  The outcome of handling a message and the world after it; the answer the broker gets; and those of
  a batch, each message handled in the world its predecessors left.
\<close>

definition headers_of :: "nats_msg \<Rightarrow> pystr \<rightharpoonup> pystr" where
  "headers_of m = (case nm_headers m of None \<Rightarrow> Map.empty | Some h \<Rightarrow> h)"

definition outcome ::
    "('x nats_world_scheme) command_handler \<Rightarrow> nats_msg \<Rightarrow> 'x nats_world_scheme \<Rightarrow> bool \<times> 'x nats_world_scheme" where
  "outcome handle m w =
     (case handle (nm_data m) (headers_of m) w of (Inl e, w') \<Rightarrow> (False, w') | (Inr _, w') \<Rightarrow> (True, w'))"

definition settlement :: "nats_msg \<Rightarrow> bool \<Rightarrow> nats_call" where
  "settlement m ok = (if ok then Call_Ack (nm_id m) else Call_Nak (nm_id m))"

fun settlements ::
    "('x nats_world_scheme) command_handler \<Rightarrow> nats_msg list \<Rightarrow> 'x nats_world_scheme \<Rightarrow>
       nats_call list \<times> 'x nats_world_scheme" where
  "settlements handle [] w = ([], w)"
| "settlements handle (m # ms) w =
     (case outcome handle m w of (ok, w') \<Rightarrow>
        case settlements handle ms (called [settlement m ok] 1 w') of (cs, w'') \<Rightarrow> (settlement m ok # cs, w''))"

text \<open>
  A broker that takes every acknowledgement, and whose fetches fail in ordinary ways only: a time-out
  or another exception, but no cancellation.
\<close>

definition takes_acks :: "'x nats_world_scheme \<Rightarrow> bool" where
  "takes_acks w \<longleftrightarrow> (\<forall>t i. nats_answer w t (Call_Ack i) = None \<and> nats_answer w t (Call_Nak i) = None)"

definition calm :: "'x nats_world_scheme \<Rightarrow> bool" where
  "calm w \<longleftrightarrow> takes_acks w \<and>
     (\<forall>t b d e. nats_answer w t (Call_Fetch b d) = Some e \<longrightarrow> isinstance e PyException)"

lemma takes_acks_settlement: "takes_acks w \<Longrightarrow> nats_answer w t (settlement m ok) = None"
  by (simp add: takes_acks_def settlement_def)

lemma takes_acks_cong: "nats_answer w' = nats_answer w \<Longrightarrow> takes_acks w' = takes_acks w"
  by (simp add: takes_acks_def)

locale command_handler =
  fixes handle :: "('x nats_world_scheme) command_handler"
  assumes broker_untouched: "wp (handle d h) (\<lambda>_ w'. same_broker w w')
      (\<lambda>e w'. same_broker w w' \<and> isinstance e PyException) w"
begin

lemma outcome_same: "same_broker w (snd (outcome handle m w))"
  using broker_untouched [of "nm_data m" "headers_of m" w]
  by (auto simp: outcome_def wp_def split: prod.splits sum.splits)

lemma process_message_run:
  "process_message handle m w =
    (case outcome handle m w of (ok, w') \<Rightarrow>
       (case nats_answer w (nats_tick w) (settlement m ok) of None \<Rightarrow> Inr () | Some e \<Rightarrow> Inl e,
        called [settlement m ok] 1 w'))"
  using broker_untouched [of "nm_data m" "headers_of m" w]
  by (auto simp: process_message_def prog_simps outcome_def settlement_def nats_call_run wp_def headers_of_def
      same_broker_sel Let_def split: prod.splits sum.splits option.splits)

text \<open>
  While the broker takes the acknowledgements, every message of a batch is settled exactly once, in
  order, as its handling went; no exception of the handler ends the loop.
\<close>

lemma process_messages_run:
  assumes "takes_acks w"
  shows "process_messages handle ms w = (Inr (), snd (settlements handle ms w)) \<and>
    nats_calls (snd (settlements handle ms w)) = nats_calls w @ fst (settlements handle ms w) \<and>
    nats_answer (snd (settlements handle ms w)) = nats_answer w \<and>
    consumer_task (snd (settlements handle ms w)) = consumer_task w \<and>
    consumer_subscription (snd (settlements handle ms w)) = consumer_subscription w \<and>
    list_all2 (\<lambda>m c. c = Call_Ack (nm_id m) \<or> c = Call_Nak (nm_id m)) ms (fst (settlements handle ms w))"
  using assms
proof (induction ms arbitrary: w)
  case (Cons m ms)
  obtain ok w1 where out: "outcome handle m w = (ok, w1)" by (cases "outcome handle m w")
  have same: "same_broker w w1" using outcome_same [of w m] out by simp
  note sel = same_broker_sel [OF same]
  let ?w1 = "called [settlement m ok] 1 w1"
  have "takes_acks ?w1" using Cons.prems takes_acks_cong [of ?w1 w] sel by simp
  note IH = Cons.IH [OF this]
  have "settlement m ok = Call_Ack (nm_id m) \<or> settlement m ok = Call_Nak (nm_id m)"
    by (simp add: settlement_def)
  then show ?case
    using IH sel takes_acks_settlement [OF Cons.prems]
    by (simp add: prog_simps process_message_run out split_beta)
qed (simp add: prog_simps)

lemma consume_round_run:
  "consume_round s handle w =
    (let c = Call_Fetch (nats_consumer_fetch_batch_size s) (nats_consumer_fetch_timeout_seconds s);
         w1 = called [c] 1 w in
     case nats_answer w (nats_tick w) c of
       None \<Rightarrow> process_messages handle (nats_messages w (nats_tick w)) w1
     | Some e \<Rightarrow>
         if isinstance e PyTimeoutError \<or> isinstance e NatsTimeoutError then (Inr (), w1)
         else if isinstance e CancelledError then (Inl e, w1)
         else if isinstance e PyException then (Inr (), called [Call_Sleep (Finite 1)] 0 w1)
         else (Inl e, w1))"
  by (auto simp: consume_round_def fetch_def prog_simps nats_call_run sleep_run Let_def split: option.splits)

text \<open>Over a calm broker the task runs on, whatever the handler does with its commands.\<close>

lemma round_calm:
  assumes "calm w"
  shows "\<exists>w'. consume_round s handle w = (Inr (), w') \<and> nats_answer w' = nats_answer w \<and>
    consumer_task w' = consumer_task w \<and> consumer_subscription w' = consumer_subscription w"
proof -
  let ?c = "Call_Fetch (nats_consumer_fetch_batch_size s) (nats_consumer_fetch_timeout_seconds s)"
  show ?thesis
  proof (cases "nats_answer w (nats_tick w) ?c")
    case None
    have "takes_acks (called [?c] 1 w)" using assms takes_acks_cong [of "called [?c] 1 w" w] by (simp add: calm_def)
    from process_messages_run [OF this] None show ?thesis by (simp add: consume_round_run Let_def)
  next
    case (Some e)
    then have "isinstance e PyException" using assms by (simp add: calm_def)
    with Some show ?thesis by (simp add: consume_round_run Let_def isinstance_not_cancelled)
  qed
qed

lemma rounds_calm:
  assumes "calm w"
  shows "\<exists>w'. consume_rounds n s handle w = (Inr (), w') \<and> consumer_task w' = consumer_task w"
  using assms
proof (induction n arbitrary: w)
  case (Suc n)
  obtain w1 where w1: "consume_round s handle w = (Inr (), w1)" "nats_answer w1 = nats_answer w"
    "consumer_task w1 = consumer_task w" using round_calm [OF Suc.prems] by blast
  then have "calm w1" using Suc.prems by (simp add: calm_def takes_acks_def)
  from Suc.IH [OF this] w1 show ?case by (auto simp: prog_simps)
qed (simp add: prog_simps)

lemma refused_ack_raises:
  assumes "nats_answer w (nats_tick w) (Call_Fetch (nats_consumer_fetch_batch_size s) (nats_consumer_fetch_timeout_seconds s)) = None"
    and "nats_messages w (nats_tick w) = m # ms"
    and "outcome handle m (called [Call_Fetch (nats_consumer_fetch_batch_size s) (nats_consumer_fetch_timeout_seconds s)] 1 w) = (ok, w1)"
    and "nats_answer w (Suc (nats_tick w)) (settlement m ok) = Some e"
  shows "consume_rounds (Suc n) s handle w = (Inl e, called [settlement m ok] 1 w1)"
  using assms by (simp add: prog_simps consume_round_run process_message_run Let_def)

end

end
