(* ===== verification/Command_Service.thy ===== *)
theory Command_Service
  imports Notification_Consumer
begin

text \<open>
  The consumer of \<open>containers/application.py\<close>: the task over the real handler.

  \<open>session_only\<close> is the frame of everything a session does: it leaves the rest of the world, the
  broker among it, alone and raises only ordinary exceptions.  With it the handler is shown to be
  the \<open>command_handler\<close> the consumer needs.
\<close>

definition vk_notification_handler ::
    "ucd \<Rightarrow> (byte list \<Rightarrow> notification_command option) \<Rightarrow> ('x nats_world_scheme) command_handler" where
  "vk_notification_handler u decode = NotificationCommandsSendVkHandler_handle VkbottleMessenger u decode"

definition vk_notification_consumer ::
    "nat \<Rightarrow> nats_settings \<Rightarrow> ucd \<Rightarrow> (byte list \<Rightarrow> notification_command option) \<Rightarrow>
       'x nats_world_scheme \<Rightarrow> 'x nats_world_scheme" where
  "vk_notification_consumer n s u decode = consumer_runs n s (vk_notification_handler u decode)"

section \<open>What a session leaves alone\<close>

definition session_only :: "('x world_scheme, 'a) prog \<Rightarrow> bool" where
  "session_only m \<longleftrightarrow>
     (\<forall>w. wp m (\<lambda>_ w'. world.more w' = world.more w)
            (\<lambda>e w'. world.more w' = world.more w \<and> isinstance e PyException) w)"

lemma session_onlyD:
  "session_only m \<Longrightarrow> world.more w0 = world.more w \<Longrightarrow>
     wp m (\<lambda>_ w'. world.more w' = world.more w) (\<lambda>e w'. world.more w' = world.more w \<and> isinstance e PyException) w0"
  unfolding session_only_def by (drule spec [of _ w0]) simp

lemma session_only_step:
  "(\<And>w. world.more (snd (m w)) = world.more w) \<Longrightarrow> (\<And>w e. fst (m w) = Inl e \<Longrightarrow> isinstance e PyException) \<Longrightarrow>
     session_only m"
  by (auto simp: session_only_def wp_def split: prod.splits sum.splits) (metis fst_conv snd_conv)+

lemma session_only_bind:
  assumes "session_only m" "\<And>x. session_only (f x)"
  shows "session_only (bindM m f)"
  unfolding session_only_def
proof
  fix w
  show "wp (bindM m f) (\<lambda>_ w'. world.more w' = world.more w)
      (\<lambda>e w'. world.more w' = world.more w \<and> isinstance e PyException) w"
    unfolding wp_bind
    by (rule wp_mono [OF session_onlyD [OF assms(1) refl]]) (auto intro: session_onlyD [OF assms(2)])
qed

lemma session_only_catch:
  assumes "session_only m" "\<And>e. isinstance e PyException \<Longrightarrow> session_only (h e)"
  shows "session_only (catchM m cs h)"
  unfolding session_only_def
proof
  fix w
  show "wp (catchM m cs h) (\<lambda>_ w'. world.more w' = world.more w)
      (\<lambda>e w'. world.more w' = world.more w \<and> isinstance e PyException) w"
    unfolding wp_catch
    by (rule wp_mono [OF session_onlyD [OF assms(1) refl]]) (auto intro: session_onlyD [OF assms(2)])
qed

lemma session_only_finally:
  assumes "session_only m" "session_only f"
  shows "session_only (finallyM m f)"
  using assms
  by (auto simp: session_only_def wp_def finallyM_def split: prod.splits sum.splits)

lemma session_only_basic:
  "session_only (retM x)" "isinstance e PyException \<Longrightarrow> session_only (throwM e)" "session_only (getsM f)"
  "(\<And>w. world.more (g w) = world.more w) \<Longrightarrow> session_only (modifyM g)"
  by (simp_all add: session_only_def)

lemma session_only_then: "session_only m \<Longrightarrow> session_only n \<Longrightarrow> session_only (thenM m n)"
  unfolding thenM_def by (rule session_only_bind)

lemma session_only_world:
  "session_only (tick_read r)" "session_only fresh_uuid" "session_only (exec_write b d)" "session_only commit"
  "session_only rollback" "session_only open_session" "session_only (advisory_xact_lock x y)"
  "session_only (messages_send p t i)"
  by (auto simp: session_only_def wp_def tick_read_def fresh_uuid_def exec_write_def commit_def rollback_def
      open_session_def advisory_xact_lock_def modifyM_def messages_send_def Let_def)

lemma session_only_rows: "session_only (one_or_none rows)" "session_only (exactly_one rows)"
  by (auto simp: session_only_def one_or_none_def exactly_one_def split: list.splits)

lemmas session_onlyI =
  session_only_basic session_only_bind session_only_then session_only_catch session_only_finally
  session_only_world session_only_rows

section \<open>The handler\<close>

lemma session_only_ledger:
  "session_only (VkNotificationDeliveryRepository_claim_attempt e u p)"
  "session_only (VkNotificationDeliveryRepository_mark_sent e u)"
  "session_only (VkNotificationDeliveryRepository_mark_failed e u c)"
  unfolding VkNotificationDeliveryRepository_claim_attempt_def VkNotificationDeliveryRepository_mark_sent_def
    VkNotificationDeliveryRepository_mark_failed_def upsert_delivery_def update_delivery_def now_utc_def server_now_def
    Let_def
  by (auto intro!: session_onlyI)

lemma session_only_send: "session_only (VkbottleMessenger_send_message p t)"
  unfolding VkbottleMessenger_send_message_def random_id_def choice_index_def by (intro session_onlyI)

lemma session_only_each: "session_only (deliver_each sql_delivery_service c active failed us)"
proof (induction us arbitrary: failed)
  case (Cons u us)
  then show ?case
    by (auto simp: sql_delivery_service_def SQLAlchemyVkNotificationDeliveryRepository_def VkbottleMessenger_def
        intro!: session_onlyI session_only_ledger session_only_send split: option.splits)
qed (simp add: session_onlyI)

lemma session_only_deliver: "session_only (VkNotificationDeliveryService_deliver sql_delivery_service c)"
proof -
  have "session_only (ur_get_by_user_ids (ds_bindings sql_delivery_service) us st)" for us st
    by (simp add: sql_delivery_service_def SQLAlchemyUserVkRepository_def UserVkRepository_get_by_user_ids_def
        select_user_vks_def session_onlyI)
  then show ?thesis
    unfolding VkNotificationDeliveryService_deliver_def
    by (auto intro!: session_onlyI session_only_each)
qed

lemma more_session: "world.more (opened w) = world.more w" "world.more (kept w) = world.more w"
  by (simp_all add: opened_def kept_def)

lemma handler_session_only: "session_only (NotificationCommandsSendVkHandler_handle VkbottleMessenger u decode payload headers)"
proof (cases "accepted u decode payload headers")
  case None
  show ?thesis
    unfolding session_only_def
  proof
    fix w
    obtain m where "NotificationCommandsSendVkHandler_handle VkbottleMessenger u decode payload headers w = (Inl (Exn ValueError m), w)"
      using refused_run [OF None, of w] by blast
    then show "wp (NotificationCommandsSendVkHandler_handle VkbottleMessenger u decode payload headers) (\<lambda>_ w'. world.more w' = world.more w)
      (\<lambda>e w'. world.more w' = world.more w \<and> isinstance e PyException) w"
      by (simp add: wp_def)
  qed
next
  case (Some c)
  show ?thesis
    unfolding session_only_def
  proof
    fix w
    have d: "wp (VkNotificationDeliveryService_deliver sql_delivery_service c) (\<lambda>_ w'. world.more w' = world.more w)
        (\<lambda>e w'. world.more w' = world.more w \<and> isinstance e PyException) (opened w)"
      by (rule session_onlyD [OF session_only_deliver]) (simp add: opened_def)
    then show "wp (NotificationCommandsSendVkHandler_handle VkbottleMessenger u decode payload headers) (\<lambda>_ w'. world.more w' = world.more w)
      (\<lambda>e w'. world.more w' = world.more w \<and> isinstance e PyException) w"
      by (cases "VkNotificationDeliveryService_deliver sql_delivery_service c (opened w)")
        (auto simp: wp_def accepted_run [OF Some] more_session split: sum.splits)
  qed
qed

interpretation vk_handler: command_handler "vk_notification_handler u decode"
  unfolding vk_notification_handler_def
  by unfold_locales
    (rule wp_mono [OF session_onlyD [OF handler_session_only refl]], simp_all add: same_broker_def)

section \<open>A message and its acknowledgement\<close>

lemma called_world:
  "domain_ok (called cs n w) = domain_ok w" "room k (called cs n w) = room k w"
  "messages_sent (called cs n w) = messages_sent w" "due_recipients (opened (called cs n w)) c = due_recipients (opened w) c"
  by (simp_all add: called_def domain_ok_def fresh_supply_def undrawn_def room_def messages_sent_def due_recipients_def
      opened_def)

text \<open>What the answer to the broker says of the command and of the committed ledger.\<close>

definition answered ::
    "ucd \<Rightarrow> (byte list \<Rightarrow> notification_command option) \<Rightarrow> nats_msg \<Rightarrow> 'x nats_world_scheme \<Rightarrow> bool \<Rightarrow>
       'x nats_world_scheme \<Rightarrow> bool" where
  "answered u decode m w ok w' \<longleftrightarrow>
     (if ok
      then (\<exists>c. accepted u decode (nm_data m) (headers_of m) = Some c \<and>
              messages_sent w' = messages_sent w @ notices (opened w) c \<and> due_recipients (opened w') c = [])
      else committed w' = committed w \<or>
        (\<exists>c. accepted u decode (nm_data m) (headers_of m) = Some c \<and>
           messages_sent w' = messages_sent w @ notices (opened w) c \<and> due_recipients (opened w') c \<noteq> []))"

lemma handled_due: "handled c bad w w' \<Longrightarrow> due_recipients (opened w') c = filter (\<lambda>u. u \<in> set bad) (due_recipients (opened w) c)"
proof -
  assume h: "handled c bad w w'"
  then have "due_recipients (opened w') c = due_recipients w' c"
    by (intro due_recipients_cong) (simp_all add: handled_def)
  with h show ?thesis by (simp add: handled_def)
qed

lemma outcome_answered:
  assumes "domain_ok w" "\<And>c. accepted u decode (nm_data m) (headers_of m) = Some c \<Longrightarrow> room (length (cm_user_ids c)) w"
    and out: "outcome (vk_notification_handler u decode) m w = (ok, w')"
  shows "domain_ok w' \<and> answered u decode m w ok w'"
proof (cases "accepted u decode (nm_data m) (headers_of m)")
  case None
  obtain msg where "NotificationCommandsSendVkHandler_handle VkbottleMessenger u decode (nm_data m) (headers_of m) w = (Inl (Exn ValueError msg), w)"
    using refused_run [OF None, of w] by blast
  then show ?thesis using assms(1) out by (auto simp: outcome_def vk_notification_handler_def answered_def)
next
  case (Some c)
  let ?H = "NotificationCommandsSendVkHandler_handle VkbottleMessenger u decode (nm_data m) (headers_of m)"
  note h = handle_wp [OF Some assms(1) assms(2) [OF Some]]
  show ?thesis
  proof (cases "fst (?H w)")
    case (Inr x)
    then have run: "?H w = (Inr (), w')" "ok"
      using out by (auto simp: outcome_def vk_notification_handler_def split: prod.splits sum.splits)
    then have hd: "handled c [] w w'" using wp_InrD [OF h] by simp
    then have "due_recipients (opened w') c = []" by (simp add: handled_due)
    then show ?thesis using hd Some run(2) by (simp add: answered_def handled_def)
  next
    case (Inl e)
    then have run: "?H w = (Inl e, w')" "\<not> ok"
      using out by (auto simp: outcome_def vk_notification_handler_def split: prod.splits sum.splits)
    show ?thesis
    proof (cases "isinstance e VkDeliveryRetryableError")
      case True
      then obtain bad where bad: "bad \<noteq> []" "handled c bad w w'" using wp_InlD [OF h run(1)] by auto
      then have "set bad \<subseteq> set (due_recipients (opened w) c)" by (simp add: handled_def processed_def)
      then have "due_recipients (opened w') c \<noteq> []"
        using bad(1) handled_due [OF bad(2)] by (cases bad) (auto simp: filter_empty_conv)
      then show ?thesis using bad(2) Some run(2) by (simp add: answered_def handled_def)
    next
      case False
      then show ?thesis using wp_InlD [OF h run(1)] run(2) by (simp add: answered_def)
    qed
  qed
qed

section \<open>Properties\<close>

text \<open>
  C3. An acknowledgement means the work is done.  Of every message the broker is answered exactly once;
  it is acknowledged only when it carries a command under its own name and, in the committed ledger,
  none of its recipients is left to write to, each having been written to once; and it is returned
  only when nothing was committed or somebody is still to be written to.
\<close>

theorem acknowledged_means_done:
  assumes "domain_ok w" "takes_acks w"
    and "\<And>c. accepted u decode (nm_data m) (headers_of m) = Some c \<Longrightarrow> room (length (cm_user_ids c)) w"
  shows "wp (process_message (vk_notification_handler u decode) m)
    (\<lambda>_ w'. domain_ok w' \<and>
       (\<exists>ok. nats_calls w' = nats_calls w @ [if ok then Call_Ack (nm_id m) else Call_Nak (nm_id m)] \<and>
         answered u decode m w ok w'))
    (\<lambda>e w'. False) w"
proof -
  obtain ok w1 where out: "outcome (vk_notification_handler u decode) m w = (ok, w1)"
    by (cases "outcome (vk_notification_handler u decode) m w")
  have same: "same_broker w w1" using vk_handler.outcome_same [of w u decode m] out by simp
  have "process_message (vk_notification_handler u decode) m w = (Inr (), called [settlement m ok] 1 w1)"
    by (simp add: vk_handler.process_message_run out takes_acks_settlement [OF assms(2)])
  moreover have "domain_ok w1 \<and> answered u decode m w ok w1"
    by (rule outcome_answered [OF assms(1) assms(3) out])
  ultimately show ?thesis
    using same_broker_sel [OF same]
    by (auto simp: wp_def called_world settlement_def answered_def intro!: exI [of _ ok])
qed

text \<open>
  A batch is settled message by message: every message of a fetch is answered exactly once, in the
  order of the fetch, as its own handling went in the world its predecessors left, and no failure of
  a command ends the round.
\<close>

theorem batch_settled_in_order:
  fixes w :: "'x nats_world_scheme"
  defines "c \<equiv> \<lambda>s. Call_Fetch (nats_consumer_fetch_batch_size s) (nats_consumer_fetch_timeout_seconds s)"
  assumes "takes_acks w" "nats_answer w (nats_tick w) (c s) = None"
  shows "case settlements (vk_notification_handler u decode) (nats_messages w (nats_tick w)) (called [c s] 1 w) of
    (cs, w') \<Rightarrow>
      consume_round s (vk_notification_handler u decode) w = (Inr (), w') \<and>
      nats_calls w' = nats_calls w @ c s # cs \<and>
      list_all2 (\<lambda>m c. c = Call_Ack (nm_id m) \<or> c = Call_Nak (nm_id m)) (nats_messages w (nats_tick w)) cs"
proof -
  have "takes_acks (called [c s] 1 w)" using assms(2) takes_acks_cong [of "called [c s] 1 w" w] by simp
  from vk_handler.process_messages_run [OF this] assms(3) show ?thesis
    by (simp add: vk_handler.consume_round_run Let_def c_def split_beta)
qed

text \<open>
  C20. The task outlives its commands: while the broker takes the acknowledgements and its fetches fail in
  ordinary ways only, the task is still running after any number of rounds, whatever the messages
  were and however their handling ended.
\<close>

theorem consumer_survives:
  assumes "calm w" "is_running w" "consumer_subscription w"
  shows "is_running (vk_notification_consumer n s u decode w)"
proof -
  obtain w' where "consume_rounds n s (vk_notification_handler u decode) w = (Inr (), w')" "consumer_task w' = consumer_task w"
    using vk_handler.rounds_calm [OF assms(1)] by blast
  then show ?thesis
    using assms(2,3) by (simp add: vk_notification_consumer_def consumer_runs_def consume_def prog_simps is_running_def)
qed

text \<open>
  C21. It does not outlive a refused acknowledgement: an exception of \<open>ack\<close> or \<open>nak\<close> is raised outside
  the \<open>try\<close> of the loop, ends the task for good with the rest of the batch unanswered, and is raised
  again by \<open>stop\<close>, to whoever shuts the service down.
\<close>

theorem refused_acknowledgement_ends_consumer:
  assumes "is_running w" "consumer_subscription w"
    and "nats_answer w (nats_tick w)
      (Call_Fetch (nats_consumer_fetch_batch_size s) (nats_consumer_fetch_timeout_seconds s)) = None"
    and "nats_messages w (nats_tick w) = m # ms"
    and "\<And>c. c = Call_Ack (nm_id m) \<or> c = Call_Nak (nm_id m) \<Longrightarrow> nats_answer w (Suc (nats_tick w)) c = Some e"
    and "isinstance e PyException"
  shows "let w' = vk_notification_consumer (Suc n) s u decode w in
    \<not> is_running w' \<and> length (nats_calls w') = length (nats_calls w) + 2 \<and>
    vk_notification_consumer k s u decode w' = w' \<and>
    (case consumer_stop w' of (r, w'') \<Rightarrow> r = Inl e \<and> consumer_task w'' = None)"
proof -
  let ?c = "Call_Fetch (nats_consumer_fetch_batch_size s) (nats_consumer_fetch_timeout_seconds s)"
  obtain ok w1 where out: "outcome (vk_notification_handler u decode) m (called [?c] 1 w) = (ok, w1)"
    by (cases "outcome (vk_notification_handler u decode) m (called [?c] 1 w)")
  have same: "same_broker (called [?c] 1 w) w1" using vk_handler.outcome_same [of "called [?c] 1 w" u decode m] out by simp
  have "nats_answer w (Suc (nats_tick w)) (settlement m ok) = Some e" by (rule assms(5)) (simp add: settlement_def)
  from vk_handler.refused_ack_raises [OF assms(3,4) out this]
  have "vk_notification_consumer (Suc n) s u decode w = (called [settlement m ok] 1 w1)\<lparr>consumer_task := Some (Task_Ended e)\<rparr>"
    using assms(1,2) by (simp add: vk_notification_consumer_def consumer_runs_def consume_def prog_simps)
  then show ?thesis
    using same_broker_sel [OF same] assms(6)
    by (simp add: Let_def is_running_def vk_notification_consumer_def consumer_runs_def consumer_stop_def prog_simps
        finallyM_def isinstance_not_cancelled)
qed

text \<open>
  Starting and stopping.  A running consumer is not started twice; one that is not running subscribes
  and runs, when the client is connected and the broker accepts, and otherwise raises and stays as it
  was; and a stop of a running consumer returns and leaves neither task nor subscription.
\<close>

lemma consumer_start_stop:
  fixes w :: "'x nats_world_scheme"
  shows "case consumer_start s w of (r, w') \<Rightarrow>
    (is_running w \<longrightarrow> r = Inr () \<and> w' = w) \<and>
    (\<not> is_running w \<longrightarrow>
       (r = Inr ()) = (is_connected w \<and> nats_jetstream w \<and>
         nats_answer w (nats_tick w) (Call_Pull_Subscribe (nats_subject_notification_commands_send_vk s)
           (nats_consumer_notification_commands_send_vk s) (nats_stream_notification_commands s)) = None)) \<and>
    (r = Inr () \<longrightarrow> is_running w' \<and> (\<not> is_running w \<longrightarrow> consumer_subscription w') \<and>
       (case consumer_stop w' of (r', w'') \<Rightarrow>
          r' = Inr () \<and> consumer_task w'' = None \<and> \<not> consumer_subscription w'')) \<and>
    (r \<noteq> Inr () \<longrightarrow> consumer_task w' = consumer_task w \<and> consumer_subscription w' = consumer_subscription w)"
  by (auto simp: consumer_start_def consumer_stop_def is_running_def get_jetstream_def nats_call_run prog_simps
      finallyM_def is_connected_def called_def split: option.splits consumer_task.splits)

end
