(* ===== verification/Vk_Code.thy ===== *)
theory Vk_Code
  imports Protocols
begin

text \<open>
  \<open>core/services/vk_code.py\<close>: drawing a code, bringing what a user typed to its canonical form and
  masking a code for the journal.  What a service reads from the Python runtime (\<open>datetime.now\<close> and
  \<open>secrets.choice\<close>) is the record \<open>runtime\<close>, and locale \<open>py_runtime\<close> its contract.
\<close>

section \<open>The runtime\<close>

record 'w runtime =
  rt_now :: "('w, datetime) prog"
  rt_choice :: "nat \<Rightarrow> ('w, nat) prog"

locale py_runtime =
  fixes RT :: "'w runtime"
    and reads :: "'w \<Rightarrow> 'w \<Rightarrow> bool"
  assumes reads_refl: "reads w w"
    and reads_trans: "reads a b \<Longrightarrow> reads b c \<Longrightarrow> reads a c"
    and now_answers: "wp (rt_now RT) (\<lambda>t w'. reads w w') (\<lambda>e w'. False) w"
    and choice_answers: "0 < n \<Longrightarrow> wp (rt_choice RT n) (\<lambda>i w'. i < n \<and> reads w w') (\<lambda>e w'. False) w"

text \<open>Between two worlds nothing happened but reads of the outside.\<close>

definition only_reads :: "'x world_scheme \<Rightarrow> 'x world_scheme \<Rightarrow> bool" where
  "only_reads w w' \<longleftrightarrow> w'\<lparr>tick := 0\<rparr> = w\<lparr>tick := 0\<rparr> \<and> tick w \<le> tick w'"

definition python_runtime :: "('x world_scheme) runtime" where
  "python_runtime = \<lparr>rt_now = now_utc, rt_choice = choice_index\<rparr>"

lemma python_runtime_sel [simp]: "rt_now python_runtime = now_utc" "rt_choice python_runtime = choice_index"
  by (simp_all add: python_runtime_def)

section \<open>Codes\<close>

definition CODE_ALPHABET :: pystr where
  "CODE_ALPHABET = lit ''ABCDEFGHJKLMNPQRSTUVWXYZ23456789''"

definition MAX_GENERATION_ATTEMPTS :: nat where
  "MAX_GENERATION_ATTEMPTS = 5"

definition MASK_VISIBLE_CHARS :: nat where
  "MASK_VISIBLE_CHARS = 2"

definition secrets_choice :: "'w runtime \<Rightarrow> pystr \<Rightarrow> ('w, nat) prog" where
  "secrets_choice RT alphabet = bindM (rt_choice RT (length alphabet)) (\<lambda>i. retM (alphabet ! i))"

fun draw_chars :: "'w runtime \<Rightarrow> nat \<Rightarrow> ('w, pystr) prog" where
  "draw_chars RT 0 = retM []"
| "draw_chars RT (Suc n) =
     bindM (secrets_choice RT CODE_ALPHABET) (\<lambda>c. bindM (draw_chars RT n) (\<lambda>cs. retM (c # cs)))"

definition generate_code :: "'w runtime \<Rightarrow> int \<Rightarrow> ('w, pystr) prog" where
  "generate_code RT len =
     (if len \<le> 0 then raiseM ValueError (lit ''Confirmation code length must be positive'')
      else draw_chars RT (nat len))"

definition normalize_code :: "ucd \<Rightarrow> pystr \<Rightarrow> pystr" where
  "normalize_code u raw = py_upper u (py_strip raw)"

definition mask_code :: "pystr \<Rightarrow> pystr" where
  "mask_code code =
     (let visible = take MASK_VISIBLE_CHARS code in
      visible @ lit ''***(len='' @ str_int (int (length code)) @ lit '')'')"

section \<open>What a generated code looks like\<close>

lemma CODE_ALPHABET_bounds:
  "c \<in> set CODE_ALPHABET \<Longrightarrow> (65 \<le> c \<and> c \<le> 90) \<or> (50 \<le> c \<and> c \<le> 57)"
  by (auto simp: CODE_ALPHABET_def lit_def)

lemma length_CODE_ALPHABET [simp]: "length CODE_ALPHABET = 32"
  by (simp add: CODE_ALPHABET_def)

definition well_formed_code :: "int \<Rightarrow> pystr \<Rightarrow> bool" where
  "well_formed_code n c \<longleftrightarrow> int (length c) = n \<and> set c \<subseteq> set CODE_ALPHABET"

context py_runtime begin

lemma draw_chars_wp:
  "wp (draw_chars RT n)
     (\<lambda>c w'. length c = n \<and> set c \<subseteq> set CODE_ALPHABET \<and> reads w w') (\<lambda>e w'. False) w"
proof (induction n arbitrary: w)
  case (Suc n)
  have step: "wp (draw_chars RT n) (\<lambda>cs w'. length cs = n \<and> CODE_ALPHABET ! i \<in> set CODE_ALPHABET \<and>
      set cs \<subseteq> set CODE_ALPHABET \<and> reads w w') (\<lambda>e w'. False) w1"
    if "i < 32" "reads w w1" for i w1
    by (rule wp_mono [OF Suc.IH [of w1]])
      (use that nth_mem [of i CODE_ALPHABET] in \<open>auto intro: reads_trans\<close>)
  have "wp (rt_choice RT 32) (\<lambda>i w'. i < 32 \<and> reads w w') (\<lambda>e w'. False) w"
    by (rule choice_answers) simp
  then have "wp (rt_choice RT 32)
      (\<lambda>i. wp (draw_chars RT n) (\<lambda>cs w'. length cs = n \<and> CODE_ALPHABET ! i \<in> set CODE_ALPHABET \<and>
      set cs \<subseteq> set CODE_ALPHABET \<and> reads w w') (\<lambda>e w'. False)) (\<lambda>e w'. False) w"
    by (rule wp_mono) (use step in auto)
  then show ?case by (simp add: secrets_choice_def)
qed (simp add: reads_refl)

lemma generate_code_wp:
  "wp (generate_code RT n)
     (\<lambda>c w'. 0 < n \<and> well_formed_code n c \<and> reads w w')
     (\<lambda>e w'. n \<le> 0 \<and> exn_class e = ValueError \<and> w' = w) w"
proof (cases "n \<le> 0")
  case False
  then have "wp (draw_chars RT (nat n)) (\<lambda>c w'. 0 < n \<and> well_formed_code n c \<and> reads w w')
      (\<lambda>e w'. n \<le> 0 \<and> exn_class e = ValueError \<and> w' = w) w"
    by (intro wp_mono [OF draw_chars_wp [of "nat n" w]]) (auto simp: well_formed_code_def)
  with False show ?thesis by (simp add: generate_code_def)
qed (simp add: generate_code_def)

end

text \<open>The process' own clock and random numbers change nothing but the counter of outside reads.\<close>

interpretation python: py_runtime python_runtime only_reads
  by unfold_locales (simp_all add: python_runtime_def only_reads_def)

section \<open>Reading a code back\<close>

text \<open>Any mixture of cases of an ASCII string.\<close>

definition same_letters :: "pystr \<Rightarrow> pystr \<Rightarrow> bool" where
  "same_letters typed c \<longleftrightarrow>
     list_all2 (\<lambda>t x. t = x \<or> (65 \<le> x \<and> x \<le> 90 \<and> t = x + 32)) typed c"

lemma upper_same_letters:
  assumes "same_letters typed c" "set c \<subseteq> set CODE_ALPHABET"
  shows "py_upper u typed = c"
  using assms unfolding same_letters_def
proof (induction rule: list_all2_induct)
  case Nil
  then show ?case by (simp add: py_upper_def)
next
  case (Cons t typed x c)
  have "upper_cp u t = [x]" using Cons CODE_ALPHABET_bounds [of x] by (auto simp: upper_cp_def)
  with Cons show ?case by (simp add: py_upper_def)
qed

lemma same_letters_not_space:
  assumes "same_letters typed c" "set c \<subseteq> set CODE_ALPHABET"
  shows "\<forall>t \<in> set typed. \<not> py_isspace t"
  using assms unfolding same_letters_def
proof (induction rule: list_all2_induct)
  case (Cons t typed x c)
  have x: "(65 \<le> x \<and> x \<le> 90) \<or> (50 \<le> x \<and> x \<le> 57)" using Cons(4) CODE_ALPHABET_bounds [of x] by simp
  have "t = x \<or> t = x + 32" using Cons(1) by auto
  with x have "50 \<le> t \<and> t \<le> 122" by auto
  then have "\<not> py_isspace t" by (simp add: py_isspace_def)
  with Cons show ?case by simp
qed simp

lemma normalize_typed:
  assumes "well_formed_code n c" "0 < n" "same_letters typed c"
    "\<forall>x \<in> set before. py_isspace x" "\<forall>x \<in> set after. py_isspace x"
  shows "normalize_code u (before @ typed @ after) = c"
proof -
  have c: "set c \<subseteq> set CODE_ALPHABET" using assms(1) by (simp add: well_formed_code_def)
  have "c \<noteq> []" using assms(1,2) by (cases c) (simp_all add: well_formed_code_def)
  then have "typed \<noteq> []" using assms(3) by (auto simp: same_letters_def)
  then have "py_strip (before @ typed @ after) = typed"
    using assms(3-5) same_letters_not_space c by (intro strip_surrounded) auto
  then show ?thesis using upper_same_letters assms(3) c by (simp add: normalize_code_def)
qed

lemma normalize_well_formed:
  assumes "well_formed_code n c" "0 < n"
  shows "normalize_code u c = c"
  using normalize_typed [OF assms, of c "[]" "[]" u] by (simp add: same_letters_def list_all2_same)

text \<open>
  A user who types a generated code, in any mixture of cases and with white space around it, is
  understood: normalisation gives the code back.
\<close>

theorem normalize_recovers_code:
  assumes "well_formed_code n c" "0 < n" "same_letters typed c"
    "\<forall>x \<in> set before. py_isspace x" "\<forall>x \<in> set after. py_isspace x"
  shows "normalize_code u (before @ typed @ after) = c"
  by (rule normalize_typed [OF assms])

theorem normalize_recovers_code_witness:
  "\<forall>u. normalize_code u (lit '' ab2z '' ) = lit ''AB2Z''"
proof
  fix u
  show "normalize_code u (lit '' ab2z '' ) = lit ''AB2Z''"
    using normalize_recovers_code
      [where n = 4 and c = "lit ''AB2Z''" and typed = "lit ''ab2z''" and before = "lit '' ''"
        and after = "lit '' ''" and u = u]
    by (simp add: well_formed_code_def same_letters_def CODE_ALPHABET_def py_isspace_def lit_def)
qed

section \<open>The code a run draws\<close>

definition drawn_code :: "nat \<Rightarrow> nat \<Rightarrow> 'x world_scheme \<Rightarrow> pystr" where
  "drawn_code n t w = map (\<lambda>k. CODE_ALPHABET ! (random w (t + k) mod 32)) [0..<n]"

lemma draw_chars_run: "draw_chars python_runtime n w = (Inr (drawn_code n (tick w) w), w\<lparr>tick := tick w + n\<rparr>)"
proof (induction n arbitrary: w)
  case (Suc n)
  have "map (\<lambda>k. CODE_ALPHABET ! (random w (tick w + k) mod 32)) [0..<Suc n] =
      CODE_ALPHABET ! (random w (tick w) mod 32) #
      map (\<lambda>k. CODE_ALPHABET ! (random w (Suc (tick w) + k) mod 32)) [0..<n]"
    by (simp add: upt_conv_Cons map_Suc_upt [symmetric] comp_def del: upt_Suc)
  then show ?case
    by (simp add: Suc secrets_choice_def prog_simps drawn_code_def del: upt_Suc)
qed (simp add: prog_simps drawn_code_def)

lemma drawn_code_well_formed: "well_formed_code (int n) (drawn_code n t w)"
  by (auto simp: well_formed_code_def drawn_code_def)

section \<open>Masking\<close>

lemma takeWhile_digits:
  "\<forall>d \<in> set a. 48 \<le> d \<and> d \<le> 57 \<Longrightarrow> \<not> (48 \<le> x \<and> x \<le> 57) \<Longrightarrow>
    takeWhile (\<lambda>d. 48 \<le> d \<and> d \<le> (57 :: nat)) (a @ x # b) = a"
  by (induction a) auto

text \<open>
  The mask of a code says its first two characters and its length and nothing else: two codes
  have the same mask exactly when they agree on these.
\<close>

lemma mask_code_discloses:
  "mask_code c = mask_code d \<longleftrightarrow> take 2 c = take 2 d \<and> length c = length d"
proof
  let ?digit = "\<lambda>d. 48 \<le> d \<and> d \<le> (57 :: nat)"
  have dig: "takeWhile ?digit (rev (str_nat n) @ 61 # b) = rev (str_nat n)" for n b
    using str_nat_digits by (intro takeWhile_digits) auto
  have rev_mask: "rev (mask_code x) = 41 # rev (str_nat (length x)) @ 61 # rev (lit ''***(len'') @ rev (take 2 x)" for x
    by (simp add: mask_code_def MASK_VISIBLE_CHARS_def str_int_def lit_def)
  assume "mask_code c = mask_code d"
  then have e: "rev (str_nat (length c)) @ 61 # rev (lit ''***(len'') @ rev (take 2 c) =
      rev (str_nat (length d)) @ 61 # rev (lit ''***(len'') @ rev (take 2 d)"
    using rev_mask [of c] rev_mask [of d] by simp
  from arg_cong [OF this, of "takeWhile ?digit"] have "rev (str_nat (length c)) = rev (str_nat (length d))"
    unfolding dig .
  then have l: "length c = length d" by simp
  with e show "take 2 c = take 2 d \<and> length c = length d" by simp
qed (simp add: mask_code_def MASK_VISIBLE_CHARS_def)

end
