(* ===== verification/Binding_Service.thy ===== *)
theory Binding_Service
  imports Vk_Code Vk_Client
begin

text \<open>
  \<open>core/services/vk_binding.py\<close>: \<open>VkBindingService\<close>, which reads bindings, issues codes and unlinks.

  The service takes the repositories, the messenger and the settings it is constructed with, over a
  world it knows nothing about.  What rests on the contracts alone (\<open>ensure_binding\<close>, the search
  for an unused code) is proved in their locales; the behaviour on the database is proved for
  \<open>sql_binding_service\<close>, the service the container builds.
\<close>

record 'w vk_binding_service =
  bs_user_vk_repo :: "'w user_vk_repository"
  bs_confirmation_repo :: "'w vk_confirmation_repository"
  bs_vk_log_repo :: "'w vk_log_repository"
  bs_ttl_minutes :: int
  bs_code_length :: int
  bs_messenger :: "'w vk_messenger option"
  bs_runtime :: "'w runtime"

record issued_confirmation =
  ic_code :: pystr
  ic_expires_at :: datetime
  ic_state :: pystr

definition ACTION_ISSUE :: pystr where
  "ACTION_ISSUE = lit ''vk_issue_confirmation''"

definition ACTION_UNLINK :: pystr where
  "ACTION_UNLINK = lit ''vk_unlink''"

definition VkBindingService_get_binding ::
    "'w vk_binding_service \<Rightarrow> uuid \<Rightarrow> ('w, user_vk option) prog" where
  "VkBindingService_get_binding S user_id = ur_get_by_user_id (bs_user_vk_repo S) user_id"

definition VkBindingService_get_bindings ::
    "'w vk_binding_service \<Rightarrow> uuid list \<Rightarrow> pystr option \<Rightarrow> ('w, user_vk list) prog" where
  "VkBindingService_get_bindings S user_ids state =
     ur_get_by_user_ids (bs_user_vk_repo S) user_ids state"

definition VkBindingService_ensure_binding ::
    "'w vk_binding_service \<Rightarrow> uuid \<Rightarrow> ('w, user_vk \<times> bool) prog" where
  "VkBindingService_ensure_binding S user_id =
     bindM (ur_get_by_user_id (bs_user_vk_repo S) user_id) (\<lambda>current.
       case current of
         Some r \<Rightarrow> retM (r, False)
       | None \<Rightarrow>
           catchM
             (bindM (ur_create (bs_user_vk_repo S) user_id) (\<lambda>r. retM (r, True)))
             [AlreadyExistsError]
             (\<lambda>e. bindM (ur_get_by_user_id (bs_user_vk_repo S) user_id) (\<lambda>existing.
                case existing of None \<Rightarrow> throwM e | Some r \<Rightarrow> retM (r, False))))"

fun create_unique_code_from :: "'w vk_binding_service \<Rightarrow> nat \<Rightarrow> ('w, pystr) prog" where
  "create_unique_code_from S 0 = raiseM ConflictError msg_no_unique_code"
| "create_unique_code_from S (Suc attempts) =
     bindM (generate_code (bs_runtime S) (bs_code_length S)) (\<lambda>code.
     bindM (cr_get_by_code (bs_confirmation_repo S) code) (\<lambda>taken.
       if taken = None then retM code else create_unique_code_from S attempts))"

definition VkBindingService_create_unique_code ::
    "'w vk_binding_service \<Rightarrow> uuid \<Rightarrow> ('w, pystr) prog" where
  "VkBindingService_create_unique_code S user_vk_id =
     create_unique_code_from S MAX_GENERATION_ATTEMPTS"

definition VkBindingService_issue_confirmation ::
    "'w vk_binding_service \<Rightarrow> uuid \<Rightarrow> ('w, issued_confirmation) prog" where
  "VkBindingService_issue_confirmation S user_id =
     bindM (VkBindingService_ensure_binding S user_id) (\<lambda>(binding, created).
       let state = uv_state binding;
           details = [(lit ''user_id'', uuid_str user_id), (lit ''user_vk_id'', uuid_str (uv_id binding))]
       in
       if state = STATE_ACTIVE
       then thenM (lr_log_action (bs_vk_log_repo S) ACTION_ISSUE (lit ''conflict_active'') (Some details))
              (raiseM ConflictError msg_conflict_active)
       else if state = STATE_BLOCKED
       then thenM (lr_log_action (bs_vk_log_repo S) ACTION_ISSUE (lit ''conflict_blocked'') (Some details))
              (raiseM ConflictError msg_conflict_blocked)
       else
         let record_id = uv_id binding in
         thenM (cr_invalidate_previous (bs_confirmation_repo S) record_id)
         (bindM (VkBindingService_create_unique_code S record_id) (\<lambda>code.
          bindM (bindM (rt_now (bs_runtime S)) (\<lambda>now. add_minutes now (bs_ttl_minutes S))) (\<lambda>expires_at.
          bindM (cr_create (bs_confirmation_repo S) record_id code expires_at) (\<lambda>confirmation.
          thenM
            (lr_log_action (bs_vk_log_repo S) ACTION_ISSUE (lit ''success'')
               (Some [(lit ''user_id'', uuid_str user_id), (lit ''user_vk_id'', uuid_str record_id),
                      (lit ''code'', mask_code code)]))
            (retM \<lparr>ic_code = code, ic_expires_at = cf_expires_at confirmation, ic_state = state\<rparr>))))))"

definition VkBindingService_notify_unlinked ::
    "'w vk_binding_service \<Rightarrow> pystr \<Rightarrow> int option \<Rightarrow> ('w, unit) prog" where
  "VkBindingService_notify_unlinked S previous_state peer_id =
     (case (bs_messenger S, peer_id) of
        (Some m, Some p) \<Rightarrow>
          if previous_state \<noteq> STATE_ACTIVE then retM ()
          else catchM (thenM (ms_send_message m p UNLINK_MESSAGE) (retM ()))
                 [PyException] (\<lambda>_. retM ())
      | _ \<Rightarrow> retM ())"

definition VkBindingService_unlink :: "'w vk_binding_service \<Rightarrow> uuid \<Rightarrow> ('w, bool) prog" where
  "VkBindingService_unlink S user_id =
     bindM (ur_get_by_user_id (bs_user_vk_repo S) user_id) (\<lambda>found.
       case found of
         None \<Rightarrow>
           thenM (lr_log_action (bs_vk_log_repo S) ACTION_UNLINK (lit ''noop'')
                    (Some [(lit ''user_id'', uuid_str user_id)]))
             (retM False)
       | Some binding \<Rightarrow>
           let record_id = uv_id binding; previous_state = uv_state binding; peer_id = uv_peer_id binding in
           thenM (cr_invalidate_previous (bs_confirmation_repo S) record_id)
           (thenM (ur_soft_delete (bs_user_vk_repo S) user_id)
           (thenM
             (lr_log_action (bs_vk_log_repo S) ACTION_UNLINK (lit ''success'')
               (Some [(lit ''user_id'', uuid_str user_id), (lit ''user_vk_id'', uuid_str record_id),
                      (lit ''previous_state'', previous_state)]))
           (thenM (VkBindingService_notify_unlinked S previous_state peer_id)
             (retM True)))))"

section \<open>On the contracts\<close>

context user_vk_store begin

text \<open>
  \<open>ensure_binding\<close> answers the live binding of the owner, creating it only when there is none; the
  one error left is a concurrent insertion whose row cannot be seen.
\<close>

lemma ensure_binding_wp:
  assumes "ok w" "bs_user_vk_repo S = R"
  shows "wp (VkBindingService_ensure_binding S u)
    (\<lambda>(b, created) w'. ok w' \<and> find (owned_by u) (rows w') = Some b \<and>
       (created \<longrightarrow> find (owned_by u) (rows w) = None \<and> uv_state b = STATE_PENDING \<and> uv_peer_id b = None \<and>
          rows w' = rows w @ [b] \<and> other w' = other w) \<and>
       (find (owned_by u) (rows w) \<noteq> None \<longrightarrow> w' = w))
    (\<lambda>e w'. ok w' \<and> isinstance e AlreadyExistsError \<and> find (owned_by u) (rows w) = None) w"
  (is "wp _ (?Q w) (?E w) w")
proof -
  have get: "wp (ur_get_by_user_id R u) Q E w' = Q (find (owned_by u) (rows w')) w'" if "ok w'" for Q E w'
    by (rule wp_Inr) (rule get_by_user_id [OF that])
  show ?thesis
proof (cases "find (owned_by u) (rows w)")
  case None
  have "wp (ur_create R u)
      (\<lambda>r w'. ok w' \<and> find (owned_by u) (rows w') = Some r \<and> uv_state r = STATE_PENDING \<and>
         uv_peer_id r = None \<and> rows w' = rows w @ [r] \<and> other w' = other w)
      (\<lambda>e w'. ok w' \<and> isinstance e AlreadyExistsError) w"
    by (rule wp_mono [OF create [OF assms(1)]]) (use None in \<open>auto simp: find_append\<close>)
  then have "wp (ur_create R u)
      (\<lambda>r w'. ok w' \<and> find (owned_by u) (rows w') = Some r \<and> uv_state r = STATE_PENDING \<and>
         uv_peer_id r = None \<and> rows w' = rows w @ [r] \<and> other w' = other w)
      (\<lambda>e. upon (isinstance e AlreadyExistsError)
         (wp (ur_get_by_user_id R u)
           (\<lambda>existing. wp (case existing of None \<Rightarrow> throwM e | Some r \<Rightarrow> retM (r, False)) (?Q w) (?E w)) (?E w))
         (?E w e)) w"
    by (rule wp_mono) (auto simp: get None split: option.splits)
  then show ?thesis
    by (simp add: VkBindingService_ensure_binding_def assms(2) get [OF assms(1)] None)
next
  case (Some b)
  then show ?thesis
    by (simp add: VkBindingService_ensure_binding_def assms get [OF assms(1)])
qed
qed

end

locale code_issuer = code_store C codes ok + py_runtime RT reads
  for C :: "'w vk_confirmation_repository" and codes ok and RT :: "'w runtime" and reads +
  assumes reads_ok: "ok w \<Longrightarrow> reads w w' \<Longrightarrow> ok w' \<and> codes w' = codes w"
begin

text \<open>The code found is in use nowhere; after the last attempt the search gives up.\<close>

lemma create_unique_code_wp:
  assumes "ok w" "bs_confirmation_repo S = C" "bs_runtime S = RT"
  shows "wp (VkBindingService_create_unique_code S i)
    (\<lambda>c w'. reads w w' \<and> well_formed_code (bs_code_length S) c \<and> 0 < bs_code_length S \<and>
       c \<notin> cf_code ` set (codes w))
    (\<lambda>e w'. reads w w' \<and> (exn_class e = ConflictError \<or> bs_code_length S \<le> 0 \<and> exn_class e = ValueError)) w"
proof -
  have "wp (create_unique_code_from S n)
      (\<lambda>c w'. reads w w' \<and> well_formed_code (bs_code_length S) c \<and> 0 < bs_code_length S \<and>
         c \<notin> cf_code ` set (codes w))
      (\<lambda>e w'. reads w w' \<and> (exn_class e = ConflictError \<or> bs_code_length S \<le> 0 \<and> exn_class e = ValueError)) w"
    for n using assms(1)
  proof (induction n arbitrary: w)
    case 0
    then show ?case by (simp add: reads_refl)
  next
    case (Suc n)
    let ?Q = "\<lambda>w c w'. reads w w' \<and> well_formed_code (bs_code_length S) c \<and> 0 < bs_code_length S \<and>
         c \<notin> cf_code ` set (codes w)"
    let ?E = "\<lambda>w e w'. reads w w' \<and>
         (exn_class e = ConflictError \<or> bs_code_length S \<le> 0 \<and> exn_class e = ValueError)"
    have later: "wp (create_unique_code_from S n) (?Q w) (?E w) w'" if "reads w w'" for w'
      by (rule wp_mono [OF Suc.IH [of w']])
        (use reads_ok [OF Suc.prems that] that in \<open>auto intro: reads_trans\<close>)
    have hit: "wp (cr_get_by_code C c)
        (\<lambda>taken. upon (taken = None) (?Q w c) (wp (create_unique_code_from S n) (?Q w) (?E w))) (?E w) w'"
      if "0 < bs_code_length S" "well_formed_code (bs_code_length S) c" "reads w w'" for c w'
    proof -
      have ok: "ok w'" "codes w' = codes w" using reads_ok [OF Suc.prems that(3)] by simp_all
      have "wp (cr_get_by_code C c) Q E w' = Q (find (\<lambda>r. cf_code r = c) (codes w')) w'" for Q E
        by (rule wp_Inr) (rule get_by_code [OF ok(1)])
      then show ?thesis using that ok later by (auto simp: find_None_iff)
    qed
    have "wp (generate_code RT (bs_code_length S))
        (\<lambda>c. wp (cr_get_by_code C c)
          (\<lambda>taken. upon (taken = None) (?Q w c) (wp (create_unique_code_from S n) (?Q w) (?E w))) (?E w))
        (?E w) w"
      by (rule wp_mono [OF generate_code_wp]) (use hit in \<open>auto simp: reads_refl\<close>)
    then show ?case by (simp add: assms(2,3))
  qed
  then show ?thesis by (simp add: VkBindingService_create_unique_code_def)
qed

end

interpretation sql_issuer: code_issuer
  SQLAlchemyVkConfirmationRepository "\<lambda>w. vk_confirmations (db w)" "\<lambda>w. db_ok (db w)" python_runtime only_reads
proof unfold_locales
  fix w w' :: "'x world_scheme"
  assume a: "db_ok (db w)" "only_reads w w'"
  then have "db (w'\<lparr>tick := 0\<rparr>) = db (w\<lparr>tick := 0\<rparr>)" by (simp only: only_reads_def)
  then show "db_ok (db w') \<and> vk_confirmations (db w') = vk_confirmations (db w)" using a by simp
qed

context messenger begin

text \<open>Telling the user about the unlinking never fails, whatever the messenger answers.\<close>

lemma notify_unlinked_wp:
  assumes "bs_messenger S = Some M" "quiet w w"
  shows "wp (VkBindingService_notify_unlinked S st p) (\<lambda>_ w'. quiet w w') (\<lambda>e w'. False) w"
proof (cases p)
  case None
  then show ?thesis using assms by (simp add: VkBindingService_notify_unlinked_def)
next
  case (Some q)
  have "wp (ms_send_message M q UNLINK_MESSAGE) (\<lambda>_ w'. quiet w w')
      (\<lambda>e. upon (isinstance e PyException) (quiet w) (\<lambda>w'. False)) w"
    by (rule wp_mono [OF send_answers]) auto
  then show ?thesis using assms Some by (auto simp: VkBindingService_notify_unlinked_def)
qed

end

section \<open>On the database\<close>

definition sql_binding_service ::
    "int \<Rightarrow> int \<Rightarrow> ('x world_scheme) vk_messenger option \<Rightarrow> ('x world_scheme) vk_binding_service" where
  "sql_binding_service ttl_minutes code_length m =
     \<lparr>bs_user_vk_repo = SQLAlchemyUserVkRepository,
      bs_confirmation_repo = SQLAlchemyVkConfirmationRepository,
      bs_vk_log_repo = SQLAlchemyVkLogRepository,
      bs_ttl_minutes = ttl_minutes, bs_code_length = code_length, bs_messenger = m,
      bs_runtime = python_runtime\<rparr>"

lemma sql_binding_service_sel [simp]:
  "bs_user_vk_repo (sql_binding_service ttl n m) = SQLAlchemyUserVkRepository"
  "bs_confirmation_repo (sql_binding_service ttl n m) = SQLAlchemyVkConfirmationRepository"
  "bs_vk_log_repo (sql_binding_service ttl n m) = SQLAlchemyVkLogRepository"
  "bs_ttl_minutes (sql_binding_service ttl n m) = ttl"
  "bs_code_length (sql_binding_service ttl n m) = n"
  "bs_messenger (sql_binding_service ttl n m) = m"
  "bs_runtime (sql_binding_service ttl n m) = python_runtime"
  by (simp_all add: sql_binding_service_def)

lemma only_readsD:
  assumes "only_reads w w'"
  shows "db w' = db w" "committed w' = committed w" "outbox w' = outbox w" "uuids w' = uuids w"
    "clock w' = clock w" "drawn w' = drawn w"
proof -
  have "w'\<lparr>tick := 0\<rparr> = w\<lparr>tick := 0\<rparr>" using assms by (simp add: only_reads_def)
  note eq = arg_cong [OF \<open>w'\<lparr>tick := 0\<rparr> = w\<lparr>tick := 0\<rparr>\<close>]
  from eq [of db] show "db w' = db w" by simp
  from eq [of drawn] show "drawn w' = drawn w" by simp
  from eq [of committed] show "committed w' = committed w" by simp
  from eq [of outbox] show "outbox w' = outbox w" by simp
  from eq [of uuids] show "uuids w' = uuids w" by simp
  from eq [of clock] show "clock w' = clock w" by simp
qed

lemma domain_ok_reads: "domain_ok w \<Longrightarrow> only_reads w w' \<Longrightarrow> domain_ok w'"
  by (erule domain_ok_irrelevant) (simp_all add: only_readsD)

lemma wp_add_minutes:
  "wp (add_minutes t m) Q E w =
     (let t' = t + m * 60000000 in
      if datetime_min \<le> t' \<and> t' \<le> datetime_max then Q t' w
      else E (Exn OverflowError (lit ''date value out of range'')) w)"
  by (auto simp: add_minutes_def Let_def)

lemma owned_unique:
  assumes "db_ok d" "find (owned_by u) (user_vks d) = Some b"
  shows "b \<in> set (user_vks d)" "owned_by u b" "filter (owned_by u) (user_vks d) = [b]"
proof -
  show b: "b \<in> set (user_vks d)" "owned_by u b" using assms(2) by (auto simp: find_Some_iff)
  show "filter (owned_by u) (user_vks d) = [b]"
    by (rule filter_unique [OF user_vks_unique(2) [OF assms(1)], where k = u and r = b])
      (use b in \<open>auto simp: owned_by_def\<close>)
qed

lemma issue_log_fits [simp]:
  "log_fits ACTION_ISSUE (lit ''success'')" "log_fits ACTION_ISSUE (lit ''conflict_active'')"
  "log_fits ACTION_ISSUE (lit ''conflict_blocked'')" "log_fits ACTION_UNLINK (lit ''success'')"
  "log_fits ACTION_UNLINK (lit ''noop'')"
  by (simp_all add: log_fits_def fits_varchar_def ACTION_ISSUE_def ACTION_UNLINK_def)

lemma ensure_existing_run:
  assumes "domain_ok w" "find (owned_by u) (user_vks (db w)) = Some b"
  shows "VkBindingService_ensure_binding (sql_binding_service ttl n m) u w = (Inr (b, False), w)"
  using get_by_user_id_run [OF domain_okD(1) [OF assms(1)], of u] assms(2)
  by (simp add: VkBindingService_ensure_binding_def prog_simps)

lemma ensure_fresh_run:
  assumes "domain_ok w" "room 1 w" "find (owned_by u) (user_vks (db w)) = None"
  shows "VkBindingService_ensure_binding (sql_binding_service ttl n m) u w =
    (Inr (fresh_binding u w, True), added_binding u w)"
  using get_by_user_id_run [OF domain_okD(1) [OF assms(1)], of u] create_fresh_run [OF assms] assms(3)
  by (simp add: VkBindingService_ensure_binding_def prog_simps)

text \<open>A first request creates the binding and goes on as if it had been there.\<close>

lemma issue_fresh_run:
  assumes "domain_ok w" "room 1 w" "find (owned_by u) (user_vks (db w)) = None"
  shows "VkBindingService_issue_confirmation (sql_binding_service ttl n m) u w =
    VkBindingService_issue_confirmation (sql_binding_service ttl n m) u (added_binding u w)"
proof -
  have "find (owned_by u) (user_vks (db (added_binding u w))) = Some (fresh_binding u w)"
    using assms(3) by (simp add: find_append)
  from ensure_existing_run [OF domain_ok_added_binding [OF assms] this] ensure_fresh_run [OF assms]
  show ?thesis by (simp add: VkBindingService_issue_confirmation_def prog_simps)
qed

definition issue_details :: "uuid \<Rightarrow> uuid \<Rightarrow> details" where
  "issue_details u i = [(lit ''user_id'', uuid_str u), (lit ''user_vk_id'', uuid_str i)]"

lemma issue_active_run:
  assumes "domain_ok w" "find (owned_by u) (user_vks (db w)) = Some b" "uv_state b = STATE_ACTIVE" "room 2 w"
  shows "VkBindingService_issue_confirmation (sql_binding_service ttl n m) u w =
    (Inl (Exn ConflictError msg_conflict_active),
     append_log ACTION_ISSUE (lit ''conflict_active'') (issue_details u (uv_id b)) w)"
  using ensure_existing_run [OF assms(1,2), of ttl n m] assms(3)
    log_action_run [OF domain_okD(1,3) [OF assms(1)], of ACTION_ISSUE "lit ''conflict_active''"
      "Some (issue_details u (uv_id b))"] assms(4)
  by (auto simp: VkBindingService_issue_confirmation_def prog_simps Let_def issue_details_def)

lemma issue_blocked_run:
  assumes "domain_ok w" "find (owned_by u) (user_vks (db w)) = Some b" "uv_state b = STATE_BLOCKED" "room 2 w"
  shows "VkBindingService_issue_confirmation (sql_binding_service ttl n m) u w =
    (Inl (Exn ConflictError msg_conflict_blocked),
     append_log ACTION_ISSUE (lit ''conflict_blocked'') (issue_details u (uv_id b)) w)"
  using ensure_existing_run [OF assms(1,2), of ttl n m] assms(3)
    log_action_run [OF domain_okD(1,3) [OF assms(1)], of ACTION_ISSUE "lit ''conflict_blocked''"
      "Some (issue_details u (uv_id b))"] assms(4)
  by (auto simp: VkBindingService_issue_confirmation_def prog_simps Let_def issue_details_def)

text \<open>The unused codes of one binding used up, those of every other left as they are.\<close>

definition used_up :: "uuid \<Rightarrow> datetime \<Rightarrow> vk_confirmation list \<Rightarrow> vk_confirmation list" where
  "used_up i t = map (\<lambda>x. if cf_user_vk_id x = i \<and> cf_used_at x = None then x\<lparr>cf_used_at := Some t\<rparr> else x)"

lemma invalidated_used_up:
  "vk_confirmations (db (invalidated i w)) = used_up i (clock w (tick w)) (vk_confirmations (db w))"
  by (simp add: used_up_def update_where_def unused_of_def with_used_def)

lemma used_up_codes: "cf_code ` set (used_up i t rows) = cf_code ` set rows"
  by (induction rows) (auto simp: used_up_def)

lemma used_up_none: "filter (unused_of i) (used_up i t rows) = []"
  by (induction rows) (auto simp: used_up_def unused_of_def)

text \<open>What a successful issue leaves behind.\<close>

definition issued ::
    "int \<Rightarrow> int \<Rightarrow> uuid \<Rightarrow> 'x world_scheme \<Rightarrow> issued_confirmation \<Rightarrow> 'x world_scheme \<Rightarrow> bool" where
  "issued ttl n u w r w' \<longleftrightarrow>
     domain_ok w' \<and> committed w' = committed w \<and> outbox w' = outbox w \<and> ic_state r = STATE_PENDING \<and>
     well_formed_code n (ic_code r) \<and> ic_code r \<notin> cf_code ` set (vk_confirmations (db w)) \<and>
     (\<exists>b c l. find (owned_by u) (user_vks (db w')) = Some b \<and> uv_state b = STATE_PENDING \<and>
        filter (unused_of (uv_id b)) (vk_confirmations (db w')) = [c] \<and>
        cf_code c = ic_code r \<and> cf_expires_at c = ic_expires_at r \<and>
        user_vks (db w') = (if find (owned_by u) (user_vks (db w)) = None then user_vks (db w) @ [b] else user_vks (db w)) \<and>
        (\<exists>s t. tick w \<le> s \<and> s < t \<and> t < tick w' \<and>
           vk_confirmations (db w') = used_up (uv_id b) (clock w s) (vk_confirmations (db w)) @ [c] \<and>
           cf_expires_at c = clock w t + ttl * 60000000) \<and>
        vk_logs (db w') = vk_logs (db w) @ [l] \<and>
        lg_details l = issue_details u (uv_id b) @ [(lit ''code'', mask_code (ic_code r))])"

lemma issue_tail_wp:
  fixes w w0 :: "'x world_scheme"
  assumes ok: "domain_ok w" and b: "find (owned_by u) (user_vks (db w)) = Some b" "uv_state b = STATE_PENDING"
    and c: "well_formed_code n c" "c \<notin> cf_code ` set (vk_confirmations (db w))"
    and old: "committed w = committed w0" "outbox w = outbox w0" "vk_logs (db w) = vk_logs (db w0)"
      "user_vks (db w) = user_vks (db w0)"
    and rows: "vk_confirmations (db w) = used_up (uv_id b) (clock w0 s) (vk_confirmations (db w0))"
    and times: "tick w0 \<le> s" "s < t" "t < tick w" "e = clock w0 t + ttl * 60000000"
    and n: "n \<le> 16" and space: "room 3 w"
  shows "wp (VkConfirmationRepository_create (uv_id b) c e)
    (\<lambda>conf. wp (VkLogRepository_log_action ACTION_ISSUE (lit ''success'')
        (Some (issue_details u (uv_id b) @ [(lit ''code'', mask_code c)])))
      (\<lambda>_. issued ttl n u w0 \<lparr>ic_code = c, ic_expires_at = cf_expires_at conf, ic_state = STATE_PENDING\<rparr>) E) E w"
proof -
  have row: "b \<in> set (user_vks (db w))" "owned_by u b"
    using owned_unique [OF domain_okD(1) [OF ok] b(1)] by simp_all
  then have aw: "awaiting (user_vks (db w)) (uv_id b)" using b by (auto simp: awaiting_def owned_by_def)
  have adm: "code_admitted (uv_id b) c (db w)"
    using c n aw by (auto simp: code_admitted_def well_formed_code_def fits_varchar_def)
  have none: "filter (unused_of (uv_id b)) (vk_confirmations (db w)) = []" by (simp add: rows used_up_none)
  have ok1: "domain_ok (added_code (uv_id b) c e w)"
    by (rule domain_ok_added_code [OF ok _ adm none]) (use space in \<open>simp add: room_def\<close>)
  have space': "room 2 (added_code (uv_id b) c e w)" "room 1 w" using space by (simp_all add: room_def)
  let ?f = "fresh_code (uv_id b) c e w"
  let ?r = "\<lparr>ic_code = c, ic_expires_at = cf_expires_at ?f, ic_state = STATE_PENDING\<rparr>"
  let ?d = "issue_details u (uv_id b) @ [(lit ''code'', mask_code c)]"
  let ?w = "append_log ACTION_ISSUE (lit ''success'') ?d (added_code (uv_id b) c e w)"
  have f: "cf_code ?f = c" "cf_expires_at ?f = e" "unused_of (uv_id b) ?f"
    by (simp_all add: fresh_code_def new_confirmation_def unused_of_def)
  have "vk_confirmations (db ?w) = used_up (uv_id b) (clock w0 s) (vk_confirmations (db w0)) @ [?f]"
    "tick w0 \<le> s" "s < t" "t < tick ?w"
    using times by (simp_all add: rows append_log_def)
  then have new: "\<exists>s t. tick w0 \<le> s \<and> s < t \<and> t < tick ?w \<and>
      vk_confirmations (db ?w) = used_up (uv_id b) (clock w0 s) (vk_confirmations (db w0)) @ [?f] \<and>
      cf_expires_at ?f = clock w0 t + ttl * 60000000"
    using times(4) f(2) by blast
  have log: "\<exists>l. vk_logs (db ?w) = vk_logs (db w0) @ [l] \<and> lg_details l = ?d"
    by (simp add: append_log_def new_log_def old)
  have vks: "user_vks (db ?w) = (if find (owned_by u) (user_vks (db w0)) = None then user_vks (db w0) @ [b] else user_vks (db w0))"
    using b(1) by (simp add: old append_log_def)
  have "issued ttl n u w0 ?r ?w"
    unfolding issued_def
  proof (intro conjI)
    show "domain_ok ?w" by (rule domain_ok_append_log [OF ok1]) (use space' in simp_all)
    show "ic_code ?r \<notin> cf_code ` set (vk_confirmations (db w0))" using c(2) by (simp add: rows used_up_codes)
    show "\<exists>b c l. find (owned_by u) (user_vks (db ?w)) = Some b \<and> uv_state b = STATE_PENDING \<and>
        filter (unused_of (uv_id b)) (vk_confirmations (db ?w)) = [c] \<and>
        cf_code c = ic_code ?r \<and> cf_expires_at c = ic_expires_at ?r \<and>
        user_vks (db ?w) = (if find (owned_by u) (user_vks (db w0)) = None then user_vks (db w0) @ [b] else user_vks (db w0)) \<and>
        (\<exists>s t. tick w0 \<le> s \<and> s < t \<and> t < tick ?w \<and>
           vk_confirmations (db ?w) = used_up (uv_id b) (clock w0 s) (vk_confirmations (db w0)) @ [c] \<and>
           cf_expires_at c = clock w0 t + ttl * 60000000) \<and>
        vk_logs (db ?w) = vk_logs (db w0) @ [l] \<and>
        lg_details l = issue_details u (uv_id b) @ [(lit ''code'', mask_code (ic_code ?r))]"
    proof -
      have find: "find (owned_by u) (user_vks (db ?w)) = Some b" "filter (unused_of (uv_id b)) (vk_confirmations (db ?w)) = [?f]"
        using b(1) none f(3) by simp_all
      from log obtain l where l: "vk_logs (db ?w) = vk_logs (db w0) @ [l]" "lg_details l = ?d" by blast
      show ?thesis
        by (rule exI [of _ b], rule exI [of _ ?f], rule exI [of _ l]) (use b(2) find new l vks f in simp)
    qed
  qed (use c old in simp_all)
  then have "wp (VkLogRepository_log_action ACTION_ISSUE (lit ''success'') (Some ?d)) (\<lambda>_. issued ttl n u w0 ?r) E
      (added_code (uv_id b) c e w)"
    by (intro wp_log_action [OF ok1]) (use space' in auto)
  then show ?thesis by (simp add: wp_add_code [OF ok space'(2) adm])
qed

lemma issue_pending_wp:
  fixes w :: "'x world_scheme"
  assumes ok: "domain_ok w" and space: "room 3 w" and b: "find (owned_by u) (user_vks (db w)) = Some b" "uv_state b = STATE_PENDING"
  shows "wp (VkBindingService_issue_confirmation (sql_binding_service ttl n m) u) (issued ttl n u w)
    (\<lambda>e w'. domain_ok w' \<and> committed w' = committed w \<and> outbox w' = outbox w \<and>
       (exn_class e = ConflictError \<or> exn_class e = OverflowError \<or> n \<le> 0 \<and> exn_class e = ValueError \<or>
        16 < n \<and> exn_class e = DataError)) w" (is "wp _ _ ?E w")
proof -
  let ?S = "sql_binding_service ttl n m" and ?w1 = "invalidated (uv_id b) w"
  have ok1: "domain_ok ?w1" by (rule domain_ok_invalidated [OF ok])
  let ?log = "\<lambda>c. VkLogRepository_log_action ACTION_ISSUE (lit ''success'')
        (Some [(lit ''user_id'', uuid_str u), (lit ''user_vk_id'', uuid_str (uv_id b)), (lit ''code'', mask_code c)])"
  let ?tail = "\<lambda>c e. wp (VkConfirmationRepository_create (uv_id b) c e)
      (\<lambda>conf. wp (?log c)
        (\<lambda>_. issued ttl n u w \<lparr>ic_code = c, ic_expires_at = cf_expires_at conf, ic_state = STATE_PENDING\<rparr>) ?E) ?E"
  have tail: "?tail c e w2"
    if w2: "only_reads ?w1 w2" and c: "well_formed_code n c" "c \<notin> cf_code ` set (vk_confirmations (db ?w1))"
      and t: "tick ?w1 \<le> t" "t < tick w2" "e = clock w t + ttl * 60000000"
    for c e w2 t
  proof (cases "n \<le> 16")
    case True
    have ok2: "domain_ok w2" by (rule domain_ok_reads [OF ok1 w2])
    have rows: "vk_confirmations (db w2) = used_up (uv_id b) (clock w (tick w)) (vk_confirmations (db w))"
      by (simp only: only_readsD [OF w2] invalidated_used_up)
    have "tick w < t" "t < tick w2" using t by simp_all
    from issue_tail_wp [OF ok2 _ b(2) c(1) _ _ _ _ _ rows order_refl this t(3) True, of u ?E] show ?thesis
      using b(1) c(2) space by (simp add: only_readsD [OF w2] issue_details_def room_def)
  next
    case False
    have ok2: "domain_ok w2" by (rule domain_ok_reads [OF ok1 w2])
    have ok3: "domain_ok (w2\<lparr>tick := Suc (tick w2), drawn := Suc (drawn w2)\<rparr>)"
      by (rule domain_ok_irrelevant [OF ok2]) simp_all
    have "\<not> fits_varchar 16 c" using c False by (simp add: well_formed_code_def fits_varchar_def)
    with ok2 ok3 False show ?thesis by (simp add: wp_add_code_misfit only_readsD [OF w2])
  qed
  have now: "wp (add_minutes (clock w t) ttl) (?tail c) ?E w2"
    if "only_reads ?w1 w2" "well_formed_code n c" "c \<notin> cf_code ` set (vk_confirmations (db ?w1))"
      "tick ?w1 \<le> t" "t < tick w2" for t c w2
    using tail [OF that refl] domain_ok_reads [OF ok1 that(1)] only_readsD [OF that(1)]
    by (simp add: wp_add_minutes Let_def)
  have "wp (VkBindingService_create_unique_code ?S (uv_id b))
      (\<lambda>c w2. wp (add_minutes (clock w2 (tick w2)) ttl) (?tail c) ?E (w2\<lparr>tick := Suc (tick w2)\<rparr>)) ?E ?w1"
  proof (rule wp_mono [OF sql_issuer.create_unique_code_wp])
    show "db_ok (db ?w1)" using ok1 by (simp add: domain_ok_def)
  next
    fix c w2
    assume a: "only_reads ?w1 w2 \<and> well_formed_code (bs_code_length ?S) c \<and> 0 < bs_code_length ?S \<and>
      c \<notin> cf_code ` set (vk_confirmations (db ?w1))"
    then have r: "only_reads ?w1 (w2\<lparr>tick := Suc (tick w2)\<rparr>)" "tick ?w1 \<le> tick w2" by (simp_all add: only_reads_def)
    have "clock w2 = clock w" using a only_readsD(5) [of ?w1 w2] by simp
    moreover have "wp (add_minutes (clock w (tick w2)) ttl) (?tail c) ?E (w2\<lparr>tick := Suc (tick w2)\<rparr>)"
      by (rule now [OF r(1)]) (use a r in simp_all)
    ultimately show "wp (add_minutes (clock w2 (tick w2)) ttl) (?tail c) ?E (w2\<lparr>tick := Suc (tick w2)\<rparr>)" by simp
  next
    fix e w2
    assume a: "only_reads ?w1 w2 \<and> (exn_class e = ConflictError \<or> bs_code_length ?S \<le> 0 \<and> exn_class e = ValueError)"
    then have r: "only_reads ?w1 w2" by simp
    from a show "?E e w2" using domain_ok_reads [OF ok1 r] only_readsD [OF r] by auto
  qed simp_all
  then show ?thesis
    using ok b
    by (simp add: VkBindingService_issue_confirmation_def wp_Inr [where m = "VkBindingService_ensure_binding _ _",
          OF ensure_existing_run [OF ok b(1)]] wp_invalidate Let_def)
qed

text \<open>The first draw that is in use nowhere is the code issued.\<close>

lemma issue_success_run:
  fixes w :: "'x world_scheme" and ttl n :: int
  assumes ok: "domain_ok w" "room 3 w" and b: "find (owned_by u) (user_vks (db w)) = Some b" "uv_state b = STATE_PENDING"
    and n: "0 < n" "n \<le> 16"
  defines "c \<equiv> drawn_code (nat n) (Suc (tick w)) w"
    and "e \<equiv> clock w (tick w + nat n + 1) + ttl * 60000000"
  assumes c: "c \<notin> cf_code ` set (vk_confirmations (db w))" and e: "datetime_min \<le> e" "e \<le> datetime_max"
  shows "VkBindingService_issue_confirmation (sql_binding_service ttl n m) u w =
    (Inr \<lparr>ic_code = c, ic_expires_at = e, ic_state = STATE_PENDING\<rparr>,
     append_log ACTION_ISSUE (lit ''success'') (issue_details u (uv_id b) @ [(lit ''code'', mask_code c)])
       (added_code (uv_id b) c e (later (nat n + 1) (invalidated (uv_id b) w))))"
proof -
  let ?w1 = "invalidated (uv_id b) w"
  let ?w2 = "later (nat n) ?w1" and ?w3 = "later (nat n + 1) ?w1"
  have ok1: "domain_ok ?w1" by (rule domain_ok_invalidated [OF ok(1)])
  have okl: "domain_ok (later k ?w1)" for k by (rule domain_ok_later [OF ok1])
  have codes: "cf_code ` set (vk_confirmations (db ?w1)) = cf_code ` set (vk_confirmations (db w))"
    unfolding set_map [symmetric] invalidated_sel
    by (simp only: map_update_where [of cf_code "with_used (clock w (tick w))", OF with_used_fields(2)])
  have new: "find (\<lambda>r. cf_code r = c) (vk_confirmations (db ?w1)) = None"
    using c codes by (auto simp: find_None_iff)
  have gen: "generate_code python_runtime n ?w1 = (Inr c, ?w2)"
    using n by (simp add: generate_code_def draw_chars_run c_def drawn_code_def later_def invalidated_def)
  have get: "VkConfirmationRepository_get_by_code c ?w2 = (Inr None, ?w2)"
    using get_by_code_run [OF domain_okD(1) [OF okl], of c] new by (simp add: later_def)
  have wf: "well_formed_code n c" using n drawn_code_well_formed [of "nat n"] by (simp add: c_def)
  have row: "b \<in> set (user_vks (db w))" "owned_by u b"
    using owned_unique [OF domain_okD(1) [OF ok(1)] b(1)] by simp_all
  have adm: "code_admitted (uv_id b) c (db ?w3)"
    using wf n c codes row b by (auto simp: code_admitted_def well_formed_code_def fits_varchar_def awaiting_def owned_by_def later_def)
  have none: "filter (unused_of (uv_id b)) (vk_confirmations (db ?w3)) = []"
    using invalidated_none by (simp add: later_def)
  have r3: "room 1 ?w3" "room 2 (added_code (uv_id b) c e ?w3)" using ok(2) by (simp_all add: room_def later_def)
  note add = add_code_run [OF okl r3(1) adm]
  have ok4: "domain_ok (added_code (uv_id b) c e ?w3)" by (rule domain_ok_added_code [OF okl r3(1) adm none])
  obtain l where log: "VkLogRepository_log_action ACTION_ISSUE (lit ''success'')
      (Some (issue_details u (uv_id b) @ [(lit ''code'', mask_code c)])) (added_code (uv_id b) c e ?w3) =
      (Inr l, append_log ACTION_ISSUE (lit ''success'') (issue_details u (uv_id b) @ [(lit ''code'', mask_code c)])
        (added_code (uv_id b) c e ?w3))"
    using log_action_run [OF domain_okD(1,3) [OF ok4] issue_log_fits(1) r3(2),
        of "Some (issue_details u (uv_id b) @ [(lit ''code'', mask_code c)])"] by auto
  have w3: "?w2\<lparr>tick := Suc (Suc (tick w + nat n))\<rparr> = later (Suc (nat n)) ?w1"
    by (simp add: later_def invalidated_def)
  have uniq: "VkBindingService_create_unique_code (sql_binding_service ttl n m) (uv_id b) ?w1 = (Inr c, ?w2)"
    by (simp add: VkBindingService_create_unique_code_def MAX_GENERATION_ATTEMPTS_def numeral_eq_Suc prog_simps gen get)
  have date: "add_minutes (clock w (tick w + nat n + 1)) ttl ?w3 = (Inr e, ?w3)"
    using e by (simp add: add_minutes_def Let_def e_def prog_simps)
  show ?thesis
    using date add log
    by (simp add: VkBindingService_issue_confirmation_def prog_simps ensure_existing_run [OF ok(1) b(1)] b(2) Let_def
        invalidate_run [OF ok(1)] uniq w3 issue_details_def)
qed
section \<open>Unlinking\<close>

lemma unlink_absent_run:
  assumes "domain_ok w" "find (owned_by u) (user_vks (db w)) = None" "room 2 w"
  shows "VkBindingService_unlink (sql_binding_service ttl n m) u w =
    (Inr False, append_log ACTION_UNLINK (lit ''noop'') [(lit ''user_id'', uuid_str u)] w)"
  using get_by_user_id_run [OF domain_okD(1) [OF assms(1)], of u] assms(2)
    log_action_run [OF domain_okD(1,3) [OF assms(1)], of ACTION_UNLINK "lit ''noop''"
      "Some [(lit ''user_id'', uuid_str u)]"] assms(3)
  by (auto simp: VkBindingService_unlink_def prog_simps)

definition unlink_details :: "uuid \<Rightarrow> user_vk \<Rightarrow> details" where
  "unlink_details u b =
     [(lit ''user_id'', uuid_str u), (lit ''user_vk_id'', uuid_str (uv_id b)), (lit ''previous_state'', uv_state b)]"

definition unlinked :: "uuid \<Rightarrow> user_vk \<Rightarrow> 'x world_scheme \<Rightarrow> 'x world_scheme" where
  "unlinked u b w =
     append_log ACTION_UNLINK (lit ''success'') (unlink_details u b) (deleted u (invalidated (uv_id b) w))"

lemma find_deleted: "find (owned_by u) (update_where (owned_by u) (with_deleted t) rows) = None"
  by (induction rows) (simp_all add: update_where_def owned_by_def)

lemma domain_ok_unlinked:
  assumes "domain_ok w" "find (owned_by u) (user_vks (db w)) = Some b" "room 2 w"
  shows "domain_ok (deleted u (invalidated (uv_id b) w))" "domain_ok (unlinked u b w)"
proof -
  have one: "r = b" if "r \<in> set (user_vks (db w))" "owned_by u r" for r
  proof -
    have "r \<in> set (filter (owned_by u) (user_vks (db w)))" using that by simp
    then show ?thesis unfolding owned_unique(3) [OF domain_okD(1) [OF assms(1)] assms(2)] by simp
  qed
  show d: "domain_ok (deleted u (invalidated (uv_id b) w))"
    by (rule domain_ok_deleted [OF domain_ok_invalidated [OF assms(1)]])
      (use one invalidated_none in \<open>auto simp del: invalidated_sel(2)\<close>)
  show "domain_ok (unlinked u b w)"
    unfolding unlinked_def by (rule domain_ok_append_log [OF d]) (use assms(3) in \<open>simp_all add: room_def\<close>)
qed

lemma unlink_run:
  assumes "domain_ok w" "find (owned_by u) (user_vks (db w)) = Some b" "room 2 w"
  shows "VkBindingService_unlink (sql_binding_service ttl n m) u w =
    bindM (VkBindingService_notify_unlinked (sql_binding_service ttl n m) (uv_state b) (uv_peer_id b))
      (\<lambda>_. retM True) (unlinked u b w)"
proof -
  let ?w1 = "invalidated (uv_id b) w"
  note ok1 = domain_ok_invalidated [OF assms(1), of "uv_id b"]
  note ok2 = domain_ok_unlinked(1) [OF assms]
  obtain r where "VkLogRepository_log_action ACTION_UNLINK (lit ''success'') (Some (unlink_details u b))
      (deleted u ?w1) = (Inr r, unlinked u b w)"
    using log_action_run [OF domain_okD(1,3) [OF ok2], of ACTION_UNLINK "lit ''success''" "Some (unlink_details u b)"] assms(3)
    by (auto simp: unlinked_def room_def)
  then show ?thesis
    using get_by_user_id_run [OF domain_okD(1) [OF assms(1)], of u] assms(2)
      invalidate_run [OF assms(1), of "uv_id b"] deleted_run [OF ok1, of u]
    by (simp add: VkBindingService_unlink_def prog_simps Let_def thenM_def unlink_details_def)
qed

definition unlink_notice :: "user_vk option \<Rightarrow> (int \<times> pystr) list" where
  "unlink_notice found =
     (case found of None \<Rightarrow> []
      | Some b \<Rightarrow>
          (case uv_peer_id b of None \<Rightarrow> []
           | Some p \<Rightarrow> if uv_state b = STATE_ACTIVE then [(p, UNLINK_MESSAGE)] else []))"

lemma notify_unlinked_run:
  "\<exists>w'. VkBindingService_notify_unlinked (sql_binding_service ttl n (Some VkbottleMessenger)) st p w = (Inr (), w') \<and>
     only_messages w w' \<and>
     sent_between w w' (case p of None \<Rightarrow> [] | Some q \<Rightarrow> if st = STATE_ACTIVE then [(q, UNLINK_MESSAGE)] else [])"
proof -
  have "\<exists>b w'. VkbottleMessenger_send_message q UNLINK_MESSAGE w = (Inr b, w') \<and> only_messages w w' \<and>
      sent_between w w' [(q, UNLINK_MESSAGE)]" for q
    using send_message_run [of q UNLINK_MESSAGE w]
    by (auto simp: Let_def only_messages_def sent_between_def)
  then show ?thesis
    by (cases p)
      (force simp: VkBindingService_notify_unlinked_def prog_simps only_messages_refl sent_between_def)+
qed

lemma issued_added:
  assumes "find (owned_by u) (user_vks (db w)) = None" "issued ttl n u (added_binding u w) r w'"
  shows "issued ttl n u w r w'"
proof -
  let ?w = "added_binding u w"
  have fb: "find (owned_by u) (user_vks (db ?w)) = Some (fresh_binding u w)"
    using assms(1) by (simp add: find_append)
  from assms(2) obtain b c l s t where o: "find (owned_by u) (user_vks (db w')) = Some b" "uv_state b = STATE_PENDING"
      "filter (unused_of (uv_id b)) (vk_confirmations (db w')) = [c]" "cf_code c = ic_code r" "cf_expires_at c = ic_expires_at r"
      "vk_logs (db w') = vk_logs (db ?w) @ [l]" "lg_details l = issue_details u (uv_id b) @ [(lit ''code'', mask_code (ic_code r))]"
      "user_vks (db w') = (if find (owned_by u) (user_vks (db ?w)) = None then user_vks (db ?w) @ [b] else user_vks (db ?w))"
    and times: "tick ?w \<le> s" "s < t" "t < tick w'"
      "vk_confirmations (db w') = used_up (uv_id b) (clock ?w s) (vk_confirmations (db ?w)) @ [c]"
      "cf_expires_at c = clock ?w t + ttl * 60000000"
    unfolding issued_def by blast
  have same: "user_vks (db w') = user_vks (db ?w)" using o(8) fb by simp
  then have "b = fresh_binding u w" using o(1) fb by simp
  then have vks: "user_vks (db w') = user_vks (db w) @ [b]" using same by simp
  have "tick w \<le> s" using times(1) by simp
  then have ex: "\<exists>s t. tick w \<le> s \<and> s < t \<and> t < tick w' \<and>
      vk_confirmations (db w') = used_up (uv_id b) (clock w s) (vk_confirmations (db w)) @ [c] \<and>
      cf_expires_at c = clock w t + ttl * 60000000" 
    by (intro exI [of _ s] exI [of _ t]) (use times in simp)
  have "\<exists>b c l. find (owned_by u) (user_vks (db w')) = Some b \<and> uv_state b = STATE_PENDING \<and>
      filter (unused_of (uv_id b)) (vk_confirmations (db w')) = [c] \<and>
      cf_code c = ic_code r \<and> cf_expires_at c = ic_expires_at r \<and>
      user_vks (db w') = (if find (owned_by u) (user_vks (db w)) = None then user_vks (db w) @ [b] else user_vks (db w)) \<and>
      (\<exists>s t. tick w \<le> s \<and> s < t \<and> t < tick w' \<and>
         vk_confirmations (db w') = used_up (uv_id b) (clock w s) (vk_confirmations (db w)) @ [c] \<and>
         cf_expires_at c = clock w t + ttl * 60000000) \<and>
      vk_logs (db w') = vk_logs (db w) @ [l] \<and>
      lg_details l = issue_details u (uv_id b) @ [(lit ''code'', mask_code (ic_code r))]"
    by (rule exI [of _ b], rule exI [of _ c], rule exI [of _ l]) (use o(1-5) o(6,7) vks ex assms(1) in simp)
  moreover have "domain_ok w'" "committed w' = committed w" "outbox w' = outbox w" "ic_state r = STATE_PENDING"
      "well_formed_code n (ic_code r)" "ic_code r \<notin> cf_code ` set (vk_confirmations (db w))"
    using assms(2) by (simp_all add: issued_def)
  ultimately show ?thesis by (auto simp: issued_def)
qed

lemma issue_confirmation_wp:
  assumes "domain_ok w" "room 4 w"
    and "case find (owned_by u) (user_vks (db w)) of None \<Rightarrow> True | Some b \<Rightarrow> uv_state b = STATE_PENDING"
  shows "wp (VkBindingService_issue_confirmation (sql_binding_service ttl n m) u) (issued ttl n u w)
    (\<lambda>e w'. domain_ok w' \<and> committed w' = committed w \<and> outbox w' = outbox w \<and>
       (exn_class e = ConflictError \<or> exn_class e = OverflowError \<or> n \<le> 0 \<and> exn_class e = ValueError \<or>
        16 < n \<and> exn_class e = DataError)) w"
proof (cases "find (owned_by u) (user_vks (db w))")
  case (Some b)
  then show ?thesis using assms by (intro issue_pending_wp) (auto simp: room_def)
next
  case None
  have space: "room 1 w" "room 3 (added_binding u w)" using assms(2) by (simp_all add: room_def)
  have fb: "find (owned_by u) (user_vks (db (added_binding u w))) = Some (fresh_binding u w)"
    using None by (simp add: find_append)
  have "wp (VkBindingService_issue_confirmation (sql_binding_service ttl n m) u)
      (issued ttl n u (added_binding u w)) (\<lambda>e w'. domain_ok w' \<and> committed w' = committed (added_binding u w) \<and>
       outbox w' = outbox (added_binding u w) \<and>
       (exn_class e = ConflictError \<or> exn_class e = OverflowError \<or> n \<le> 0 \<and> exn_class e = ValueError \<or>
        16 < n \<and> exn_class e = DataError)) (added_binding u w)"
    by (rule issue_pending_wp [OF domain_ok_added_binding [OF assms(1) space(1) None] space(2) fb]) (rule fresh_binding_fields)
  then have "wp (VkBindingService_issue_confirmation (sql_binding_service ttl n m) u)
      (issued ttl n u w) (\<lambda>e w'. domain_ok w' \<and> committed w' = committed w \<and> outbox w' = outbox w \<and>
       (exn_class e = ConflictError \<or> exn_class e = OverflowError \<or> n \<le> 0 \<and> exn_class e = ValueError \<or>
        16 < n \<and> exn_class e = DataError)) (added_binding u w)"
    by (rule wp_mono) (simp_all add: issued_added [OF None])
  then show ?thesis
    by (simp add: wp_def issue_fresh_run [OF assms(1) space(1) None])
qed

definition unlinks :: "uuid \<Rightarrow> 'x world_scheme \<Rightarrow> bool \<Rightarrow> 'x world_scheme \<Rightarrow> bool" where
  "unlinks u w done w' \<longleftrightarrow>
     domain_ok w' \<and> committed w' = committed w \<and>
     (done \<longleftrightarrow> find (owned_by u) (user_vks (db w)) \<noteq> None) \<and>
     find (owned_by u) (user_vks (db w')) = None \<and>
     (\<forall>v. v \<noteq> u \<longrightarrow> find (owned_by v) (user_vks (db w')) = find (owned_by v) (user_vks (db w))) \<and>
     (\<forall>b. find (owned_by u) (user_vks (db w)) = Some b \<longrightarrow>
        filter (unused_of (uv_id b)) (vk_confirmations (db w')) = []) \<and>
     (case find (owned_by u) (user_vks (db w)) of
        None \<Rightarrow> vk_confirmations (db w') = vk_confirmations (db w) \<and> user_vks (db w') = user_vks (db w)
      | Some b \<Rightarrow> \<exists>t. tick w \<le> t \<and> t < tick w' \<and>
          vk_confirmations (db w') = used_up (uv_id b) (clock w t) (vk_confirmations (db w))) \<and>
     sent_between w w' (unlink_notice (find (owned_by u) (user_vks (db w))))"

lemma unlink_wp:
  assumes "domain_ok w" "room 2 w"
  shows "wp (VkBindingService_unlink (sql_binding_service ttl n (Some VkbottleMessenger)) u)
    (unlinks u w) (\<lambda>e w'. False) w"
proof (cases "find (owned_by u) (user_vks (db w))")
  case None
  then show ?thesis
    by (simp add: wp_def unlinks_def unlink_absent_run [OF assms(1) None assms(2)] domain_ok_append_log [OF assms(1) _ assms(2)] sent_between_def
        unlink_notice_def)
next
  case (Some b)
  note ok = domain_ok_unlinked(2) [OF assms(1) Some assms(2)]
  obtain w' where run: "VkBindingService_notify_unlinked (sql_binding_service ttl n (Some VkbottleMessenger))
        (uv_state b) (uv_peer_id b) (unlinked u b w) = (Inr (), w')"
    and only: "only_messages (unlinked u b w) w'"
    and sent: "sent_between (unlinked u b w) w' (unlink_notice (Some b))"
    using notify_unlinked_run [of ttl n "uv_state b" "uv_peer_id b" "unlinked u b w"]
    by (auto simp: unlink_notice_def)
  note same = only_messagesD [OF only]
  have "find (owned_by v) (user_vks (db w')) = find (owned_by v) (user_vks (db w))" if "v \<noteq> u" for v
    using that by (auto simp: same unlinked_def owned_by_def intro!: find_update_where_other)
  moreover have "find (owned_by u) (user_vks (db w')) = None"
    by (simp add: same unlinked_def find_deleted)
  moreover have "filter (unused_of (uv_id b)) (vk_confirmations (db w')) = []"
    by (simp add: same unlinked_def filter_unused_update)
  moreover have "sent_between w w' (unlink_notice (Some b))"
    using sent by (simp add: sent_between_def unlinked_def)
  moreover have "committed w' = committed w" by (simp add: same unlinked_def)
  moreover have "tick w \<le> tick w \<and> tick w < tick w' \<and>
      vk_confirmations (db w') = used_up (uv_id b) (clock w (tick w)) (vk_confirmations (db w))"
    using only_messagesD(1) [OF only] only invalidated_used_up [of "uv_id b" w]
    by (simp add: only_messages_def unlinked_def append_log_def deleted_def)
  ultimately show ?thesis
    by (auto simp: wp_def unlinks_def unlink_run [OF assms(1) Some assms(2)] prog_simps run Some domain_ok_messages [OF ok only])
qed

section \<open>Properties\<close>

text \<open>
  C8. Issuing a code to an owner who has no binding yet or a \<open>PENDING\<close> one either fails (no free code
  found in five draws, or settings under which no code can be made, stored or dated) or leaves the
  owner with exactly one unused code: the one answered, of the configured length over the alphabet,
  in use by nobody before, expiring the configured minutes after a reading of the clock within the
  call (after the one that used up the owner's former codes), and journalled only under its mask.
  The codes of every other owner are what they were, and so are the bindings, save the one created
  for an owner without any.  The invariant of the stored data holds either way.
\<close>

theorem issue_confirmation_correct:
  assumes "domain_ok w" "room 4 w"
    and "case find (owned_by u) (user_vks (db w)) of None \<Rightarrow> True | Some b \<Rightarrow> uv_state b = STATE_PENDING"
  shows "wp (VkBindingService_issue_confirmation (sql_binding_service ttl n m) u)
    (\<lambda>r w'. domain_ok w' \<and> committed w' = committed w \<and> outbox w' = outbox w \<and> ic_state r = STATE_PENDING \<and>
       well_formed_code n (ic_code r) \<and> ic_code r \<notin> cf_code ` set (vk_confirmations (db w)) \<and>
       (\<exists>b c l. find (owned_by u) (user_vks (db w')) = Some b \<and> uv_state b = STATE_PENDING \<and>
          filter (unused_of (uv_id b)) (vk_confirmations (db w')) = [c] \<and>
          cf_code c = ic_code r \<and> cf_expires_at c = ic_expires_at r \<and>
          user_vks (db w') = (if find (owned_by u) (user_vks (db w)) = None then user_vks (db w) @ [b] else user_vks (db w)) \<and>
          (\<exists>s t. tick w \<le> s \<and> s < t \<and> t < tick w' \<and>
             vk_confirmations (db w') = used_up (uv_id b) (clock w s) (vk_confirmations (db w)) @ [c] \<and>
             cf_expires_at c = clock w t + ttl * 60000000) \<and>
          vk_logs (db w') = vk_logs (db w) @ [l] \<and>
          lg_details l = issue_details u (uv_id b) @ [(lit ''code'', mask_code (ic_code r))]))
    (\<lambda>e w'. domain_ok w' \<and> committed w' = committed w \<and> outbox w' = outbox w \<and>
       (exn_class e = ConflictError \<or> exn_class e = OverflowError \<or> n \<le> 0 \<and> exn_class e = ValueError \<or>
        16 < n \<and> exn_class e = DataError)) w"
  using issue_confirmation_wp [OF assms] unfolding issued_def [abs_def] .

text \<open>
  C9. Unlinking removes the owner's live binding and everything that could still link through it: its
  unused codes are used up at a time within the call, the codes and the bindings of other owners are
  untouched, the invariant holds, and
  the linked account, if the binding was \<open>ACTIVE\<close>, is told by exactly one message, whether or not
  the VK API takes it.  Without a binding the call answers \<open>False\<close> and changes no binding
  and no code.  It never fails.
\<close>

theorem unlink_correct:
  assumes "domain_ok w" "room 2 w"
  shows "wp (VkBindingService_unlink (sql_binding_service ttl n (Some VkbottleMessenger)) u)
    (\<lambda>done w'. domain_ok w' \<and> committed w' = committed w \<and>
       (done \<longleftrightarrow> find (owned_by u) (user_vks (db w)) \<noteq> None) \<and>
       find (owned_by u) (user_vks (db w')) = None \<and>
       (\<forall>v. v \<noteq> u \<longrightarrow> find (owned_by v) (user_vks (db w')) = find (owned_by v) (user_vks (db w))) \<and>
       (\<forall>b. find (owned_by u) (user_vks (db w)) = Some b \<longrightarrow>
          filter (unused_of (uv_id b)) (vk_confirmations (db w')) = []) \<and>
       (case find (owned_by u) (user_vks (db w)) of
          None \<Rightarrow> vk_confirmations (db w') = vk_confirmations (db w) \<and> user_vks (db w') = user_vks (db w)
        | Some b \<Rightarrow> \<exists>t. tick w \<le> t \<and> t < tick w' \<and>
            vk_confirmations (db w') = used_up (uv_id b) (clock w t) (vk_confirmations (db w))) \<and>
       sent_between w w' (unlink_notice (find (owned_by u) (user_vks (db w)))))
    (\<lambda>e w'. False) w"
  using unlink_wp [OF assms] unfolding unlinks_def [abs_def] .

end
