(* ===== verification/Confirmation_Service.thy ===== *)
theory Confirmation_Service
  imports Vk_Code Domain_Invariant
begin

text \<open>
  \<open>core/services/vk_confirmation.py\<close>: \<open>VkConfirmationService\<close>, which checks the code a VK user sent and
  links the account.

  The abstract specification is \<open>confirm_verdict\<close>, a function of the stored data alone that says
  which of the eight outcomes a confirmation has; \<open>confirm_refines\<close> proves that the service on the
  database does what the verdict says, on every branch.
\<close>

record 'w vk_confirmation_service =
  cs_confirmation_repo :: "'w vk_confirmation_repository"
  cs_user_vk_repo :: "'w user_vk_repository"
  cs_vk_log_repo :: "'w vk_log_repository"
  cs_max_attempts :: int
  cs_attempt_window_minutes :: int
  cs_runtime :: "'w runtime"
  cs_ucd :: ucd

record confirmation_result =
  cn_status :: pystr
  cn_user_id :: uuid
  cn_user_vk_id :: uuid

definition ACTION_CONFIRMATION :: pystr where
  "ACTION_CONFIRMATION = lit ''vk_confirmation''"

definition FAILED_STATUSES :: "pystr list" where
  "FAILED_STATUSES = [lit ''not_found'', lit ''used'', lit ''expired'', lit ''peer_conflict'']"

definition VkConfirmationService_log ::
    "'w vk_confirmation_service \<Rightarrow> pystr \<Rightarrow> int \<Rightarrow> details \<Rightarrow> ('w, unit) prog" where
  "VkConfirmationService_log S status vk_peer_id details =
     thenM
       (lr_log_action (cs_vk_log_repo S) ACTION_CONFIRMATION status
          (Some (dict_merge [(vk_peer_id_key, str_int vk_peer_id)] details)))
       (retM ())"

definition VkConfirmationService_enforce_rate_limit ::
    "'w vk_confirmation_service \<Rightarrow> int \<Rightarrow> pystr \<Rightarrow> ('w, unit) prog" where
  "VkConfirmationService_enforce_rate_limit S vk_peer_id masked =
     bindM (bindM (rt_now (cs_runtime S)) (\<lambda>now. add_minutes now (- cs_attempt_window_minutes S))) (\<lambda>since.
     bindM (lr_count_failed_since (cs_vk_log_repo S) ACTION_CONFIRMATION vk_peer_id since FAILED_STATUSES)
       (\<lambda>failures.
         if cs_max_attempts S \<le> failures
         then thenM (VkConfirmationService_log S (lit ''rate_limited'') vk_peer_id [(lit ''code'', masked)])
                (raiseM RateLimitedError msg_rate_limited)
         else retM ()))"

definition is_same_peer_active :: "user_vk option \<Rightarrow> int \<Rightarrow> bool" where
  "is_same_peer_active found vk_peer_id =
     (case found of
        None \<Rightarrow> False
      | Some binding \<Rightarrow>
          if uv_deleted_at binding \<noteq> None then False
          else if uv_state binding \<noteq> STATE_ACTIVE then False
          else (case uv_peer_id binding of None \<Rightarrow> False | Some stored_peer \<Rightarrow> stored_peer = vk_peer_id))"

definition VkConfirmationService_confirm ::
    "'w vk_confirmation_service \<Rightarrow> pystr \<Rightarrow> int \<Rightarrow> pystr option \<Rightarrow> pystr option \<Rightarrow>
       ('w, confirmation_result) prog" where
  "VkConfirmationService_confirm S code vk_peer_id vk_screen_name vk_display_name =
     (let normalized = normalize_code (cs_ucd S) code;
          masked = mask_code normalized;
          logm = VkConfirmationService_log S
      in
      thenM (VkConfirmationService_enforce_rate_limit S vk_peer_id masked)
      (bindM (cr_get_by_code (cs_confirmation_repo S) normalized) (\<lambda>found.
        case found of
          None \<Rightarrow>
            thenM (logm (lit ''not_found'') vk_peer_id [(lit ''code'', masked)])
              (raiseM NotFoundError msg_code_invalid)
        | Some confirmation \<Rightarrow>
            let confirmation_id = cf_id confirmation;
                record_id = cf_user_vk_id confirmation;
                details = [(lit ''code'', masked), (lit ''user_vk_id'', uuid_str record_id)]
            in
            bindM (ur_get_by_id (cs_user_vk_repo S) record_id) (\<lambda>binding.
            if cf_used_at confirmation \<noteq> None
            then
              if is_same_peer_active binding vk_peer_id
              then thenM (logm (lit ''already_confirmed'') vk_peer_id details)
                     (retM \<lparr>cn_status = lit ''already_confirmed'', cn_user_id = uv_user_id (the binding),
                            cn_user_vk_id = record_id\<rparr>)
              else thenM (logm (lit ''used'') vk_peer_id details) (raiseM ConflictError msg_code_used)
            else
              bindM (rt_now (cs_runtime S)) (\<lambda>now.
              if cf_expires_at confirmation \<le> now
              then thenM (logm (lit ''expired'') vk_peer_id details) (raiseM GoneError msg_code_expired)
              else
                case binding of
                  None \<Rightarrow>
                    thenM (logm (lit ''error'') vk_peer_id
                             (details @ [(lit ''reason'', lit ''binding_missing'')]))
                      (raiseM NotFoundError msg_binding_missing)
                | Some b \<Rightarrow>
                    if uv_deleted_at b \<noteq> None
                    then thenM (logm (lit ''error'') vk_peer_id
                                  (details @ [(lit ''reason'', lit ''binding_missing'')]))
                           (raiseM NotFoundError msg_binding_missing)
                    else
                      bindM (ur_get_by_peer_id (cs_user_vk_repo S) vk_peer_id) (\<lambda>occupied.
                      if (case occupied of None \<Rightarrow> False | Some o' \<Rightarrow> uv_id o' \<noteq> record_id)
                      then thenM (logm (lit ''peer_conflict'') vk_peer_id details)
                             (raiseM ConflictError msg_peer_conflict)
                      else
                        thenM
                          (catchM
                            (thenM
                              (ur_activate (cs_user_vk_repo S) record_id vk_peer_id vk_screen_name
                                 vk_display_name)
                              (retM ()))
                            [AlreadyExistsError]
                            (\<lambda>_. thenM (logm (lit ''peer_conflict'') vk_peer_id details)
                                   (raiseM ConflictError msg_peer_conflict)))
                        (thenM (cr_mark_used (cs_confirmation_repo S) confirmation_id)
                        (thenM
                          (logm (lit ''success'') vk_peer_id
                             (details @ [(lit ''user_id'', uuid_str (uv_user_id b))]))
                          (retM \<lparr>cn_status = lit ''confirmed'', cn_user_id = uv_user_id b,
                                 cn_user_vk_id = record_id\<rparr>)))))))))"

section \<open>The abstract specification\<close>

datatype verdict =
    Limited | Unknown | Already user_vk vk_confirmation | Spent vk_confirmation
  | Expired vk_confirmation | Orphaned vk_confirmation | Occupied vk_confirmation
  | Linkable user_vk vk_confirmation

definition failed_attempts :: "vk_log list \<Rightarrow> int \<Rightarrow> datetime \<Rightarrow> int" where
  "failed_attempts logs p since =
     int (length (filter (\<lambda>r. lg_action r = ACTION_CONFIRMATION \<and> lg_status r \<in> set FAILED_STATUSES \<and>
       since \<le> lg_created_at r \<and> map_of (lg_details r) vk_peer_id_key = Some (str_int p)) logs))"

definition confirm_verdict :: "db \<Rightarrow> int \<Rightarrow> datetime \<Rightarrow> datetime \<Rightarrow> pystr \<Rightarrow> int \<Rightarrow> verdict" where
  "confirm_verdict d max_attempts since now code p =
     (if max_attempts \<le> failed_attempts (vk_logs d) p since then Limited
      else
        case find (\<lambda>c. cf_code c = code) (vk_confirmations d) of
          None \<Rightarrow> Unknown
        | Some c \<Rightarrow>
            (case find (\<lambda>r. uv_id r = cf_user_vk_id c) (user_vks d) of
               None \<Rightarrow> if cf_used_at c \<noteq> None then Spent c else if cf_expires_at c \<le> now then Expired c else Orphaned c
             | Some b \<Rightarrow>
                 if cf_used_at c \<noteq> None
                 then (if live b \<and> uv_state b = STATE_ACTIVE \<and> uv_peer_id b = Some p then Already b c else Spent c)
                 else if cf_expires_at c \<le> now then Expired c
                 else if \<not> live b then Orphaned c
                 else if \<exists>x \<in> set (user_vks d). linked_to p x \<and> uv_id x \<noteq> uv_id b then Occupied c
                 else Linkable b c))"

fun verdict_answer :: "verdict \<Rightarrow> exn + confirmation_result" where
  "verdict_answer Limited = Inl (Exn RateLimitedError msg_rate_limited)"
| "verdict_answer Unknown = Inl (Exn NotFoundError msg_code_invalid)"
| "verdict_answer (Already b c) =
     Inr \<lparr>cn_status = lit ''already_confirmed'', cn_user_id = uv_user_id b, cn_user_vk_id = cf_user_vk_id c\<rparr>"
| "verdict_answer (Spent c) = Inl (Exn ConflictError msg_code_used)"
| "verdict_answer (Expired c) = Inl (Exn GoneError msg_code_expired)"
| "verdict_answer (Orphaned c) = Inl (Exn NotFoundError msg_binding_missing)"
| "verdict_answer (Occupied c) = Inl (Exn ConflictError msg_peer_conflict)"
| "verdict_answer (Linkable b c) =
     Inr \<lparr>cn_status = lit ''confirmed'', cn_user_id = uv_user_id b, cn_user_vk_id = cf_user_vk_id c\<rparr>"

text \<open>The journal entry of an outcome: its status and its details beside the peer.\<close>

definition about_code :: "pystr \<Rightarrow> vk_confirmation \<Rightarrow> details" where
  "about_code code c = [(lit ''code'', mask_code code), (lit ''user_vk_id'', uuid_str (cf_user_vk_id c))]"

fun verdict_entry :: "pystr \<Rightarrow> verdict \<Rightarrow> pystr \<times> details" where
  "verdict_entry code Limited = (lit ''rate_limited'', [(lit ''code'', mask_code code)])"
| "verdict_entry code Unknown = (lit ''not_found'', [(lit ''code'', mask_code code)])"
| "verdict_entry code (Already b c) = (lit ''already_confirmed'', about_code code c)"
| "verdict_entry code (Spent c) = (lit ''used'', about_code code c)"
| "verdict_entry code (Expired c) = (lit ''expired'', about_code code c)"
| "verdict_entry code (Orphaned c) = (lit ''error'', about_code code c @ [(lit ''reason'', lit ''binding_missing'')])"
| "verdict_entry code (Occupied c) = (lit ''peer_conflict'', about_code code c)"
| "verdict_entry code (Linkable b c) =
     (lit ''success'', about_code code c @ [(lit ''user_id'', uuid_str (uv_user_id b))])"

text \<open>What the outcome does to the world before it is journalled; only a link changes stored data.\<close>

fun verdict_effect ::
    "int \<Rightarrow> pystr option \<Rightarrow> pystr option \<Rightarrow> verdict \<Rightarrow> 'x world_scheme \<Rightarrow> 'x world_scheme" where
  "verdict_effect p sn dn (Linkable b c) w =
     marked_used (cf_id c) (linked (cf_user_vk_id c) p sn dn (later 2 w))"
| "verdict_effect p sn dn (Expired c) w = later 2 w"
| "verdict_effect p sn dn (Orphaned c) w = later 2 w"
| "verdict_effect p sn dn (Occupied c) w = later 2 w"
| "verdict_effect p sn dn v w = later 1 w"

section \<open>On the database\<close>

definition sql_confirmation_service :: "int \<Rightarrow> int \<Rightarrow> ucd \<Rightarrow> ('x world_scheme) vk_confirmation_service" where
  "sql_confirmation_service max_attempts attempt_window_minutes u =
     \<lparr>cs_confirmation_repo = SQLAlchemyVkConfirmationRepository,
      cs_user_vk_repo = SQLAlchemyUserVkRepository,
      cs_vk_log_repo = SQLAlchemyVkLogRepository,
      cs_max_attempts = max_attempts, cs_attempt_window_minutes = attempt_window_minutes,
      cs_runtime = python_runtime, cs_ucd = u\<rparr>"

lemma sql_confirmation_service_sel [simp]:
  "cs_confirmation_repo (sql_confirmation_service k m u) = SQLAlchemyVkConfirmationRepository"
  "cs_user_vk_repo (sql_confirmation_service k m u) = SQLAlchemyUserVkRepository"
  "cs_vk_log_repo (sql_confirmation_service k m u) = SQLAlchemyVkLogRepository"
  "cs_max_attempts (sql_confirmation_service k m u) = k"
  "cs_attempt_window_minutes (sql_confirmation_service k m u) = m"
  "cs_runtime (sql_confirmation_service k m u) = python_runtime"
  "cs_ucd (sql_confirmation_service k m u) = u"
  by (simp_all add: sql_confirmation_service_def)

definition journalled :: "pystr \<Rightarrow> int \<Rightarrow> details \<Rightarrow> 'x world_scheme \<Rightarrow> 'x world_scheme" where
  "journalled status p d w =
     append_log ACTION_CONFIRMATION status (dict_merge [(vk_peer_id_key, str_int p)] d) w"

definition confirmation_statuses :: "pystr list" where
  "confirmation_statuses =
     [lit ''rate_limited'', lit ''not_found'', lit ''already_confirmed'', lit ''used'', lit ''expired'',
      lit ''error'', lit ''peer_conflict'', lit ''success'']"

lemma confirmation_log_fits: "st \<in> set confirmation_statuses \<Longrightarrow> log_fits ACTION_CONFIRMATION st"
  by (auto simp: confirmation_statuses_def log_fits_def fits_varchar_def ACTION_CONFIRMATION_def)

lemma confirmation_log_run:
  assumes "domain_ok w" "st \<in> set confirmation_statuses" "room 2 w"
  shows "VkConfirmationService_log (sql_confirmation_service k m u) st p d w = (Inr (), journalled st p d w)"
  using log_action_run [OF domain_okD(1,3) [OF assms(1)] confirmation_log_fits [OF assms(2)],
      of "Some (dict_merge [(vk_peer_id_key, str_int p)] d)"] assms(3)
  by (auto simp: VkConfirmationService_log_def prog_simps journalled_def)

lemma statuses_simps [simp]:
  "lit ''rate_limited'' \<in> set confirmation_statuses" "lit ''not_found'' \<in> set confirmation_statuses"
  "lit ''already_confirmed'' \<in> set confirmation_statuses" "lit ''used'' \<in> set confirmation_statuses"
  "lit ''expired'' \<in> set confirmation_statuses" "lit ''error'' \<in> set confirmation_statuses"
  "lit ''peer_conflict'' \<in> set confirmation_statuses" "lit ''success'' \<in> set confirmation_statuses"
  by (simp_all add: confirmation_statuses_def)

text \<open>The start of the window in which failures count.\<close>

definition window_start :: "int \<Rightarrow> 'x world_scheme \<Rightarrow> datetime" where
  "window_start minutes w = clock w (tick w) + - minutes * 60000000"

definition window_in_range :: "int \<Rightarrow> 'x world_scheme \<Rightarrow> bool" where
  "window_in_range minutes w \<longleftrightarrow> datetime_min \<le> window_start minutes w \<and> window_start minutes w \<le> datetime_max"

lemma rate_limit_run:
  fixes w :: "'x world_scheme"
  assumes ok: "domain_ok w" and space: "room 2 w" and win: "window_in_range m w"
  shows "VkConfirmationService_enforce_rate_limit (sql_confirmation_service k m u) p masked w =
    (if k \<le> failed_attempts (vk_logs (db w)) p (window_start m w)
     then (Inl (Exn RateLimitedError msg_rate_limited),
           journalled (lit ''rate_limited'') p [(lit ''code'', masked)] (later 1 w))
     else (Inr (), later 1 w))"
proof -
  have "add_minutes (clock w (tick w)) (- m) w' = (Inr (window_start m w), w')" for w' :: "'x world_scheme"
    using win by (simp add: add_minutes_def window_in_range_def window_start_def prog_simps Let_def)
  then show ?thesis
    using confirmation_log_run [OF domain_ok_later [OF ok, of 1], of "lit ''rate_limited''" k m u p "[(lit ''code'', masked)]"] space
    by (simp add: VkConfirmationService_enforce_rate_limit_def prog_simps later_def
        VkLogRepository_count_failed_since_def failed_attempts_def room_def)
qed

lemma occupied_iff:
  assumes "db_ok d"
  shows "(case find (linked_to p) (user_vks d) of None \<Rightarrow> False | Some x \<Rightarrow> uv_id x \<noteq> i) \<longleftrightarrow>
    (\<exists>x \<in> set (user_vks d). linked_to p x \<and> uv_id x \<noteq> i)"
proof (cases "find (linked_to p) (user_vks d)")
  case None
  then have "\<forall>x \<in> set (user_vks d). \<not> linked_to p x" by (simp add: find_None_iff)
  with None show ?thesis by simp
next
  case (Some y)
  then have y: "y \<in> set (user_vks d)" "linked_to p y" by (auto simp: find_Some_iff)
  have one: "filter (linked_to p) (user_vks d) = [y]"
    by (rule filter_unique [OF user_vks_unique(3) [OF assms], where k = "Some p" and r = y])
      (use y in \<open>auto simp: linked_to_def\<close>)
  have "x = y" if "x \<in> set (user_vks d)" "linked_to p x" for x
  proof -
    have "x \<in> set (filter (linked_to p) (user_vks d))" using that by simp
    then show ?thesis by (simp only: one list.set singleton_iff)
  qed
  then have "(\<exists>x \<in> set (user_vks d). linked_to p x \<and> uv_id x \<noteq> i) \<longleftrightarrow> uv_id y \<noteq> i" using y by blast
  then show ?thesis by (simp add: Some)
qed

lemma verdict_entry_status: "fst (verdict_entry code v) \<in> set confirmation_statuses"
  by (cases v) simp_all

lemma linkable_of_verdict:
  assumes ok: "domain_ok w" and v: "confirm_verdict (db w) k since now code p = Linkable b c"
  shows "c \<in> set (vk_confirmations (db w))" "cf_used_at c = None" "cf_code c = code" "now < cf_expires_at c"
    "find (\<lambda>r. uv_id r = cf_user_vk_id c) (user_vks (db w)) = Some b" "live b" "uv_state b = STATE_PENDING"
    "linkable (cf_user_vk_id c) p (db w)" "failed_attempts (vk_logs (db w)) p since < k"
proof -
  note v' = v [unfolded confirm_verdict_def]
  then show f: "failed_attempts (vk_logs (db w)) p since < k" by (simp split: if_splits)
  have c: "find (\<lambda>c. cf_code c = code) (vk_confirmations (db w)) = Some c"
    using v' by (auto split: if_splits option.splits)
  then show cm: "c \<in> set (vk_confirmations (db w))" "cf_code c = code" by (auto simp: find_Some_iff)
  have b: "find (\<lambda>r. uv_id r = cf_user_vk_id c) (user_vks (db w)) = Some b" "cf_used_at c = None"
      "now < cf_expires_at c" "live b" "\<not> (\<exists>x \<in> set (user_vks (db w)). linked_to p x \<and> uv_id x \<noteq> uv_id b)"
    using v' by (simp_all add: c split: if_splits option.splits) 
  then show "find (\<lambda>r. uv_id r = cf_user_vk_id c) (user_vks (db w)) = Some b" "cf_used_at c = None"
      "now < cf_expires_at c" "live b" by simp_all
  have "awaiting (user_vks (db w)) (cf_user_vk_id c)" using bindings_okD(3) [OF domain_okD(4) [OF ok] cm(1) b(2)] .
  from awaiting_find [OF domain_okD(1) [OF ok] this] b(1)
  have r: "find (live_row (cf_user_vk_id c)) (user_vks (db w)) = Some b" "uv_state b = STATE_PENDING" by auto
  then show "uv_state b = STATE_PENDING" by simp
  have "uv_id b = cf_user_vk_id c" using b(1) by (auto simp: find_Some_iff)
  with r b(5) show "linkable (cf_user_vk_id c) p (db w)" by (auto simp: linkable_def)
qed

lemma domain_ok_effect:
  assumes ok: "domain_ok w" and fit: "fits_bigint p" "names_fit sn dn"
    and v: "v = confirm_verdict (db w) k since now code p"
  shows "domain_ok (verdict_effect p sn dn v w)"
proof (cases v)
  case (Linkable b c)
  note l = linkable_of_verdict [OF ok v [symmetric, unfolded Linkable]]
  have "domain_ok (marked_used (cf_id c) (linked (cf_user_vk_id c) p sn dn (later 2 w)))"
    by (rule domain_ok_linked_used [OF domain_ok_later [OF ok]]) (use l fit in simp_all)
  then show ?thesis using Linkable by simp
qed (use domain_ok_later [OF ok] in simp_all)

text \<open>The world after the outcome: its effect, journalled.\<close>

definition verdict_world ::
    "int \<Rightarrow> pystr option \<Rightarrow> pystr option \<Rightarrow> pystr \<Rightarrow> verdict \<Rightarrow> 'x world_scheme \<Rightarrow> 'x world_scheme" where
  "verdict_world p sn dn code v w =
     journalled (fst (verdict_entry code v)) p (snd (verdict_entry code v)) (verdict_effect p sn dn v w)"

lemma later_later [simp]: "later m (later n w) = later (n + m) w"
  by (simp add: later_def add.assoc)

lemma is_same_peer_active_Some:
  "is_same_peer_active (Some b) p \<longleftrightarrow> live b \<and> uv_state b = STATE_ACTIVE \<and> uv_peer_id b = Some p"
  by (auto simp: is_same_peer_active_def split: option.splits)

lemma is_same_peer_active_None [simp]: "\<not> is_same_peer_active None p"
  by (simp add: is_same_peer_active_def)

lemma confirm_run:
  fixes w :: "'x world_scheme" and code :: pystr and u :: ucd and k m :: int
  assumes ok: "domain_ok w" and space: "room 2 w" and win: "window_in_range m w"
    and fit: "fits_bigint p" "names_fit sn dn"
  defines "code' \<equiv> normalize_code u code"
  defines "v \<equiv> confirm_verdict (db w) k (window_start m w) (clock w (Suc (tick w))) code' p"
  shows "VkConfirmationService_confirm (sql_confirmation_service k m u) code p sn dn w =
    (verdict_answer v, verdict_world p sn dn code' v w)"
proof -
  let ?S = "sql_confirmation_service k m u :: ('x world_scheme) vk_confirmation_service"
  have okl: "domain_ok (later n w)" for n by (rule domain_ok_later [OF ok])
  note rate = rate_limit_run [OF ok space win, of k u p "mask_code code'"]
  have spacel: "room 2 (later n w)" for n using space by (simp add: room_def)
  note log = confirmation_log_run [OF okl _ spacel, of _ k m u p]
  note code = get_by_code_run [OF domain_okD(1) [OF okl], of code']
  note row = get_by_id_run [OF domain_okD(1) [OF okl]]
  note peer = get_by_peer_id_run [OF domain_okD(1) [OF okl] fit(1)]
  have later2: "later (Suc 0) w\<lparr>tick := Suc (Suc (tick w))\<rparr> = later 2 w" by (simp add: later_def)
  note run = VkConfirmationService_confirm_def prog_simps Let_def code'_def [symmetric] rate log code row peer
    later2 verdict_world_def about_code_def is_same_peer_active_Some
  have vd: "v = confirm_verdict (db w) k (window_start m w) (clock w (Suc (tick w))) code' p" by (simp add: v_def)
  show ?thesis
  proof (cases "k \<le> failed_attempts (vk_logs (db w)) p (window_start m w)")
    case True
    then have "v = Limited" by (simp add: vd confirm_verdict_def)
    with True show ?thesis by (simp add: run)
  next
    case lim: False
    show ?thesis
    proof (cases "find (\<lambda>c. cf_code c = code') (vk_confirmations (db w))")
      case None
      then have "v = Unknown" using lim by (simp add: vd confirm_verdict_def)
      with None lim show ?thesis by (simp add: run)
    next
      case c: (Some c)
      then have cm: "c \<in> set (vk_confirmations (db w))" by (auto simp: find_Some_iff)
      then have "cf_user_vk_id c \<in> set (map uv_id (user_vks (db w)))"
        using domain_okD(1) [OF ok] by (simp add: db_ok_def constraints_ok_def vk_confirmations_ok_def)
      then obtain b where b: "find (\<lambda>r. uv_id r = cf_user_vk_id c) (user_vks (db w)) = Some b"
        by (cases "find (\<lambda>r. uv_id r = cf_user_vk_id c) (user_vks (db w))") (auto simp: find_None_iff)
      then have id: "uv_id b = cf_user_vk_id c" by (auto simp: find_Some_iff)
      consider (used) "cf_used_at c \<noteq> None" | (expired) "cf_used_at c = None" "cf_expires_at c \<le> clock w (Suc (tick w))"
        | (good) "cf_used_at c = None" "\<not> cf_expires_at c \<le> clock w (Suc (tick w))" by auto
      then show ?thesis
      proof cases
        case used
        then show ?thesis using lim c b
          by (simp add: vd confirm_verdict_def run)
      next
        case expired
        then show ?thesis using lim c b
          by (simp add: vd confirm_verdict_def run)
      next
        case good
        have aw: "awaiting (user_vks (db w)) (cf_user_vk_id c)"
          using bindings_okD(3) [OF domain_okD(4) [OF ok] cm good(1)] .
        from awaiting_find [OF domain_okD(1) [OF ok] this] b have live: "live b" by auto
        let ?occ = "\<exists>x \<in> set (user_vks (db w)). linked_to p x \<and> uv_id x \<noteq> uv_id b"
        note occ = occupied_iff [OF domain_okD(1) [OF ok], where p = p and i = "cf_user_vk_id c"]
        show ?thesis
        proof (cases ?occ)
          case True
          then have "v = Occupied c" using good lim c b live by (simp add: vd confirm_verdict_def)
          with True good lim c b live occ id show ?thesis by (simp add: run)
        next
          case False
          then have v: "v = Linkable b c" using good lim c b live by (simp add: vd confirm_verdict_def)
          note l = linkable_of_verdict [OF ok v [unfolded vd]]
          have "linkable (cf_user_vk_id c) p (db (later 2 w))" using l(8) by simp
          from linked_run [OF okl this fit]
          obtain r where act: "UserVkRepository_activate (cf_user_vk_id c) p sn dn (later 2 w) =
              (Inr r, linked (cf_user_vk_id c) p sn dn (later 2 w))" by blast
          have "db_ok (db (linked (cf_user_vk_id c) p sn dn (later 2 w)))"
            by (rule db_ok_linked) (use domain_okD(1) [OF ok] l(8) fit in simp_all)
          note used = marked_used_run [OF this, of "cf_id c"]
          have "domain_ok (verdict_effect p sn dn v w)" by (rule domain_ok_effect [OF ok fit vd])
          then have okm: "domain_ok (marked_used (cf_id c) (linked (cf_user_vk_id c) p sn dn (later 2 w)))"
            by (simp add: v)
          have spm: "room 2 (marked_used (cf_id c) (linked (cf_user_vk_id c) p sn dn (later 2 w)))"
            using space by (simp add: room_def)
          note log' = confirmation_log_run [OF okm _ spm, of _ k m u p]
          show ?thesis using good lim c b live occ id False by (simp add: run v act used log')
        qed
      qed
    qed
  qed
qed

lemma journalled_sel [simp]:
  "user_vks (db (journalled st p d w)) = user_vks (db w)"
  "vk_confirmations (db (journalled st p d w)) = vk_confirmations (db w)"
  "vk_deliveries (db (journalled st p d w)) = vk_deliveries (db w)"
  "committed (journalled st p d w) = committed w" "outbox (journalled st p d w) = outbox w"
  "clock (journalled st p d w) = clock w" "uuids (journalled st p d w) = uuids w"
  "drawn (journalled st p d w) = drawn w + 2"
  by (simp_all add: journalled_def)

lemma domain_ok_verdict_world:
  assumes "domain_ok w" "room 2 w" "fits_bigint p" "names_fit sn dn" "v = confirm_verdict (db w) k since now code p"
  shows "domain_ok (verdict_world p sn dn code v w)"
  unfolding verdict_world_def journalled_def
proof (rule domain_ok_append_log [OF domain_ok_effect [OF assms(1,3-5)]
        confirmation_log_fits [OF verdict_entry_status]])
  show "room 2 (verdict_effect p sn dn v w)" using assms(2) by (cases v) (simp_all add: room_def)
qed

lemma verdict_effect_other:
  "(\<And>b c. v \<noteq> Linkable b c) \<Longrightarrow> \<exists>n. verdict_effect p sn dn v w = later n w"
  by (cases v) auto

lemma verdict_world_frame:
  "committed (verdict_world p sn dn code v w) = committed w"
  "outbox (verdict_world p sn dn code v w) = outbox w"
  "vk_deliveries (db (verdict_world p sn dn code v w)) = vk_deliveries (db w)"
  by (cases v; simp add: verdict_world_def)+

text \<open>One journal row per confirmation, and it names the account.\<close>

lemma verdict_world_journal:
  "\<exists>l. vk_logs (db (verdict_world p sn dn code v w)) = vk_logs (db w) @ [l] \<and>
     lg_action l = ACTION_CONFIRMATION \<and> lg_status l = fst (verdict_entry code v) \<and>
     map_of (lg_details l) vk_peer_id_key = Some (str_int p)"
proof -
  have "vk_peer_id_key \<notin> fst ` set (snd (verdict_entry code v))"
    by (cases v) (auto simp: vk_peer_id_key_def about_code_def)
  then have "map_of (dict_merge [(vk_peer_id_key, str_int p)] (snd (verdict_entry code v))) vk_peer_id_key =
      Some (str_int p)" by (simp add: map_of_dict_merge_other)
  moreover have "vk_logs (db (verdict_effect p sn dn v w)) = vk_logs (db w)" by (cases v) simp_all
  ultimately show ?thesis by (simp add: verdict_world_def journalled_def append_log_def new_log_def)
qed

lemma verdict_not_orphaned:
  assumes "domain_ok w"
  shows "confirm_verdict (db w) k since now code p \<noteq> Orphaned c"
proof
  assume v: "confirm_verdict (db w) k since now code p = Orphaned c"
  then have c: "find (\<lambda>c. cf_code c = code) (vk_confirmations (db w)) = Some c" "cf_used_at c = None"
    by (auto simp: confirm_verdict_def split: if_splits option.splits)
  then have "c \<in> set (vk_confirmations (db w))" by (auto simp: find_Some_iff)
  from awaiting_find [OF domain_okD(1) [OF assms] bindings_okD(3) [OF domain_okD(4) [OF assms] this c(2)]]
  show False using v c by (auto simp: confirm_verdict_def split: if_splits)
qed

text \<open>The rows after a link.\<close>

lemma find_linked_row:
  assumes "find (\<lambda>r. uv_id r = i) rows = Some b" "live b"
  shows "find (\<lambda>r. uv_id r = i) (update_where (live_row i) (activated p sn dn t) rows) =
    Some (activated p sn dn t b)"
  using assms by (induction rows) (auto simp: update_where_def)

lemma find_used_code:
  assumes "find (\<lambda>c. cf_code c = k) cs = Some c" "distinct (map cf_id cs)"
  shows "find (\<lambda>c. cf_code c = k) (update_where (\<lambda>r. cf_id r = cf_id c) (with_used t) cs) = Some (with_used t c)"
proof -
  have "c \<in> set cs" "cf_code c = k" using assms(1) by (auto simp: find_Some_iff)
  then show ?thesis using assms by (induction cs) (auto simp: update_where_def)
qed

section \<open>Properties\<close>

text \<open>
  C5. The confirmation service implements its abstract specification: on every branch, answered or
  raised, the answer is the one of the verdict and the world is the one of the verdict, journalled.
\<close>

theorem confirm_refines_verdict:
  fixes w :: "'x world_scheme" and k m :: int
  assumes "domain_ok w" "room 2 w" "window_in_range m w" "fits_bigint p" "names_fit sn dn"
  shows "VkConfirmationService_confirm (sql_confirmation_service k m u) code p sn dn w =
    (let code' = normalize_code u code;
         v = confirm_verdict (db w) k (window_start m w) (clock w (Suc (tick w))) code' p
     in (verdict_answer v, verdict_world p sn dn code' v w))"
  using confirm_run [OF assms, of k u code] by (simp add: Let_def)

text \<open>
  C6. An account is linked only by right.  When \<open>confirm\<close> answers \<open>confirmed\<close>, the text sent was, up
  to white space and case, a stored code that was not used and not expired; its binding was live and
  \<open>PENDING\<close> and belongs to the owner answered; no other live binding held the account; the limit of
  failures was not reached.  Afterwards that binding is \<open>ACTIVE\<close> with the account and its names, the
  code is used, and every other binding is as it was.
\<close>

theorem confirm_links_by_right:
  fixes w :: "'x world_scheme" and k m :: int
  assumes "domain_ok w" "room 2 w" "window_in_range m w" "fits_bigint p" "names_fit sn dn"
  shows "wp (VkConfirmationService_confirm (sql_confirmation_service k m u) code p sn dn)
    (\<lambda>r w'. cn_status r = lit ''confirmed'' \<longrightarrow>
       (\<exists>b c. find (\<lambda>c. cf_code c = normalize_code u code) (vk_confirmations (db w)) = Some c \<and>
          cf_used_at c = None \<and> clock w (Suc (tick w)) < cf_expires_at c \<and>
          find (\<lambda>r. uv_id r = cf_user_vk_id c) (user_vks (db w)) = Some b \<and> live b \<and> uv_state b = STATE_PENDING \<and>
          (\<forall>x \<in> set (user_vks (db w)). linked_to p x \<longrightarrow> uv_id x = uv_id b) \<and>
          failed_attempts (vk_logs (db w)) p (window_start m w) < k \<and>
          cn_user_id r = uv_user_id b \<and> cn_user_vk_id r = uv_id b \<and>
          (\<exists>t t'. find (\<lambda>r. uv_id r = uv_id b) (user_vks (db w')) = Some (activated p sn dn t b) \<and>
             find (\<lambda>c. cf_code c = normalize_code u code) (vk_confirmations (db w')) = Some (with_used t' c)) \<and>
          (\<forall>i. i \<noteq> uv_id b \<longrightarrow>
             find (\<lambda>r. uv_id r = i) (user_vks (db w')) = find (\<lambda>r. uv_id r = i) (user_vks (db w)))))
    (\<lambda>e w'. True) w"
proof -
  let ?code = "normalize_code u code"
  let ?v = "confirm_verdict (db w) k (window_start m w) (clock w (Suc (tick w))) ?code p"
  note run = confirm_run [OF assms, of k u code]
  show ?thesis
  proof (cases ?v)
    case (Linkable b c)
    note l = linkable_of_verdict [OF assms(1) Linkable]
    have c: "find (\<lambda>c. cf_code c = ?code) (vk_confirmations (db w)) = Some c"
      using Linkable by (auto simp: confirm_verdict_def split: if_splits option.splits)
    have id: "uv_id b = cf_user_vk_id c" using l(5) by (auto simp: find_Some_iff)
    have dist: "distinct (map cf_id (vk_confirmations (db w)))"
      using domain_okD(1) [OF assms(1)] by (simp add: db_ok_def constraints_ok_def vk_confirmations_ok_def)
    let ?w' = "verdict_world p sn dn ?code (Linkable b c) w"
    have rows: "user_vks (db ?w') = update_where (live_row (cf_user_vk_id c))
        (activated p sn dn (clock w (tick w + 2))) (user_vks (db w))"
      and codes: "vk_confirmations (db ?w') = update_where (\<lambda>r. cf_id r = cf_id c)
        (with_used (clock w (Suc (tick w + 2)))) (vk_confirmations (db w))"
      by (simp_all add: verdict_world_def)
    have own: "find (\<lambda>r. uv_id r = uv_id b) (user_vks (db ?w')) =
        Some (activated p sn dn (clock w (tick w + 2)) b)"
      unfolding rows id by (rule find_linked_row [OF l(5,6)])
    have used: "find (\<lambda>c. cf_code c = ?code) (vk_confirmations (db ?w')) =
        Some (with_used (clock w (Suc (tick w + 2))) c)"
      unfolding codes by (rule find_used_code [OF c dist])
    have others: "find (\<lambda>r. uv_id r = i) (user_vks (db ?w')) = find (\<lambda>r. uv_id r = i) (user_vks (db w))"
      if "i \<noteq> uv_id b" for i
      unfolding rows using that id by (intro find_update_where_other) auto
    have free: "\<forall>x \<in> set (user_vks (db w)). linked_to p x \<longrightarrow> uv_id x = uv_id b"
      using l(8) id by (auto simp: linkable_def)
    show ?thesis
      unfolding wp_def run Linkable using c l own used others free id by auto
  qed (simp_all add: wp_def run)
qed

text \<open>
  A confirmation that fails, or that repeats an earlier one, changes no binding and no code.  Either
  way, and on success too, it adds exactly one row to the journal, which names the account and the
  outcome, sends nothing, commits nothing, and keeps the invariant of the stored data.
\<close>

theorem confirm_frame:
  fixes w :: "'x world_scheme" and k m :: int
  assumes "domain_ok w" "room 2 w" "window_in_range m w" "fits_bigint p" "names_fit sn dn"
  shows "case VkConfirmationService_confirm (sql_confirmation_service k m u) code p sn dn w of (r, w') \<Rightarrow>
    domain_ok w' \<and> committed w' = committed w \<and> outbox w' = outbox w \<and>
    (\<exists>l. vk_logs (db w') = vk_logs (db w) @ [l] \<and> lg_action l = ACTION_CONFIRMATION \<and>
       map_of (lg_details l) vk_peer_id_key = Some (str_int p)) \<and>
    ((\<exists>x. r = Inr x \<and> cn_status x = lit ''confirmed'') \<or>
     user_vks (db w') = user_vks (db w) \<and> vk_confirmations (db w') = vk_confirmations (db w))"
proof -
  let ?code = "normalize_code u code"
  let ?v = "confirm_verdict (db w) k (window_start m w) (clock w (Suc (tick w))) ?code p"
  let ?w' = "verdict_world p sn dn ?code ?v w"
  have "(\<exists>x. verdict_answer ?v = Inr x \<and> cn_status x = lit ''confirmed'') \<or>
      user_vks (db ?w') = user_vks (db w) \<and> vk_confirmations (db ?w') = vk_confirmations (db w)"
    by (cases ?v) (simp_all add: verdict_world_def)
  moreover have "domain_ok ?w'" by (rule domain_ok_verdict_world [OF assms(1,2,4,5) refl])
  ultimately show ?thesis
    using verdict_world_journal [of p sn dn ?code ?v w]
    unfolding confirm_run [OF assms] prod.case by (auto simp: verdict_world_frame)
qed

lemma refused_entry:
  "dict_merge [(vk_peer_id_key, str_int p)] [(lit ''code'', m)] = [(vk_peer_id_key, str_int p), (lit ''code'', m)]"
  by (simp add: dict_merge_def vk_peer_id_key_def lit_def)

text \<open>
  C25. Guessing is bounded.  An attempt is refused for the limit exactly when the failures of the account
  within the window have reached it, whatever text it sends; a refused attempt reads no code, leaves
  every binding, code and delivery as it is, writes one journal row, \<open>rate_limited\<close> with the masked
  text, and does not count itself.  Every other attempt that fails, however it fails, changes no binding
  and no code and counts against the account from then on; one that succeeds does not count.  (The
  data being consistent, the binding of an unused code is never missing, so the status \<open>error\<close>, which
  the code would not count, does not occur.)
\<close>

theorem rate_limit_bounds_guessing:
  fixes w :: "'x world_scheme" and k m :: int
  assumes "domain_ok w" "room 2 w" "window_in_range m w" "fits_bigint p" "names_fit sn dn"
  shows "case VkConfirmationService_confirm (sql_confirmation_service k m u) code p sn dn w of (r, w') \<Rightarrow>
    (r = Inl (Exn RateLimitedError msg_rate_limited) \<longleftrightarrow>
       k \<le> failed_attempts (vk_logs (db w)) p (window_start m w)) \<and>
    (k \<le> failed_attempts (vk_logs (db w)) p (window_start m w) \<longrightarrow>
       user_vks (db w') = user_vks (db w) \<and> vk_confirmations (db w') = vk_confirmations (db w) \<and>
       vk_deliveries (db w') = vk_deliveries (db w) \<and> committed w' = committed w \<and> outbox w' = outbox w \<and>
       (\<exists>l. vk_logs (db w') = vk_logs (db w) @ [l] \<and> lg_action l = ACTION_CONFIRMATION \<and>
          lg_status l = lit ''rate_limited'' \<and>
          lg_details l = [(vk_peer_id_key, str_int p), (lit ''code'', mask_code (normalize_code u code))]) \<and>
       (\<forall>since. failed_attempts (vk_logs (db w')) p since = failed_attempts (vk_logs (db w)) p since)) \<and>
    (failed_attempts (vk_logs (db w)) p (window_start m w) < k \<longrightarrow>
       (case r of
          Inl e \<Rightarrow>
            user_vks (db w') = user_vks (db w) \<and> vk_confirmations (db w') = vk_confirmations (db w) \<and>
            (\<forall>since \<le> lg_created_at (last (vk_logs (db w'))).
               failed_attempts (vk_logs (db w')) p since = failed_attempts (vk_logs (db w)) p since + 1)
        | Inr x \<Rightarrow>
            \<forall>since. failed_attempts (vk_logs (db w')) p since = failed_attempts (vk_logs (db w)) p since))"
proof -
  let ?code = "normalize_code u code"
  let ?v = "confirm_verdict (db w) k (window_start m w) (clock w (Suc (tick w))) ?code p"
  let ?w' = "verdict_world p sn dn ?code ?v w"
  let ?full = "k \<le> failed_attempts (vk_logs (db w)) p (window_start m w)"
  have lim: "?v = Limited \<longleftrightarrow> ?full"
    by (simp add: confirm_verdict_def split: option.split)
  obtain l where l: "vk_logs (db ?w') = vk_logs (db w) @ [l]" "lg_action l = ACTION_CONFIRMATION"
      "lg_status l = fst (verdict_entry ?code ?v)" "map_of (lg_details l) vk_peer_id_key = Some (str_int p)"
    using verdict_world_journal by blast
  have count: "failed_attempts (vk_logs (db ?w')) p since = failed_attempts (vk_logs (db w)) p since +
      (if lg_status l \<in> set FAILED_STATUSES \<and> since \<le> lg_created_at l then 1 else 0)" for since
    using l by (simp add: failed_attempts_def)
  have limited: "verdict_answer ?v = Inl (Exn RateLimitedError msg_rate_limited) \<longleftrightarrow> ?full"
    unfolding lim [symmetric] by (cases ?v) simp_all
  have refused: "user_vks (db ?w') = user_vks (db w) \<and> vk_confirmations (db ?w') = vk_confirmations (db w) \<and>
       (\<exists>l. vk_logs (db ?w') = vk_logs (db w) @ [l] \<and> lg_action l = ACTION_CONFIRMATION \<and>
          lg_status l = lit ''rate_limited'' \<and>
          lg_details l = [(vk_peer_id_key, str_int p), (lit ''code'', mask_code ?code)]) \<and>
       lg_status l \<notin> set FAILED_STATUSES" if ?full
  proof -
    from that lim have v: "?v = Limited" by simp
    show ?thesis using l(3)
      unfolding v by (simp add: verdict_world_def journalled_def append_log_def new_log_def refused_entry FAILED_STATUSES_def)
  qed
  have failed: "user_vks (db ?w') = user_vks (db w) \<and> vk_confirmations (db ?w') = vk_confirmations (db w) \<and>
      lg_status l \<in> set FAILED_STATUSES" if "\<not> ?full" "verdict_answer ?v = Inl e" for e
    using that lim verdict_not_orphaned [OF assms(1)] unfolding l(3)
    by (cases ?v) (auto simp: FAILED_STATUSES_def verdict_world_def)
  have succeeded: "lg_status l \<notin> set FAILED_STATUSES" if "verdict_answer ?v = Inr x" for x
    using that unfolding l(3) by (cases ?v) (simp_all add: FAILED_STATUSES_def)
  show ?thesis
    unfolding confirm_run [OF assms] prod.case
    using limited refused failed succeeded l(1) by (auto simp: verdict_world_frame count [unfolded l(1)] split: sum.splits)
qed

text \<open>
  A repeated delivery of a successful confirmation is recognised: sending the same text from the
  same account again, while the limit is not reached, answers \<open>already_confirmed\<close> for the same owner
  and binding and changes no binding and no code.
\<close>

theorem confirm_again_recognised:
  fixes w :: "'x world_scheme" and k m :: int
  assumes "domain_ok w" "room 2 w" "window_in_range m w" "fits_bigint p" "names_fit sn dn"
    and "VkConfirmationService_confirm (sql_confirmation_service k m u) code p sn dn w = (Inr r, w')"
    and "room 2 w'" "window_in_range m w'" "failed_attempts (vk_logs (db w')) p (window_start m w') < k"
  shows "case VkConfirmationService_confirm (sql_confirmation_service k m u) code p sn dn w' of (r', w'') \<Rightarrow>
    r' = Inr (r\<lparr>cn_status := lit ''already_confirmed''\<rparr>) \<and>
    user_vks (db w'') = user_vks (db w') \<and> vk_confirmations (db w'') = vk_confirmations (db w')"
proof -
  let ?code = "normalize_code u code"
  let ?v = "confirm_verdict (db w) k (window_start m w) (clock w (Suc (tick w))) ?code p"
  let ?v' = "confirm_verdict (db w') k (window_start m w') (clock w' (Suc (tick w'))) ?code p"
  have r: "verdict_answer ?v = Inr r" and w': "w' = verdict_world p sn dn ?code ?v w"
    using assms(6) unfolding confirm_run [OF assms(1-5)] by simp_all
  have ok': "domain_ok w'" unfolding w' by (rule domain_ok_verdict_world [OF assms(1,2,4,5) refl])
  have "\<exists>b c. ?v' = Already b c \<and> r\<lparr>cn_status := lit ''already_confirmed''\<rparr> =
      \<lparr>cn_status = lit ''already_confirmed'', cn_user_id = uv_user_id b, cn_user_vk_id = cf_user_vk_id c\<rparr>"
  proof (cases ?v)
    case (Already b c)
    then have "find (\<lambda>c. cf_code c = ?code) (vk_confirmations (db w)) = Some c" "cf_used_at c \<noteq> None"
      "find (\<lambda>r. uv_id r = cf_user_vk_id c) (user_vks (db w)) = Some b" "live b" "uv_state b = STATE_ACTIVE"
      "uv_peer_id b = Some p"
      by (auto simp: confirm_verdict_def split: if_splits option.splits)
    moreover have "user_vks (db w') = user_vks (db w)" "vk_confirmations (db w') = vk_confirmations (db w)"
      unfolding w' Already by (simp_all add: verdict_world_def)
    ultimately have "?v' = Already b c" using assms(9) by (simp add: confirm_verdict_def)
    then show ?thesis using r Already by auto
  next
    case (Linkable b c)
    note l = linkable_of_verdict [OF assms(1) Linkable]
    have c: "find (\<lambda>c. cf_code c = ?code) (vk_confirmations (db w)) = Some c"
      using Linkable by (auto simp: confirm_verdict_def split: if_splits option.splits)
    have dist: "distinct (map cf_id (vk_confirmations (db w)))"
      using domain_okD(1) [OF assms(1)] by (simp add: db_ok_def constraints_ok_def vk_confirmations_ok_def)
    obtain t t' where "find (\<lambda>r. uv_id r = cf_user_vk_id c) (user_vks (db w')) = Some (activated p sn dn t b)"
      "find (\<lambda>c. cf_code c = ?code) (vk_confirmations (db w')) = Some (with_used t' c)"
      using find_linked_row [OF l(5,6)] find_used_code [OF c dist]
      unfolding w' Linkable by (simp add: verdict_world_def)
    then have "?v' = Already (activated p sn dn t b) (with_used t' c)"
      using assms(9) l(6) by (simp add: confirm_verdict_def)
    then show ?thesis using r Linkable by auto
  qed (use r in simp_all)
  then obtain b c where v': "?v' = Already b c" "r\<lparr>cn_status := lit ''already_confirmed''\<rparr> =
      \<lparr>cn_status = lit ''already_confirmed'', cn_user_id = uv_user_id b, cn_user_vk_id = cf_user_vk_id c\<rparr>"
    by blast
  then show ?thesis
    unfolding confirm_run [OF ok' assms(7,8,4,5)] by (simp add: verdict_world_def)
qed

end
