(* ===== verification/State_Service.thy ===== *)
theory State_Service
  imports Vk_Client
begin

text \<open>
  \<open>core/services/vk_state.py\<close>: \<open>VkStateService\<close>, which follows the permission of a user to be written to:
  \<open>message_deny\<close> blocks the binding of the account, \<open>message_allow\<close> makes it active again.
\<close>

record 'w vk_state_service =
  ss_user_vk_repo :: "'w user_vk_repository"
  ss_vk_log_repo :: "'w vk_log_repository"

definition ACTION_DENY :: pystr where
  "ACTION_DENY = lit ''vk_message_deny''"

definition ACTION_ALLOW :: pystr where
  "ACTION_ALLOW = lit ''vk_message_allow''"

definition VkStateService_transition ::
    "'w vk_state_service \<Rightarrow> int \<Rightarrow> pystr \<Rightarrow> pystr \<Rightarrow> ('w, bool) prog" where
  "VkStateService_transition S vk_peer_id state action =
     bindM (ur_get_by_peer_id (ss_user_vk_repo S) vk_peer_id) (\<lambda>found.
       case found of
         None \<Rightarrow>
           thenM (lr_log_action (ss_vk_log_repo S) action (lit ''no_binding'')
                    (Some [(vk_peer_id_key, str_int vk_peer_id)]))
             (retM False)
       | Some binding \<Rightarrow>
           let previous_state = uv_state binding; record_id = uv_id binding in
           thenM (ur_set_state (ss_user_vk_repo S) record_id state)
           (thenM
             (lr_log_action (ss_vk_log_repo S) action (lit ''success'')
               (Some [(vk_peer_id_key, str_int vk_peer_id), (lit ''user_vk_id'', uuid_str record_id),
                      (lit ''previous_state'', previous_state), (lit ''state'', state)]))
             (retM True)))"

definition VkStateService_block :: "'w vk_state_service \<Rightarrow> int \<Rightarrow> ('w, bool) prog" where
  "VkStateService_block S vk_peer_id = VkStateService_transition S vk_peer_id STATE_BLOCKED ACTION_DENY"

definition VkStateService_unblock :: "'w vk_state_service \<Rightarrow> int \<Rightarrow> ('w, bool) prog" where
  "VkStateService_unblock S vk_peer_id = VkStateService_transition S vk_peer_id STATE_ACTIVE ACTION_ALLOW"

section \<open>On the contract\<close>

text \<open>
  What a transition does to the bindings rests on the contract of the store alone, given a journal
  that leaves them alone.
\<close>

locale state_changer = user_vk_store R rows other ok
  for R :: "'w user_vk_repository" and rows and other :: "'w \<Rightarrow> 'o" and ok +
  fixes L :: "'w vk_log_repository"
    and loggable :: "pystr \<Rightarrow> pystr \<Rightarrow> bool"
  assumes log_action: "ok w \<Longrightarrow> loggable a s \<Longrightarrow>
      wp (lr_log_action L a s d) (\<lambda>r w'. ok w' \<and> rows w' = rows w) (\<lambda>e w'. ok w' \<and> rows w' = rows w) w"
begin

lemma transition_wp:
  assumes "ok w" "fits_bigint p" "s \<in> set ALLOWED_STATES" "loggable a (lit ''success'')"
    "loggable a (lit ''no_binding'')" "ss_user_vk_repo S = R" "ss_vk_log_repo S = L"
  shows "wp (VkStateService_transition S p s a)
    (\<lambda>changed w'. ok w' \<and> (changed \<longleftrightarrow> find (linked_to p) (rows w) \<noteq> None) \<and>
       (case find (linked_to p) (rows w) of
          None \<Rightarrow> rows w' = rows w
        | Some b \<Rightarrow> \<exists>t. rows w' = update_where (\<lambda>r. uv_id r = uv_id b \<and> live r) (with_state s t) (rows w)))
    (\<lambda>e w'. ok w' \<and> (rows w' = rows w \<or> (\<exists>i t. rows w' = update_where (\<lambda>r. uv_id r = i \<and> live r) (with_state s t) (rows w)))) w"
    (is "wp _ _ ?E w")
proof -
  have get: "wp (ur_get_by_peer_id R p) Q E w = Q (find (linked_to p) (rows w)) w" for Q E
    by (rule wp_Inr) (rule get_by_peer_id [OF assms(1,2)])
  show ?thesis
  proof (cases "find (linked_to p) (rows w)")
    case None
    have "wp (lr_log_action L a (lit ''no_binding'') d) (\<lambda>r w'. ok w' \<and> rows w' = rows w) ?E w" for d
      by (rule wp_mono [OF log_action [OF assms(1,5)]]) auto
    with None show ?thesis by (simp add: VkStateService_transition_def assms(6,7) get)
  next
    case (Some b)
    let ?upd = "\<lambda>t. update_where (\<lambda>r. uv_id r = uv_id b \<and> live r) (with_state s t) (rows w)"
    have log: "wp (lr_log_action L a (lit ''success'') d) (\<lambda>r w'. ok w' \<and> (\<exists>t. rows w' = ?upd t)) ?E w1"
      if "ok w1" "\<exists>t. rows w1 = ?upd t" for d w1
      by (rule wp_mono [OF log_action [OF that(1) assms(4)]]) (use that in auto)
    have "wp (ur_set_state R (uv_id b) s)
        (\<lambda>r. wp (lr_log_action L a (lit ''success'') d) (\<lambda>r w'. ok w' \<and> (\<exists>t. rows w' = ?upd t)) ?E)
        ?E w" for d
      by (rule wp_mono [OF set_state [OF assms(1,3)]]) (use log in auto)
    with Some show ?thesis by (simp add: VkStateService_transition_def assms(6,7) get Let_def)
  qed
qed

end

section \<open>On the database\<close>

definition sql_state_service :: "('x world_scheme) vk_state_service" where
  "sql_state_service =
     \<lparr>ss_user_vk_repo = SQLAlchemyUserVkRepository, ss_vk_log_repo = SQLAlchemyVkLogRepository\<rparr>"

lemma sql_state_service_sel [simp]:
  "ss_user_vk_repo sql_state_service = SQLAlchemyUserVkRepository"
  "ss_vk_log_repo sql_state_service = SQLAlchemyVkLogRepository"
  by (simp_all add: sql_state_service_def)

lemma action_fits [simp]:
  "log_fits ACTION_DENY (lit ''success'')" "log_fits ACTION_DENY (lit ''no_binding'')"
  "log_fits ACTION_ALLOW (lit ''success'')" "log_fits ACTION_ALLOW (lit ''no_binding'')"
  by (simp_all add: log_fits_def fits_varchar_def ACTION_DENY_def ACTION_ALLOW_def)

definition transition_entry :: "int \<Rightarrow> user_vk \<Rightarrow> pystr \<Rightarrow> details" where
  "transition_entry p b s =
     [(vk_peer_id_key, str_int p), (lit ''user_vk_id'', uuid_str (uv_id b)),
      (lit ''previous_state'', uv_state b), (lit ''state'', s)]"

text \<open>The world after a transition, exactly.\<close>

definition moved :: "int \<Rightarrow> pystr \<Rightarrow> pystr \<Rightarrow> 'x world_scheme \<Rightarrow> 'x world_scheme" where
  "moved p s a w =
     (case find (linked_to p) (user_vks (db w)) of
        None \<Rightarrow> append_log a (lit ''no_binding'') [(vk_peer_id_key, str_int p)] w
      | Some b \<Rightarrow> append_log a (lit ''success'') (transition_entry p b s) (state_set (uv_id b) s w))"

lemma linked_row_peer:
  assumes "db_ok d" "find (linked_to p) (user_vks d) = Some b" "r \<in> set (user_vks d)" "live_row (uv_id b) r"
  shows "r = b"
proof -
  have b: "b \<in> set (user_vks d)" "linked_to p b" using assms(2) by (auto simp: find_Some_iff)
  have "filter (live_row (uv_id b)) (user_vks d) = [b]"
    by (rule filter_unique [OF user_vks_live_unique [OF assms(1)], where k = "uv_id b" and r = b])
      (use b in \<open>auto simp: linked_to_def\<close>)
  moreover have "r \<in> set (filter (live_row (uv_id b)) (user_vks d))" using assms(3,4) by simp
  ultimately show ?thesis by (simp only: list.set singleton_iff)
qed

lemma domain_ok_moved_row:
  assumes "domain_ok w" "find (linked_to p) (user_vks (db w)) = Some b" "s = STATE_ACTIVE \<or> s = STATE_BLOCKED"
  shows "domain_ok (state_set (uv_id b) s w)"
proof (rule domain_ok_state_set [OF assms(1,3)])
  fix r assume "r \<in> set (user_vks (db w))" "live_row (uv_id b) r"
  then have "r = b" by (rule linked_row_peer [OF domain_okD(1) [OF assms(1)] assms(2)])
  then show "uv_peer_id r \<noteq> None" using assms(2) by (auto simp: find_Some_iff linked_to_def)
qed

lemma transition_run:
  assumes ok: "domain_ok w" and space: "room 2 w" and p: "fits_bigint p" and s: "s = STATE_ACTIVE \<or> s = STATE_BLOCKED"
    and a: "log_fits a (lit ''success'')" "log_fits a (lit ''no_binding'')"
  shows "VkStateService_transition sql_state_service p s a w =
    (Inr (find (linked_to p) (user_vks (db w)) \<noteq> None), moved p s a w)"
    and "domain_ok (moved p s a w)"
proof -
  have s': "s \<in> set ALLOWED_STATES" using s by auto
  have get: "UserVkRepository_get_by_peer_id p w = (Inr (find (linked_to p) (user_vks (db w))), w)"
    by (rule get_by_peer_id_run [OF domain_okD(1) [OF ok] p])
  have "VkStateService_transition sql_state_service p s a w =
      (Inr (find (linked_to p) (user_vks (db w)) \<noteq> None), moved p s a w) \<and> domain_ok (moved p s a w)"
  proof (cases "find (linked_to p) (user_vks (db w))")
    case None
    then show ?thesis
      using log_action_run [OF domain_okD(1,3) [OF ok] a(2), of "Some [(vk_peer_id_key, str_int p)]"]
        domain_ok_append_log [OF ok a(2)] space
      by (auto simp: VkStateService_transition_def prog_simps get moved_def)
  next
    case (Some b)
    note ok' = domain_ok_moved_row [OF ok Some s]
    show ?thesis
      using Some log_action_run [OF domain_okD(1,3) [OF ok'] a(1), of "Some (transition_entry p b s)"]
        state_set_run [OF ok s', of "uv_id b"] domain_ok_append_log [OF ok' a(1)] space
      by (auto simp: VkStateService_transition_def prog_simps get moved_def Let_def transition_entry_def room_def)
  qed
  then show "VkStateService_transition sql_state_service p s a w =
    (Inr (find (linked_to p) (user_vks (db w)) \<noteq> None), moved p s a w)" "domain_ok (moved p s a w)"
    by simp_all
qed

lemma moved_frame [simp]:
  "committed (moved p s a w) = committed w" "outbox (moved p s a w) = outbox w" "drawn (moved p s a w) = drawn w + 2"
  by (simp_all add: moved_def split: option.split)

text \<open>After a transition the account's row, and no other, has the state.\<close>

lemma moved_rows:
  assumes "domain_ok w" "find (linked_to p) (user_vks (db w)) = Some b"
  defines "t \<equiv> clock w (tick w)"
  shows "user_vks (db (moved p s a w)) = map (\<lambda>r. if r = b then with_state s t r else r) (user_vks (db w))"
    and "find (linked_to p) (user_vks (db (moved p s a w))) = Some (with_state s t b)"
proof -
  have b: "b \<in> set (user_vks (db w))" "linked_to p b" using assms(2) by (auto simp: find_Some_iff)
  have one: "live_row (uv_id b) r \<longleftrightarrow> r = b" if "r \<in> set (user_vks (db w))" for r
    using linked_row_peer [OF domain_okD(1) [OF assms(1)] assms(2) that] b by (auto simp: linked_to_def)
  have eq: "update_where (live_row (uv_id b)) (with_state s t) (user_vks (db w)) =
      map (\<lambda>r. if r = b then with_state s t r else r) (user_vks (db w))"
    unfolding update_where_def by (rule map_cong [OF refl]) (use one in \<open>simp only: refl\<close>)
  then show rows: "user_vks (db (moved p s a w)) = map (\<lambda>r. if r = b then with_state s t r else r) (user_vks (db w))"
    using assms(2) by (simp add: moved_def t_def)
  have "find (linked_to p) (update_where (live_row (uv_id b)) (with_state s t) rows) = Some (with_state s t b)"
    if "find (linked_to p) rows = Some b" for rows
    using that by (induction rows) (auto simp: update_where_def linked_to_def split: if_splits)
  from this [OF assms(2)] show "find (linked_to p) (user_vks (db (moved p s a w))) = Some (with_state s t b)"
    unfolding eq rows .
qed

interpretation sql_changer: state_changer
  SQLAlchemyUserVkRepository "\<lambda>w. user_vks (db w)" beside_user_vks store_ok SQLAlchemyVkLogRepository log_fits
proof unfold_locales
  fix w :: "'x world_scheme" and a s :: pystr and d :: "details option"
  assume ok: "store_ok w" "log_fits a s"
  let ?d = "case d of None \<Rightarrow> [] | Some x \<Rightarrow> x" and ?w = "w\<lparr>drawn := drawn w + 2, tick := Suc (tick w)\<rparr>"
  have f: "fresh_supply w" using ok(1) by (simp add: store_ok_def)
  have refused: "store_ok ?w" using ok(1) by (auto simp: store_ok_def intro: fresh_supply_same)
  have run: "VkLogRepository_log_action a s d w =
      (if columns_ok (db (append_log a s ?d w)) \<and> constraints_ok (db (append_log a s ?d w))
       then (Inr (last (vk_logs (db (append_log a s ?d w)))), append_log a s ?d w)
       else (Inl (if columns_ok (db (append_log a s ?d w))
                  then Exn IntegrityError (lit ''constraint violated'') else Exn DataError (lit ''value out of range'')), ?w))"
    by (simp add: VkLogRepository_log_action_def prog_simps append_log_def Let_def new_log_def exec_write_def)
  show "wp (lr_log_action SQLAlchemyVkLogRepository a s d)
      (\<lambda>r w'. store_ok w' \<and> user_vks (db w') = user_vks (db w))
      (\<lambda>e w'. store_ok w' \<and> user_vks (db w') = user_vks (db w)) w"
    using ok(1) refused fresh_supply_append_log [OF f, of a s ?d]
    by (auto simp: wp_def run store_ok_def db_ok_def)
qed

section \<open>Properties\<close>

text \<open>
  A user who forbids messages blocks the binding of the account, and one who allows them again makes
  it active: the row of the account gets the state and keeps everything else but its time, all other
  rows stay as they are, and the invariant of the stored data holds.  Without a binding of the
  account nothing changes.  Neither ever fails.
\<close>

theorem block_unblock_correct:
  fixes w :: "'x world_scheme"
  assumes "domain_ok w" "room 2 w" "fits_bigint p"
    and "m = VkStateService_block sql_state_service p \<and> s = STATE_BLOCKED \<or>
         m = VkStateService_unblock sql_state_service p \<and> s = STATE_ACTIVE"
  shows "wp m
    (\<lambda>changed w'. domain_ok w' \<and> committed w' = committed w \<and> outbox w' = outbox w \<and>
       (changed \<longleftrightarrow> find (linked_to p) (user_vks (db w)) \<noteq> None) \<and>
       (case find (linked_to p) (user_vks (db w)) of
          None \<Rightarrow> user_vks (db w') = user_vks (db w)
        | Some b \<Rightarrow> \<exists>t. find (linked_to p) (user_vks (db w')) = Some (with_state s t b) \<and>
            user_vks (db w') = map (\<lambda>r. if r = b then with_state s t r else r) (user_vks (db w))))
    (\<lambda>e w'. False) w"
proof -
  obtain a where m: "m = VkStateService_transition sql_state_service p s a" and s: "s = STATE_ACTIVE \<or> s = STATE_BLOCKED"
    and a: "log_fits a (lit ''success'')" "log_fits a (lit ''no_binding'')"
    using assms(4) action_fits unfolding VkStateService_block_def VkStateService_unblock_def by metis
  note run = transition_run [OF assms(1-3) s a]
  show ?thesis
  proof (cases "find (linked_to p) (user_vks (db w))")
    case None
    with run show ?thesis by (simp add: wp_def m moved_def)
  next
    case (Some b)
    with run moved_rows [OF assms(1) Some, of s a] show ?thesis by (auto simp: wp_def m)
  qed
qed

end
