(* ===== verification/Sample.thy ===== *)
theory Sample
  imports Binding_Service Confirmation_Service State_Service Delivery_Service
begin

text \<open>
  A concrete world, on which every hypothesis of the properties holds, and the witnesses of the
  properties of the services there.

  Three owners: one (11) waits for its code \<open>ABCD2345\<close>, one (12) is linked to the account 500, one
  (13) to the account 501, to which the VK API refuses messages.  A command addresses the last two.
\<close>

section \<open>The world\<close>

definition sample_time :: datetime where
  "sample_time = 1750000000000000"

definition sample_binding :: "uuid \<Rightarrow> uuid \<Rightarrow> int option \<Rightarrow> pystr \<Rightarrow> user_vk" where
  "sample_binding i u p s =
     \<lparr>uv_id = i, uv_user_id = u, uv_peer_id = p, uv_state = s, uv_screen_name = None,
      uv_display_name = None, uv_deleted_at = None, uv_created_at = sample_time, uv_updated_at = sample_time\<rparr>"

definition sample_code :: vk_confirmation where
  "sample_code =
     \<lparr>cf_id = 21, cf_user_vk_id = 1, cf_code = lit ''ABCD2345'', cf_expires_at = sample_time + 900000000,
      cf_created_at = sample_time, cf_used_at = None\<rparr>"

definition sample_db :: db where
  "sample_db =
     \<lparr>user_vks = [sample_binding 1 11 None STATE_PENDING, sample_binding 2 12 (Some 500) STATE_ACTIVE,
                  sample_binding 3 13 (Some 501) STATE_ACTIVE],
      vk_confirmations = [sample_code], vk_logs = [], vk_deliveries = []\<rparr>"

definition sample_world :: world where
  "sample_world =
     \<lparr>db = sample_db, committed = sample_db, tick = 0, drawn = 0,
      clock = (\<lambda>t. sample_time + int t), db_now = (\<lambda>t. sample_time + int t), random = (\<lambda>t. t),
      uuids = (\<lambda>n. word_of_nat (n + 1000)), vk_send_answer = (\<lambda>t p m r. p \<noteq> 501),
      vk_users_answer = (\<lambda>t i. None), hashtext = (\<lambda>s. 0), locks = [], outbox = []\<rparr>"

definition sample_ucd :: ucd where
  "sample_ucd =
     \<lparr>u_upper = (\<lambda>c. [c]), u_lower = (\<lambda>a c b. [c]), u_casefold = (\<lambda>c. [c]),
      u_decimal = (\<lambda>c. if 48 \<le> c \<and> c \<le> 57 then Some (c - 48) else None), u_digit = (\<lambda>c. 48 \<le> c \<and> c \<le> 57)\<rparr>"

definition sample_command :: notification_command where
  "sample_command =
     \<lparr>cm_event_uuid = 77, cm_callback_request_id = 78, cm_user_ids = [12, 13], cm_text = lit ''hello''\<rparr>"

section \<open>Its data is consistent\<close>

lemmas sample_defs =
  sample_db_def sample_binding_def sample_code_def sample_time_def state_defs ALLOWED_STATES_def

lemma db_ok_sample: "db_ok sample_db"
  by (simp add: db_ok_def columns_ok_def constraints_ok_def user_vks_ok_def vk_confirmations_ok_def vk_logs_ok_def
      vk_deliveries_ok_def user_vk_fits_def vk_confirmation_fits_def opt_fits_def fits_bigint_def fits_varchar_def
      sample_defs)

lemma bindings_ok_sample: "bindings_ok sample_db"
  by (simp add: bindings_ok_def binding_ok_def awaiting_def unused_of_def sample_defs)

lemma sample_uuid_inj:
  assumes "i < 2 ^ 65" "j < 2 ^ 65" "(word_of_nat i :: uuid) = word_of_nat j"
  shows "i = j"
proof -
  have "unat (word_of_nat i :: uuid) = i" "unat (word_of_nat j :: uuid) = j"
    using assms(1,2) by (simp_all add: unat_of_nat take_bit_nat_eq_self_iff)
  with assms(3) show ?thesis by metis
qed

lemma fresh_sample: "fresh_supply sample_world"
proof -
  have "inj_on (\<lambda>n. word_of_nat (n + 1000) :: uuid) {0..<uuid_limit}"
  proof (rule inj_onI)
    fix i j assume "i \<in> {0..<uuid_limit}" "j \<in> {0..<uuid_limit}"
      "(word_of_nat (i + 1000) :: uuid) = word_of_nat (j + 1000)"
    then have "i + 1000 = j + 1000" by (intro sample_uuid_inj) (auto simp: uuid_limit_def)
    then show "i = j" by simp
  qed
  moreover have "(word_of_nat (t + 1000) :: uuid) \<notin> {1, 2, 3, 21}" if "t < uuid_limit" for t
  proof -
    have "(word_of_nat (t + 1000) :: uuid) \<noteq> word_of_nat k" if "k < 1000" for k
    proof
      assume "(word_of_nat (t + 1000) :: uuid) = word_of_nat k"
      then have "t + 1000 = k" using that \<open>t < uuid_limit\<close> by (intro sample_uuid_inj) (auto simp: uuid_limit_def)
      with that show False by simp
    qed
    from this [of 1] this [of 2] this [of 3] this [of 21] show ?thesis by simp
  qed
  moreover have "ids_of sample_db = {1, 2, 3, 21}"
    by (auto simp: ids_of_def sample_defs)
  ultimately show ?thesis
    by (auto simp: fresh_supply_def undrawn_def sample_world_def)
qed

lemma sample_world_sel [simp]:
  "db sample_world = sample_db" "committed sample_world = sample_db" "tick sample_world = 0" "drawn sample_world = 0"
  "clock sample_world t = sample_time + int t" "uuids sample_world n = word_of_nat (n + 1000)"
  by (simp_all add: sample_world_def)

lemma domain_ok_sample: "domain_ok sample_world"
  by (simp add: domain_ok_def db_ok_sample bindings_ok_sample fresh_sample)

lemma room_sample: "n \<le> 1000 \<Longrightarrow> room n sample_world"
  by (simp add: room_def uuid_limit_def)

lemma window_sample: "window_in_range 15 sample_world"
  by (simp add: window_in_range_def window_start_def sample_time_def datetime_min_def datetime_max_def)


section \<open>Witnesses\<close>

theorem issue_confirmation_correct_witness:
  "wp (VkBindingService_issue_confirmation (sql_binding_service 15 8 None) 11)
    (\<lambda>r w'. domain_ok w' \<and> ic_state r = STATE_PENDING \<and> well_formed_code 8 (ic_code r) \<and>
       ic_code r \<noteq> lit ''ABCD2345'' \<and> sample_time + 900000000 < ic_expires_at r)
    (\<lambda>e w'. domain_ok w' \<and> (exn_class e = ConflictError \<or> exn_class e = OverflowError)) sample_world"
  by (rule wp_mono [OF issue_confirmation_correct [OF domain_ok_sample, of 11 15 8 None]])
    (auto simp: room_sample sample_db_def sample_code_def sample_binding_def owned_by_def simp flip: of_nat_less_iff)

theorem unlink_correct_witness:
  "wp (VkBindingService_unlink (sql_binding_service 15 8 (Some VkbottleMessenger)) 12)
    (\<lambda>done w'. done \<and> find (owned_by 12) (user_vks (db w')) = None \<and> vk_confirmations (db w') = [sample_code] \<and>
       sent_between sample_world w' [(500, UNLINK_MESSAGE)]) (\<lambda>e w'. False) sample_world"
  by (rule wp_mono [OF unlink_correct [OF domain_ok_sample, of 15 8 12]])
    (auto simp: room_sample sample_db_def sample_binding_def sample_code_def owned_by_def unlink_notice_def used_up_def)

abbreviation sample_confirm :: "int \<Rightarrow> world \<Rightarrow> (exn + confirmation_result) \<times> world" where
  "sample_confirm p w \<equiv> VkConfirmationService_confirm (sql_confirmation_service 5 15 sample_ucd)
     (lit '' abcd2345 '') p None (Some (lit ''Eve'')) w"

lemma sample_typed: "normalize_code sample_ucd (lit '' abcd2345 '') = lit ''ABCD2345''"
  by (simp add: normalize_code_def py_strip_def py_strip_chars_def py_lstrip_def py_rstrip_def py_isspace_def
      py_upper_def upper_cp_def lit_def)

lemma sample_peer: "fits_bigint 700" "names_fit None (Some (lit ''Eve''))"
  by (simp_all add: fits_bigint_def names_fit_def opt_fits_def fits_varchar_def)

lemmas sample_confirms = domain_ok_sample room_sample [of 2, simplified] window_sample sample_peer

lemma sample_verdict:
  "confirm_verdict sample_db 5 (window_start 15 sample_world) (clock sample_world (Suc (tick sample_world)))
     (lit ''ABCD2345'') 700 = Linkable (sample_binding 1 11 None STATE_PENDING) sample_code"
  by (simp add: confirm_verdict_def failed_attempts_def linked_to_def sample_defs)

theorem confirm_refines_verdict_witness:
  "sample_confirm 700 sample_world =
     (Inr \<lparr>cn_status = lit ''confirmed'', cn_user_id = 11, cn_user_vk_id = 1\<rparr>,
      verdict_world 700 None (Some (lit ''Eve'')) (lit ''ABCD2345'')
        (Linkable (sample_binding 1 11 None STATE_PENDING) sample_code) sample_world)"
  using confirm_refines_verdict [OF sample_confirms, of 5 sample_ucd "lit '' abcd2345 ''"] sample_verdict
  by (simp add: Let_def sample_typed sample_code_def sample_binding_def)

lemma sample_confirm_run:
  "sample_confirm 700 sample_world =
     (Inr \<lparr>cn_status = lit ''confirmed'', cn_user_id = 11, cn_user_vk_id = 1\<rparr>,
      verdict_world 700 None (Some (lit ''Eve'')) (lit ''ABCD2345'')
        (Linkable (sample_binding 1 11 None STATE_PENDING) sample_code) sample_world)"
  using confirm_run [OF sample_confirms, of 5 sample_ucd "lit '' abcd2345 ''"] sample_verdict
  by (simp add: Let_def sample_typed sample_code_def sample_binding_def)

theorem confirm_links_by_right_witness:
  "\<exists>w' t. sample_confirm 700 sample_world =
       (Inr \<lparr>cn_status = lit ''confirmed'', cn_user_id = 11, cn_user_vk_id = 1\<rparr>, w') \<and>
     find (\<lambda>r. uv_id r = 1) (user_vks (db w')) =
       Some (activated 700 None (Some (lit ''Eve'')) t (sample_binding 1 11 None STATE_PENDING))"
  using wp_InrD [OF confirm_links_by_right [OF sample_confirms, of 5 sample_ucd "lit '' abcd2345 ''"] sample_confirm_run]
  by (auto simp: sample_confirm_run sample_typed sample_db_def sample_code_def sample_binding_def split: if_splits)

theorem confirm_frame_witness:
  "case sample_confirm 700 sample_world of (r, w') \<Rightarrow>
     domain_ok w' \<and> committed w' = sample_db \<and> outbox w' = outbox sample_world"
  using confirm_frame [OF sample_confirms, of 5 sample_ucd "lit '' abcd2345 ''"]
  by (simp add: case_prod_beta)

text \<open>Two wrong guesses of an account, under a limit of two; the third text, the right code, is refused.\<close>

abbreviation sample_guess :: "pystr \<Rightarrow> world \<Rightarrow> (exn + confirmation_result) \<times> world" where
  "sample_guess code w \<equiv> VkConfirmationService_confirm (sql_confirmation_service 2 15 sample_ucd) code 700 None
     (Some (lit ''Eve'')) w"

definition sample_guessed :: "world \<Rightarrow> world" where
  "sample_guessed w = verdict_world 700 None (Some (lit ''Eve'')) (lit ''ZZZZ9999'') Unknown w"

lemma sample_guessed_sel:
  "vk_confirmations (db (sample_guessed w)) = vk_confirmations (db w)" "user_vks (db (sample_guessed w)) = user_vks (db w)"
  "clock (sample_guessed w) = clock w" "db_now (sample_guessed w) = db_now w" "tick (sample_guessed w) = tick w + 2"
  "drawn (sample_guessed w) = drawn w + 2"
  "failed_attempts (vk_logs (db (sample_guessed w))) 700 since =
     failed_attempts (vk_logs (db w)) 700 since + (if since \<le> db_now w (Suc (tick w)) then 1 else 0)"
proof -
  obtain l where l: "vk_logs (db (sample_guessed w)) = vk_logs (db w) @ [l]" "lg_action l = ACTION_CONFIRMATION"
      "lg_status l = lit ''not_found''" "map_of (lg_details l) vk_peer_id_key = Some (str_int 700)"
    using verdict_world_journal [of 700 None "Some (lit ''Eve'')" "lit ''ZZZZ9999''" Unknown w]
    by (auto simp: sample_guessed_def)
  have "lg_created_at (last (vk_logs (db (sample_guessed w)))) = db_now w (Suc (tick w))"
    by (simp add: sample_guessed_def verdict_world_def journalled_def append_log_def new_log_def later_def)
  with l show "failed_attempts (vk_logs (db (sample_guessed w))) 700 since =
     failed_attempts (vk_logs (db w)) 700 since + (if since \<le> db_now w (Suc (tick w)) then 1 else 0)"
    by (simp add: failed_attempts_def FAILED_STATUSES_def)
qed (simp_all add: sample_guessed_def verdict_world_def journalled_def append_log_def later_def)

lemma sample_guess_run:
  assumes "domain_ok w" "room 2 w" "window_in_range 15 w" "failed_attempts (vk_logs (db w)) 700 (window_start 15 w) < 2"
    and "vk_confirmations (db w) = [sample_code]"
  shows "sample_guess (lit ''zzzz9999'') w = (Inl (Exn NotFoundError msg_code_invalid), sample_guessed w)"
    "domain_ok (sample_guessed w)"
proof -
  have code: "normalize_code sample_ucd (lit ''zzzz9999'') = lit ''ZZZZ9999''"
    by (simp add: normalize_code_def py_strip_def py_strip_chars_def py_lstrip_def py_rstrip_def py_isspace_def
        py_upper_def upper_cp_def lit_def)
  have v: "confirm_verdict (db w) 2 (window_start 15 w) now (lit ''ZZZZ9999'') 700 = Unknown" for now
    using assms(4,5) by (simp add: confirm_verdict_def sample_code_def lit_def)
  show "sample_guess (lit ''zzzz9999'') w = (Inl (Exn NotFoundError msg_code_invalid), sample_guessed w)"
    using confirm_run [OF assms(1-3) sample_peer, of 2 sample_ucd "lit ''zzzz9999''"] by (simp add: code v sample_guessed_def)
  show "domain_ok (sample_guessed w)"
    unfolding sample_guessed_def by (rule domain_ok_verdict_world [OF assms(1,2) sample_peer v [symmetric]])
qed

theorem rate_limit_bounds_guessing_witness:
  "sample_guess (lit ''zzzz9999'') sample_world = (Inl (Exn NotFoundError msg_code_invalid), sample_guessed sample_world) \<and>
   sample_guess (lit ''zzzz9999'') (sample_guessed sample_world) =
     (Inl (Exn NotFoundError msg_code_invalid), sample_guessed (sample_guessed sample_world)) \<and>
   (case sample_guess (lit ''ABCD2345'') (sample_guessed (sample_guessed sample_world)) of (r, w') \<Rightarrow>
      r = Inl (Exn RateLimitedError msg_rate_limited) \<and> vk_confirmations (db w') = [sample_code])"
proof -
  have now: "db_now sample_world t = sample_time + int t" for t by (simp add: sample_world_def)
  have codes: "vk_confirmations (db sample_world) = [sample_code]" "vk_logs (db sample_world) = []"
    by (simp_all add: sample_db_def)
  have range: "window_in_range 15 (sample_guessed sample_world)"
    "window_in_range 15 (sample_guessed (sample_guessed sample_world))"
    by (simp_all add: window_in_range_def window_start_def sample_guessed_sel sample_time_def datetime_min_def datetime_max_def)
  have none: "failed_attempts (vk_logs sample_db) 700 since = 0" for since
    using codes(2) by (simp add: failed_attempts_def)
  have few: "failed_attempts (vk_logs (db sample_world)) 700 since = 0"
    "failed_attempts (vk_logs (db (sample_guessed sample_world))) 700 since < 2" for since
    by (simp_all add: sample_guessed_sel none)
  have two: "failed_attempts (vk_logs (db (sample_guessed (sample_guessed sample_world)))) 700
      (window_start 15 (sample_guessed (sample_guessed sample_world))) = 2"
    by (simp add: window_start_def sample_guessed_sel now none)
  note one = sample_guess_run [OF domain_ok_sample room_sample window_sample _ codes(1), simplified few]
  have rm: "room 2 (sample_guessed sample_world)" "room 2 (sample_guessed (sample_guessed sample_world))"
    by (simp_all add: room_def uuid_limit_def sample_guessed_sel)
  have ok1: "domain_ok (sample_guessed sample_world)" using one(2) by simp
  have codes1: "vk_confirmations (db (sample_guessed sample_world)) = [sample_code]"
    by (simp add: sample_guessed_sel) (simp add: sample_db_def)
  note next_guess = sample_guess_run [OF ok1 rm(1) range(1) few(2) codes1]
  from rate_limit_bounds_guessing [OF next_guess(2) rm(2) range(2) sample_peer, of 2 sample_ucd "lit ''ABCD2345''"]
  have "case sample_guess (lit ''ABCD2345'') (sample_guessed (sample_guessed sample_world)) of (r, w') \<Rightarrow>
      r = Inl (Exn RateLimitedError msg_rate_limited) \<and> vk_confirmations (db w') = [sample_code]"
    unfolding two using codes1 by (auto simp: case_prod_beta sample_guessed_sel(1))
  with one(1) next_guess(1) show ?thesis by simp
qed

lemma sample_again:
  "room 2 (snd (sample_confirm 700 sample_world))" "window_in_range 15 (snd (sample_confirm 700 sample_world))"
  "failed_attempts (vk_logs (db (snd (sample_confirm 700 sample_world)))) 700 since < 5"
  unfolding sample_confirm_run
  by (auto simp: verdict_world_def room_def uuid_limit_def window_in_range_def window_start_def journalled_def
      append_log_def new_log_def failed_attempts_def FAILED_STATUSES_def sample_defs datetime_min_def datetime_max_def)

theorem confirm_again_recognised_witness:
  "case sample_confirm 700 (snd (sample_confirm 700 sample_world)) of (r', w'') \<Rightarrow>
     r' = Inr \<lparr>cn_status = lit ''already_confirmed'', cn_user_id = 11, cn_user_vk_id = 1\<rparr> \<and>
     user_vks (db w'') = user_vks (db (snd (sample_confirm 700 sample_world)))"
proof -
  obtain w' where run: "sample_confirm 700 sample_world =
      (Inr \<lparr>cn_status = lit ''confirmed'', cn_user_id = 11, cn_user_vk_id = 1\<rparr>, w')"
    using sample_confirm_run by simp
  from confirm_again_recognised [OF sample_confirms run] sample_again run
  show ?thesis by (simp add: case_prod_beta)
qed

theorem block_unblock_correct_witness:
  "wp (VkStateService_block sql_state_service 500)
    (\<lambda>changed w'. changed \<and> (\<exists>t. find (linked_to 500) (user_vks (db w')) =
       Some (with_state STATE_BLOCKED t (sample_binding 2 12 (Some 500) STATE_ACTIVE)))) (\<lambda>e w'. False) sample_world"
  by (rule wp_mono [OF block_unblock_correct [OF domain_ok_sample, of 500 _ STATE_BLOCKED]])
    (auto simp: room_sample fits_bigint_def sample_db_def sample_binding_def linked_to_def)

section \<open>Deliveries\<close>

abbreviation sample_deliver :: "uuid list \<Rightarrow> world \<Rightarrow> (exn + unit) \<times> world" where
  "sample_deliver us w \<equiv>
     VkNotificationDeliveryService_deliver sql_delivery_service (sample_command\<lparr>cm_user_ids := us\<rparr>) w"

lemma sample_reachable:
  "active_peers (filter (matches_ids [12] (Some STATE_ACTIVE)) (user_vks (db sample_world))) 12 = Some 500"
  "active_peers (filter (matches_ids [13] (Some STATE_ACTIVE)) (user_vks (db sample_world))) 13 = Some 501"
  by (simp_all add: active_peers_def matches_ids_def sample_defs)

lemma sample_answers: "vk_send_answer sample_world t p m r \<longleftrightarrow> p \<noteq> 501"
  by (simp add: sample_world_def)

lemma sample_nothing_sent [simp]: "messages_sent sample_world = []"
  by (simp add: messages_sent_def sample_world_def)

lemma sample_command_sel [simp]:
  "cm_event_uuid sample_command = 77" "cm_user_ids sample_command = [12, 13]" "cm_text sample_command = lit ''hello''"
  by (simp_all add: sample_command_def)

lemma sample_ledger [simp]: "vk_deliveries sample_db = []"
  by (simp add: sample_db_def)

lemma sample_reach:
  "reachable_at sample_db 12 = Some 500" "reachable_at sample_db 13 = Some 501"
  by (simp_all add: reachable_at_def owned_by_def sample_defs)

lemma sample_deliver_runs:
  "fst (sample_deliver [12] sample_world) = Inr ()" "room 1 (snd (sample_deliver [12] sample_world))"
  "fst (sample_deliver [13] sample_world) =
     Inl (Exn VkDeliveryRetryableError (lit ''VK delivery has retryable recipient failures''))"
  "room 1 (snd (sample_deliver [13] sample_world))"
proof -
  note run = deliver_to_one_run [where w = sample_world, OF domain_okD(1,3) [OF domain_ok_sample] room_sample]
  note one = run [of "sample_command\<lparr>cm_user_ids := [12]\<rparr>" 12 500 True]
  show "fst (sample_deliver [12] sample_world) = Inr ()" "room 1 (snd (sample_deliver [12] sample_world))"
    using one sample_reachable by (simp_all add: sample_answers fits_bigint_def room_def uuid_limit_def)
  note two = run [of "sample_command\<lparr>cm_user_ids := [13]\<rparr>" 13 501 False]
  show "fst (sample_deliver [13] sample_world) =
      Inl (Exn VkDeliveryRetryableError (lit ''VK delivery has retryable recipient failures''))"
    "room 1 (snd (sample_deliver [13] sample_world))"
    using two sample_reachable by (simp_all add: sample_answers fits_bigint_def room_def uuid_limit_def)
qed

theorem deliver_correct_witness:
  "wp (VkNotificationDeliveryService_deliver sql_delivery_service sample_command)
    (\<lambda>_ w'. messages_sent w' = [(500, lit ''hello''), (501, lit ''hello'')]) (\<lambda>x w'. domain_ok w') sample_world"
  by (rule wp_mono [OF deliver_correct [OF domain_ok_sample]])
    (simp_all add: room_sample notices_def due_recipients_def sample_reach ledger_of_def)

theorem redelivery_sends_nothing_witness:
  "wp (sample_deliver [12]) (\<lambda>_ w''. messages_sent w'' = [(500, lit ''hello'')]) (\<lambda>x w''. False)
     (snd (sample_deliver [12] sample_world))"
proof -
  have run: "sample_deliver [12] sample_world = (Inr (), snd (sample_deliver [12] sample_world))"
    using sample_deliver_runs(1) by (cases "sample_deliver [12] sample_world") simp
  show ?thesis
    by (rule wp_mono [OF redelivery_sends_nothing [OF domain_ok_sample _ _ run]])
      (simp_all add: sample_deliver_runs [unfolded One_nat_def] room_sample notices_def due_recipients_def sample_reach ledger_of_def)
qed

theorem retry_writes_to_failed_only_witness:
  "wp (sample_deliver [13])
     (\<lambda>_ w''. is_sent (ledger_in w'' (77, 13))) (\<lambda>_ _. True) (snd (sample_deliver [13] sample_world))"
proof -
  have run: "sample_deliver [13] sample_world =
      (Inl (Exn VkDeliveryRetryableError (lit ''VK delivery has retryable recipient failures'')),
       snd (sample_deliver [13] sample_world))"
    using sample_deliver_runs(3) by (cases "sample_deliver [13] sample_world") simp
  show ?thesis
    by (rule wp_mono [OF retry_writes_to_failed_only [OF domain_ok_sample _ _ run]])
      (simp_all add: sample_deliver_runs [unfolded One_nat_def] room_sample due_recipients_def sample_reach ledger_of_def)
qed

end
