(* ===== verification/Vks_Api.thy ===== *)
theory Vks_Api
  imports Binding_Service Confirmation_Service State_Service Sessions Settings
begin

text \<open>
  The HTTP interface: \<open>api/dependencies.py\<close>, \<open>api/endpoints/vks.py\<close>, \<open>api/schemas/vk.py\<close> and the exception handlers of
  \<open>main.py\<close>.

  The framework parses bodies and path parameters: a request of the model carries the parsed
  identifier, or \<open>None\<close> when that failed (\<open>RequestValidationError\<close>).  A response is its status and a
  body; an exception no handler takes leaves the request as an exception, which the server answers
  with status 500.
\<close>

section \<open>Schemas\<close>

record vk_binding_response =
  br_id :: uuid
  br_user_id :: uuid
  br_vk_peer_id :: "int option"
  br_state :: pystr
  br_vk_screen_name :: "pystr option"
  br_vk_display_name :: "pystr option"

definition VkBindingResponse :: "user_vk \<Rightarrow> vk_binding_response" where
  "VkBindingResponse r =
     \<lparr>br_id = uv_id r, br_user_id = uv_user_id r, br_vk_peer_id = uv_peer_id r, br_state = uv_state r,
      br_vk_screen_name = uv_screen_name r, br_vk_display_name = uv_display_name r\<rparr>"

record vk_bot_info_response =
  bi_group_id :: int
  bi_group_screen_name :: pystr
  bi_link_command :: pystr
  bi_group_url :: pystr
  bi_dialog_url :: pystr

record vk_issue_confirmation_response =
  ir_code :: pystr
  ir_expires_at :: datetime
  ir_state :: pystr
  ir_link_command :: pystr
  ir_dialog_url :: pystr

datatype http_body =
    Detail pystr | Validation_Errors | Health_Ok | No_Content
  | Bindings "vk_binding_response list" | Binding vk_binding_response
  | Bot_Info vk_bot_info_response | Issued vk_issue_confirmation_response

record http_response =
  rs_status :: int
  rs_body :: http_body

section \<open>Query parameters\<close>

fun parse_chunks :: "ucd \<Rightarrow> pystr list \<Rightarrow> ('w, uuid list) prog" where
  "parse_chunks u [] = retM []"
| "parse_chunks u (chunk # chunks) =
     (let candidate = py_strip chunk in
      if candidate = [] then parse_chunks u chunks
      else
        (case uuid_of_str u candidate of
           None \<Rightarrow> raiseM ClientError (msg_bad_user_id @ candidate)
         | Some i \<Rightarrow> bindM (parse_chunks u chunks) (\<lambda>is. retM (i # is))))"

definition parse_user_ids :: "ucd \<Rightarrow> pystr \<Rightarrow> ('w, uuid list) prog" where
  "parse_user_ids u raw =
     bindM (parse_chunks u (py_split_on 44 raw)) (\<lambda>parsed.
       if parsed = [] then raiseM ClientError msg_no_user_ids else retM parsed)"

definition validate_state :: "pystr option \<Rightarrow> ('w, pystr option) prog" where
  "validate_state state =
     (case state of
        None \<Rightarrow> retM None
      | Some s \<Rightarrow> if s \<notin> set ALLOWED_STATES then raiseM ClientError (msg_bad_state @ s) else retM (Some s))"

section \<open>Dependencies and endpoints\<close>

definition get_vk_binding_service :: "vk_settings \<Rightarrow> ('x world_scheme) vk_binding_service" where
  "get_vk_binding_service s =
     \<lparr>bs_user_vk_repo = SQLAlchemyUserVkRepository,
      bs_confirmation_repo = SQLAlchemyVkConfirmationRepository,
      bs_vk_log_repo = SQLAlchemyVkLogRepository,
      bs_ttl_minutes = vk_confirmation_ttl_minutes s, bs_code_length = vk_confirmation_code_length s,
      bs_messenger = Some VkbottleMessenger, bs_runtime = python_runtime\<rparr>"

text \<open>No endpoint depends on these two; the bot builds its services itself.\<close>

definition get_vk_confirmation_service :: "ucd \<Rightarrow> vk_settings \<Rightarrow> ('x world_scheme) vk_confirmation_service" where
  "get_vk_confirmation_service u s =
     \<lparr>cs_confirmation_repo = SQLAlchemyVkConfirmationRepository,
      cs_user_vk_repo = SQLAlchemyUserVkRepository,
      cs_vk_log_repo = SQLAlchemyVkLogRepository,
      cs_max_attempts = vk_confirmation_max_attempts s,
      cs_attempt_window_minutes = vk_confirmation_attempt_window_minutes s,
      cs_runtime = python_runtime, cs_ucd = u\<rparr>"

definition get_vk_state_service :: "('x world_scheme) vk_state_service" where
  "get_vk_state_service =
     \<lparr>ss_user_vk_repo = SQLAlchemyUserVkRepository, ss_vk_log_repo = SQLAlchemyVkLogRepository\<rparr>"

definition get_bindings :: "ucd \<Rightarrow> vk_settings \<Rightarrow> pystr \<Rightarrow> pystr option \<Rightarrow> ('x world_scheme, http_response) prog" where
  "get_bindings u s user_ids state =
     bindM (parse_user_ids u user_ids) (\<lambda>ids.
     bindM (validate_state state) (\<lambda>st.
     bindM (VkBindingService_get_bindings (get_vk_binding_service s) ids st) (\<lambda>rows.
       retM \<lparr>rs_status = 200, rs_body = Bindings (map VkBindingResponse rows)\<rparr>)))"

definition get_bot_info :: "vk_settings \<Rightarrow> ('w, http_response) prog" where
  "get_bot_info s =
     (if \<not> is_group_configured s then raiseM ServiceUnavailableError msg_group_not_configured
      else retM \<lparr>rs_status = 200,
        rs_body = Bot_Info
          \<lparr>bi_group_id = vk_group_id s, bi_group_screen_name = py_strip (vk_group_screen_name s),
           bi_link_command = vk_bot_link_command s, bi_group_url = group_url s, bi_dialog_url = dialog_url s\<rparr>\<rparr>)"

definition create_binding :: "vk_settings \<Rightarrow> uuid \<Rightarrow> ('x world_scheme, http_response) prog" where
  "create_binding s user_id =
     bindM (VkBindingService_ensure_binding (get_vk_binding_service s) user_id) (\<lambda>(binding, created).
       retM \<lparr>rs_status = (if created then 201 else 200), rs_body = Binding (VkBindingResponse binding)\<rparr>)"

definition issue_confirmation :: "vk_settings \<Rightarrow> uuid \<Rightarrow> ('x world_scheme, http_response) prog" where
  "issue_confirmation s user_id =
     bindM (VkBindingService_issue_confirmation (get_vk_binding_service s) user_id) (\<lambda>issued.
       retM \<lparr>rs_status = 201,
         rs_body = Issued
           \<lparr>ir_code = ic_code issued, ir_expires_at = ic_expires_at issued, ir_state = ic_state issued,
            ir_link_command = vk_bot_link_command s, ir_dialog_url = dialog_url s\<rparr>\<rparr>)"

definition delete_binding :: "vk_settings \<Rightarrow> uuid \<Rightarrow> ('x world_scheme, http_response) prog" where
  "delete_binding s user_id =
     thenM (VkBindingService_unlink (get_vk_binding_service s) user_id)
       (retM \<lparr>rs_status = 204, rs_body = No_Content\<rparr>)"

section \<open>The application\<close>

datatype http_request =
    Get_Bindings "pystr option" "pystr option" | Get_Bot_Info | Create_Binding "uuid option"
  | Issue_Confirmation "uuid option" | Delete_Binding "uuid option" | Get_Health

definition app_error_handler :: "exn \<Rightarrow> http_response" where
  "app_error_handler e = \<lparr>rs_status = the (status_code (exn_class e)), rs_body = Detail (message e)\<rparr>"

definition validation_error_handler :: http_response where
  "validation_error_handler = \<lparr>rs_status = 400, rs_body = Validation_Errors\<rparr>"

definition with_parsed ::
    "'a option \<Rightarrow> ('a \<Rightarrow> ('x world_scheme, http_response) prog) \<Rightarrow> ('x world_scheme, http_response) prog" where
  "with_parsed x f = (case x of None \<Rightarrow> retM validation_error_handler | Some i \<Rightarrow> get_session (f i))"

definition app :: "ucd \<Rightarrow> vk_settings \<Rightarrow> http_request \<Rightarrow> ('x world_scheme, http_response) prog" where
  "app u s rq =
     catchM
       (case rq of
          Get_Bindings x st \<Rightarrow> with_parsed x (\<lambda>user_ids. get_bindings u s user_ids st)
        | Get_Bot_Info \<Rightarrow> get_bot_info s
        | Create_Binding x \<Rightarrow> with_parsed x (create_binding s)
        | Issue_Confirmation x \<Rightarrow> with_parsed x (issue_confirmation s)
        | Delete_Binding x \<Rightarrow> with_parsed x (delete_binding s)
        | Get_Health \<Rightarrow> retM \<lparr>rs_status = 200, rs_body = Health_Ok\<rparr>)
       [AppError] (\<lambda>e. retM (app_error_handler e))"

section \<open>Endpoints and transactions\<close>

lemma parse_chunks_wp:
  "wp (parse_chunks u cs) (\<lambda>ids w'. w' = w) (\<lambda>e w'. w' = w \<and> exn_class e = ClientError) w"
proof (induction cs)
  case (Cons c cs)
  then show ?case by (cases "uuid_of_str u (py_strip c)") (simp_all add: Let_def)
qed simp

lemma parse_user_ids_wp:
  "wp (parse_user_ids u raw) (\<lambda>ids w'. w' = w \<and> ids \<noteq> []) (\<lambda>e w'. w' = w \<and> exn_class e = ClientError) w"
  unfolding parse_user_ids_def wp_bind
  by (rule wp_mono [OF parse_chunks_wp]) auto

lemma validate_state_wp:
  "wp (validate_state st) (\<lambda>r w'. w' = w \<and> r = st) (\<lambda>e w'. w' = w \<and> exn_class e = ClientError) w"
  by (cases st) (simp_all add: validate_state_def)

lemma get_vk_binding_service_sql:
  "get_vk_binding_service s =
     sql_binding_service (vk_confirmation_ttl_minutes s) (vk_confirmation_code_length s) (Some VkbottleMessenger)"
  by (simp add: get_vk_binding_service_def sql_binding_service_def)

lemma get_bindings_wp:
  assumes "domain_ok w"
  shows "wp (get_bindings u s raw st)
    (\<lambda>r w'. w' = w \<and> rs_status r = 200 \<and>
       (\<exists>ids. rs_body r = Bindings (map VkBindingResponse (filter (matches_ids ids st) (user_vks (db w))))))
    (\<lambda>e w'. w' = w \<and> exn_class e = ClientError) w"
proof -
  have get: "wp (UserVkRepository_get_by_user_ids ids st) Q E w = Q (filter (matches_ids ids st) (user_vks (db w))) w" for ids Q E
    by (rule wp_Inr) (rule get_by_user_ids_run)
  show ?thesis
    unfolding get_bindings_def wp_bind
    by (rule wp_mono [OF parse_user_ids_wp], goal_cases)
      (rule wp_mono [OF validate_state_wp],
        use get in \<open>auto simp: VkBindingService_get_bindings_def get_vk_binding_service_sql\<close>)
qed

lemma create_binding_wp:
  assumes "domain_ok w" "room 1 w"
  shows "wp (create_binding s i)
    (\<lambda>r w'. inside w w' \<and> outbox w' = outbox w \<and> rs_status r \<in> {200, 201} \<and>
       (\<exists>b. find (owned_by i) (user_vks (db w')) = Some b \<and> rs_body r = Binding (VkBindingResponse b)) \<and>
       (rs_status r = 200 \<longleftrightarrow> find (owned_by i) (user_vks (db w)) \<noteq> None) \<and> (rs_status r = 200 \<longrightarrow> w' = w))
    (\<lambda>e w'. False) w"
proof (cases "find (owned_by i) (user_vks (db w))")
  case None
  then show ?thesis
    using domain_ok_added_binding [OF assms None]
    by (simp add: wp_def create_binding_def prog_simps get_vk_binding_service_sql ensure_fresh_run [OF assms None]
        inside_def find_append)
next
  case (Some b)
  then show ?thesis using assms(1)
    by (simp add: wp_def create_binding_def prog_simps get_vk_binding_service_sql ensure_existing_run [OF assms(1) Some]
        inside_def)
qed

lemma live_states:
  assumes "domain_ok w" "find (owned_by i) (user_vks (db w)) = Some b"
  shows "uv_state b \<in> {STATE_PENDING, STATE_ACTIVE, STATE_BLOCKED}"
proof -
  have "b \<in> set (user_vks (db w))" "live b" using assms(2) by (auto simp: find_Some_iff owned_by_def)
  then have "binding_ok b" by (rule bindings_okD(1) [OF domain_okD(4) [OF assms(1)]])
  then show ?thesis by (auto simp: binding_ok_def ALLOWED_STATES_def)
qed

lemma issue_wp:
  assumes "domain_ok w" "room 4 w"
  shows "wp (VkBindingService_issue_confirmation (sql_binding_service ttl n m) i)
    (\<lambda>r w'. inside w w' \<and> outbox w' = outbox w \<and> issued ttl n i w r w')
    (\<lambda>e w'. inside w w' \<and> outbox w' = outbox w \<and>
       (exn_class e = ConflictError \<or> exn_class e = OverflowError \<or> n \<le> 0 \<and> exn_class e = ValueError \<or>
        16 < n \<and> exn_class e = DataError)) w"
proof (cases "find (owned_by i) (user_vks (db w))")
  case None
  show ?thesis
    by (rule wp_mono [OF issue_confirmation_wp [OF assms]]) (auto simp: None inside_def issued_def)
next
  case (Some b)
  have space: "room 2 w" using assms(2) by (simp add: room_def)
  from live_states [OF assms(1) Some] consider "uv_state b = STATE_PENDING" | "uv_state b = STATE_ACTIVE" | "uv_state b = STATE_BLOCKED" by auto
  then show ?thesis
  proof cases
    case 1
    show ?thesis
      by (rule wp_mono [OF issue_confirmation_wp [OF assms]]) (auto simp: Some 1 inside_def issued_def)
  next
    case 2
    then show ?thesis
      using domain_ok_append_log [OF assms(1) issue_log_fits(2) space]
      by (simp add: wp_def issue_active_run [OF assms(1) Some 2 space] inside_def)
  next
    case 3
    then show ?thesis
      using domain_ok_append_log [OF assms(1) issue_log_fits(3) space]
      by (simp add: wp_def issue_blocked_run [OF assms(1) Some 3 space] inside_def)
  qed
qed


lemma wp_with_parsed:
  "wp (with_parsed x f) Q E =
     (case x of None \<Rightarrow> Q validation_error_handler | Some i \<Rightarrow> wp (get_session (f i)) Q E)"
  by (cases x) (simp_all add: with_parsed_def)

definition http_ok :: "'x world_scheme \<Rightarrow> http_request \<Rightarrow> http_response \<Rightarrow> 'x world_scheme \<Rightarrow> bool" where
  "http_ok w rq r w' \<longleftrightarrow>
     domain_ok w' \<and> rs_status r \<in> {200, 201, 204, 400, 409, 503} \<and>
     (400 \<le> rs_status r \<longrightarrow> committed w' = committed w \<and> outbox w' = outbox w) \<and>
     ((\<exists>ids st. rq = Get_Bindings ids st) \<longrightarrow> committed w' = committed w)"

lemma app_wp:
  assumes ok: "domain_ok w" and space: "room 4 w" and s: "vk_settings_valid s"
  shows "wp (app u s rq) (http_ok w rq)
    (\<lambda>e w'. domain_ok w' \<and> committed w' = committed w \<and> outbox w' = outbox w \<and> exn_class e = OverflowError) w"
proof -
  let ?E = "\<lambda>e w'. domain_ok w' \<and> committed w' = committed w \<and> outbox w' = outbox w \<and> exn_class e = OverflowError"
  let ?w = "w\<lparr>db := committed w, locks := []\<rparr>"
  have ok0: "domain_ok ?w" "inside ?w ?w" and sp: "room 4 ?w" "room 2 ?w" "room 1 ?w"
    using domain_ok_restart(1) [OF ok] space by (simp_all add: inside_def room_def)
  let ?h = "\<lambda>e. upon (list_ex (isinstance e) [AppError]) (\<lambda>w'. http_ok w rq (app_error_handler e) w') (?E e)"
  have err: "?h e w'"
    if "domain_ok w'" "committed w' = committed w" "outbox w' = outbox w"
      "exn_class e \<in> {ClientError, ConflictError, ServiceUnavailableError, OverflowError}" for e w'
    using that by (cases e) (auto simp: http_ok_def app_error_handler_def status_code_def)
  have bindings: "wp (get_session (get_bindings u s raw st)) (http_ok w rq) ?h w" if "rq = Get_Bindings x st" for x raw st
  proof (rule session_wp [OF ok _ refl, where Q = "\<lambda>r w'. w' = ?w \<and> rs_status r = 200" and
        E = "\<lambda>e w'. w' = ?w \<and> exn_class e = ClientError"], goal_cases)
    case 1
    show ?case
      by (rule wp_mono [OF get_bindings_wp [OF ok0(1)]]) (use ok0 in \<open>auto simp: inside_def isinstance_def\<close>)
  next
    case (2 r w')
    then show ?case by (simp add: http_ok_def)
  next
    case (3 e w')
    then show ?case by (intro err) simp_all
  qed
  have create: "wp (get_session (create_binding s i)) (http_ok w rq) ?h w" if "rq = Create_Binding x" for i x
  proof (rule session_wp [OF ok _ refl, where Q = "\<lambda>r w'. rs_status r \<in> {200, 201}" and
        E = "\<lambda>e w'. False"], goal_cases)
    case 1
    show ?case by (rule wp_mono [OF create_binding_wp [OF ok0(1) sp(3)]]) auto
  next
    case (2 r w')
    then show ?case using that by (auto simp: http_ok_def)
  qed simp
  have issue: "wp (get_session (issue_confirmation s i)) (http_ok w rq) ?h w" if "rq = Issue_Confirmation x" for i x
  proof (rule session_wp [OF ok _ refl, where Q = "\<lambda>r w'. rs_status r = 201" and
        E = "\<lambda>e w'. outbox w' = outbox w \<and> exn_class e \<in> {ConflictError, OverflowError}"], goal_cases)
    case 1
    show ?case
      unfolding issue_confirmation_def wp_bind get_vk_binding_service_sql
      by (rule wp_mono [OF issue_wp [OF ok0(1) sp(1)]])
        (use s in \<open>auto simp: vk_settings_valid_def isinstance_def\<close>)
  next
    case (2 r w')
    then show ?case using that by (auto simp: http_ok_def)
  next
    case (3 e w')
    then show ?case by (intro err) auto
  qed
  have delete: "wp (get_session (delete_binding s i)) (http_ok w rq) ?h w" if "rq = Delete_Binding x" for i x
  proof (rule session_wp [OF ok _ refl, where Q = "\<lambda>r w'. rs_status r = 204" and
        E = "\<lambda>e w'. False"], goal_cases)
    case 1
    show ?case
      unfolding delete_binding_def wp_then get_vk_binding_service_sql
      by (rule wp_mono [OF unlink_wp [OF ok0(1) sp(2)]]) (auto simp: unlinks_def inside_def)
  next
    case (2 r w')
    then show ?case using that by (auto simp: http_ok_def)
  qed simp
  show ?thesis
    unfolding app_def wp_catch
    using bindings create issue delete ok err [OF ok]
    by (cases rq) (simp_all add: wp_with_parsed http_ok_def validation_error_handler_def get_bot_info_def
        split: option.split)
qed

section \<open>Reading a list of identifiers\<close>

lemma py_split_on_none: "d \<notin> set s \<Longrightarrow> py_split_on d s = [s]"
  by (induction s) auto

lemma py_split_on_append: "d \<notin> set s \<Longrightarrow> py_split_on d (s @ d # r) = s # py_split_on d r"
  by (induction s) auto

lemma py_split_on_join:
  assumes "\<forall>x \<in> set xs. d \<notin> set x" "xs \<noteq> []"
  shows "py_split_on d (py_join [d] xs) = xs"
  using assms by (induction "[d]" xs rule: py_join.induct) (auto simp: py_split_on_none py_split_on_append)

lemma uuid_str_plain: "c \<in> set (uuid_str x) \<Longrightarrow> \<not> py_isspace c \<and> c \<noteq> 44"
proof -
  assume "c \<in> set (uuid_str x)"
  then have "is_lower_hex c \<or> c = 45" using uuid_hex_parts(2) by blast
  then show ?thesis by (auto simp: is_lower_hex_def py_isspace_def)
qed

lemma uuid_str_strip: "py_strip (uuid_str x) = uuid_str x" "uuid_str x \<noteq> []"
proof -
  show "py_strip (uuid_str x) = uuid_str x"
    unfolding py_strip_def by (rule strip_chars_none) (use uuid_str_plain in blast)
  have "length (uuid_str x) = 36" by (simp add: uuid_str_def Let_def uuid_hex_def)
  then show "uuid_str x \<noteq> []" by auto
qed

lemma parse_chunks_uuids: "parse_chunks u (map uuid_str ids) = retM ids"
  by (induction ids) (simp_all add: uuid_str_strip uuid_of_str_str fun_eq_iff prog_simps)

lemma parse_user_ids_of_uuids:
  assumes "ids \<noteq> []"
  shows "parse_user_ids u (py_join [44] (map uuid_str ids)) w = (Inr ids, w)"
proof -
  have "py_split_on 44 (py_join [44] (map uuid_str ids)) = map uuid_str ids"
    by (rule py_split_on_join) (use uuid_str_plain assms in auto)
  then show ?thesis using assms by (simp add: parse_user_ids_def parse_chunks_uuids prog_simps)
qed

section \<open>Properties\<close>

text \<open>
  C34. The list of bindings is read back exactly: a request naming some owners, by their identifiers
  joined with commas, and at most one of the three states, answers every live binding of these owners
  in this state, each once, and nothing else, and changes no stored data.
\<close>

theorem get_bindings_exact:
  fixes w :: "'x world_scheme"
  assumes "ids \<noteq> []" "case st of None \<Rightarrow> True | Some s \<Rightarrow> s \<in> set ALLOWED_STATES"
  shows "\<exists>w'. app u s (Get_Bindings (Some (py_join (lit '','') (map uuid_str ids))) st) w =
      (Inr \<lparr>rs_status = 200,
            rs_body = Bindings (map VkBindingResponse (filter (matches_ids ids st) (user_vks (committed w))))\<rparr>, w') \<and>
    db w' = committed w \<and> committed w' = committed w \<and> outbox w' = outbox w"
proof -
  have c: "lit '','' = [44]" by (simp add: lit_def)
  have "validate_state st w' = (Inr st, w')" for w' :: "'x world_scheme"
    using assms(2) by (cases st) (simp_all add: validate_state_def prog_simps)
  then show ?thesis
    by (simp add: parse_user_ids_of_uuids [OF assms(1)] app_def with_parsed_def c get_session_def get_bindings_def prog_simps get_vk_binding_service_sql
        VkBindingService_get_bindings_def get_by_user_ids_run)
qed

text \<open>
  C16. A request is a transaction.  Whatever the request, the invariant of the stored data holds
  afterwards; the status is one the interface documents; a request that is refused (any status from
  400 on, or an exception left to the server) has committed nothing and sent nothing, and the one
  exception that can be left is an expiry date out of range.  Reading never commits a change.
\<close>

theorem app_transaction:
  assumes "domain_ok w" "room 4 w" "vk_settings_valid s"
  shows "wp (app u s rq)
    (\<lambda>r w'. domain_ok w' \<and> rs_status r \<in> {200, 201, 204, 400, 409, 503} \<and>
       (400 \<le> rs_status r \<longrightarrow> committed w' = committed w \<and> outbox w' = outbox w) \<and>
       ((\<exists>ids st. rq = Get_Bindings ids st) \<longrightarrow> committed w' = committed w))
    (\<lambda>e w'. domain_ok w' \<and> committed w' = committed w \<and> outbox w' = outbox w \<and> exn_class e = OverflowError) w"
  using app_wp [OF assms] unfolding http_ok_def [abs_def] .

text \<open>
  C29. A conflict leaves no trace.  Asking for a code while the binding is \<open>ACTIVE\<close> or \<open>BLOCKED\<close> is
  answered with status 409 and the text of the state; the journal row the service wrote is undone
  with the transaction, so nothing at all is committed.
\<close>

theorem issue_conflict_leaves_no_trace:
  fixes w :: "'x world_scheme"
  assumes "domain_ok w" "room 2 w" "find (owned_by i) (user_vks (committed w)) = Some b"
    "uv_state b = STATE_ACTIVE \<and> m = msg_conflict_active \<or> uv_state b = STATE_BLOCKED \<and> m = msg_conflict_blocked"
  shows "\<exists>w'. app u s (Issue_Confirmation (Some i)) w = (Inr \<lparr>rs_status = 409, rs_body = Detail m\<rparr>, w') \<and>
    committed w' = committed w \<and> vk_logs (db w') = vk_logs (committed w) \<and> outbox w' = outbox w"
proof -
  let ?w = "w\<lparr>db := committed w, locks := []\<rparr>"
  have ok: "domain_ok ?w" and sp: "room 2 ?w" and b: "find (owned_by i) (user_vks (db ?w)) = Some b"
    using domain_ok_restart(1) [OF assms(1)] assms(2,3) by (simp_all add: room_def)
  have "\<exists>d. VkBindingService_issue_confirmation (get_vk_binding_service s) i ?w =
      (Inl (Exn ConflictError m), append_log ACTION_ISSUE d (issue_details i (uv_id b)) ?w)"
    using issue_active_run [OF ok b _ sp] issue_blocked_run [OF ok b _ sp] assms(4)
    unfolding get_vk_binding_service_sql by blast
  then show ?thesis
    by (auto simp: app_def with_parsed_def get_session_def issue_confirmation_def prog_simps app_error_handler_def
        status_code_def)
qed

text \<open>
  Unlinking twice is unlinking once: after a deletion, a second one is answered alike, with status
  204, and the bindings and the codes stay as the first one left them; nobody is told again.
\<close>

theorem delete_binding_idempotent:
  fixes w :: "'x world_scheme"
  assumes "domain_ok w" "room 4 w" "app u s (Delete_Binding (Some i)) w = (Inr r, w')" "room 2 w'"
  shows "wp (app u s (Delete_Binding (Some i)))
    (\<lambda>r' w''. r' = r \<and> rs_status r = 204 \<and> user_vks (committed w'') = user_vks (committed w') \<and>
       find (owned_by i) (user_vks (committed w'')) = None \<and>
       vk_confirmations (committed w'') = vk_confirmations (committed w') \<and> outbox w'' = outbox w')
    (\<lambda>e w''. False) w'"
proof -
  let ?w = "w\<lparr>db := committed w, locks := []\<rparr>" and ?w' = "w'\<lparr>db := committed w', locks := []\<rparr>"
  have ok: "domain_ok ?w" "room 2 ?w"
    using domain_ok_restart(1) [OF assms(1)] assms(2) by (simp_all add: room_def)
  have del: "wp (app u s (Delete_Binding (Some i)))
      (\<lambda>r w'. r = \<lparr>rs_status = 204, rs_body = No_Content\<rparr> \<and> domain_ok w' \<and> find (owned_by i) (user_vks (committed w')) = None)
      (\<lambda>e w'. False) w"
    unfolding app_def wp_catch http_request.case with_parsed_def option.case wp_get_session delete_binding_def wp_then
      get_vk_binding_service_sql
    by (rule wp_mono [OF unlink_wp [OF ok]])
      (use domain_ok_restart(2) in \<open>auto simp: unlinks_def\<close>)
  then have r: "r = \<lparr>rs_status = 204, rs_body = No_Content\<rparr>" and ok': "domain_ok w'"
    and none: "find (owned_by i) (user_vks (committed w')) = None"
    using wp_InrD [OF del assms(3)] by simp_all
  have ok2: "domain_ok ?w'" "room 2 ?w'" and none': "find (owned_by i) (user_vks (db ?w')) = None"
    using domain_ok_restart(1) [OF ok'] none assms(4) by (simp_all add: room_def)
  show ?thesis
    using none
    by (simp add: wp_def app_def with_parsed_def get_session_def delete_binding_def prog_simps get_vk_binding_service_sql
        unlink_absent_run [OF ok2(1) none' ok2(2)] r)
qed

text \<open>
  Creating a binding twice creates it once: the second request finds the row of the first, answers
  status 200 where the first answered 201, and commits nothing new.
\<close>

lemma create_binding_idempotent:
  fixes w :: "'x world_scheme"
  assumes "domain_ok w" "room 1 w" "find (owned_by i) (user_vks (committed w)) = None"
  shows "wp (app u s (Create_Binding (Some i)))
    (\<lambda>r w'. rs_status r = 201 \<and> domain_ok w' \<and>
       (\<exists>b. user_vks (committed w') = user_vks (committed w) @ [b] \<and> owned_by i b \<and> uv_state b = STATE_PENDING \<and>
          uv_peer_id b = None \<and> rs_body r = Binding (VkBindingResponse b)) \<and>
       wp (app u s (Create_Binding (Some i)))
         (\<lambda>r' w''. rs_status r' = 200 \<and> rs_body r' = rs_body r \<and> committed w'' = committed w') (\<lambda>e w''. False) w')
    (\<lambda>e w'. False) w"
proof -
  let ?w = "w\<lparr>db := committed w, locks := []\<rparr>"
  have ok: "domain_ok ?w" "room 1 ?w" and none: "find (owned_by i) (user_vks (db ?w)) = None"
    using domain_ok_restart(1) [OF assms(1)] assms(2,3) by (simp_all add: room_def)
  let ?w1 = "added_binding i ?w" and ?b = "fresh_binding i ?w"
  let ?w2 = "?w1\<lparr>committed := db ?w1, locks := []\<rparr>"
  have run: "app u s (Create_Binding (Some i)) w =
      (Inr \<lparr>rs_status = 201, rs_body = Binding (VkBindingResponse ?b)\<rparr>, ?w2)"
    by (simp add: app_def with_parsed_def get_session_def create_binding_def prog_simps get_vk_binding_service_sql
        ensure_fresh_run [OF ok none])
  have ok2: "domain_ok ?w2" by (rule domain_ok_restart(2) [OF domain_ok_added_binding [OF ok none]])
  have ok3: "domain_ok (?w2\<lparr>db := committed ?w2, locks := []\<rparr>)" by (rule domain_ok_restart(1) [OF ok2])
  have b: "find (owned_by i) (user_vks (db (?w2\<lparr>db := committed ?w2, locks := []\<rparr>))) = Some ?b"
    using none by (simp add: find_append)
  have again: "app u s (Create_Binding (Some i)) ?w2 =
      (Inr \<lparr>rs_status = 200, rs_body = Binding (VkBindingResponse ?b)\<rparr>, ?w2\<lparr>db := committed ?w2, locks := []\<rparr>)"
    using ensure_existing_run [OF ok3 b]
    by (simp add: app_def with_parsed_def get_session_def create_binding_def prog_simps get_vk_binding_service_sql)
  show ?thesis using ok2 by (simp add: wp_def run again)
qed

end
