(* ===== verification/Bot_Handlers.thy ===== *)
theory Bot_Handlers
  imports Confirmation_Service State_Service Sessions Settings
begin

text \<open>
  \<open>bot/handlers.py\<close> and \<open>bot/replies.py\<close>: what the bot does with a message, with \<open>message_deny\<close> and
  with \<open>message_allow\<close>, and the services \<open>bot/main.py\<close> builds for each event in a session of its own.
\<close>

section \<open>Sessions of an event\<close>

record 'w bot_services =
  sv_confirmation :: "'w vk_confirmation_service"
  sv_state :: "'w vk_state_service"
  sv_log_action :: "pystr \<Rightarrow> pystr \<Rightarrow> details option \<Rightarrow> ('w, vk_log) prog"
  sv_commit :: "('w, unit) prog"

definition make_services_factory :: "ucd \<Rightarrow> vk_settings \<Rightarrow> ('x world_scheme, ('x world_scheme) bot_services) prog" where
  "make_services_factory u s =
     thenM open_session
       (retM
         \<lparr>sv_confirmation =
            \<lparr>cs_confirmation_repo = SQLAlchemyVkConfirmationRepository,
             cs_user_vk_repo = SQLAlchemyUserVkRepository, cs_vk_log_repo = SQLAlchemyVkLogRepository,
             cs_max_attempts = vk_confirmation_max_attempts s,
             cs_attempt_window_minutes = vk_confirmation_attempt_window_minutes s,
             cs_runtime = python_runtime, cs_ucd = u\<rparr>,
          sv_state = \<lparr>ss_user_vk_repo = SQLAlchemyUserVkRepository, ss_vk_log_repo = SQLAlchemyVkLogRepository\<rparr>,
          sv_log_action = VkLogRepository_log_action,
          sv_commit = commit_and_close\<rparr>)"

section \<open>Messages\<close>

definition ACTION_MESSAGE :: pystr where
  "ACTION_MESSAGE = lit ''vk_message''"

definition CHAT_PEER_THRESHOLD :: int where
  "CHAT_PEER_THRESHOLD = 2000000000"

definition instruction :: "pystr \<Rightarrow> pystr" where
  "instruction link_command = instruction_head @ link_command @ instruction_tail"

definition parse_link_command :: "ucd \<Rightarrow> pystr \<Rightarrow> pystr \<Rightarrow> pystr option" where
  "parse_link_command u text link_command =
     (let stripped = py_strip text in
      if stripped = [] then None
      else
        let parts = py_split stripped in
        if py_casefold u (hd parts) \<noteq> py_casefold u link_command then None
        else if length parts < 2 then Some []
        else Some (parts ! 1))"

definition is_chat_peer :: "int \<Rightarrow> bool" where
  "is_chat_peer peer_id \<longleftrightarrow> CHAT_PEER_THRESHOLD \<le> peer_id"

record 'w bot_event_handler =
  be_settings :: vk_settings
  be_services :: "('w, 'w bot_services) prog"
  be_messenger :: "'w vk_messenger"
  be_ucd :: ucd

definition BotEventHandler_reply :: "'w bot_event_handler \<Rightarrow> int \<Rightarrow> pystr \<Rightarrow> ('w, unit) prog" where
  "BotEventHandler_reply H peer_id text =
     bindM (ms_send_message (be_messenger H) peer_id text) (\<lambda>delivered. retM ())"

definition confirm_failure :: "exn \<Rightarrow> pystr \<times> pystr" where
  "confirm_failure e =
     (if isinstance e RateLimitedError then (lit ''rate_limited'', RATE_LIMITED)
      else if isinstance e NotFoundError then (lit ''not_found'', CODE_INVALID)
      else if isinstance e GoneError then (lit ''expired'', CODE_EXPIRED)
      else if py_contains another_user (message e) then (lit ''peer_conflict'', PEER_CONFLICT)
      else (lit ''used'', CODE_USED))"

definition BotEventHandler_confirm ::
    "'w bot_event_handler \<Rightarrow> 'w bot_services \<Rightarrow> int \<Rightarrow> pystr \<Rightarrow> ('w, pystr \<times> pystr) prog" where
  "BotEventHandler_confirm H services from_id code =
     bindM (ms_get_profile (be_messenger H) from_id) (\<lambda>profile.
     bindM
       (catchM
         (bindM
           (VkConfirmationService_confirm (sv_confirmation services) code from_id
             (case profile of None \<Rightarrow> None | Some p \<Rightarrow> pf_screen_name p)
             (case profile of None \<Rightarrow> None | Some p \<Rightarrow> pf_display_name p))
           (\<lambda>result. retM (Inr result)))
         [RateLimitedError, NotFoundError, GoneError, ConflictError]
         (\<lambda>e. retM (Inl (confirm_failure e))))
       (\<lambda>answer.
         case answer of
           Inl outcome \<Rightarrow> retM outcome
         | Inr result \<Rightarrow>
             if cn_status result = lit ''already_confirmed''
             then retM (lit ''already_confirmed'', ALREADY_LINKED)
             else retM (lit ''confirmed'', LINKED)))"

definition BotEventHandler_handle_message ::
    "'w bot_event_handler \<Rightarrow> int \<Rightarrow> int \<Rightarrow> pystr \<Rightarrow> ('w, pystr) prog" where
  "BotEventHandler_handle_message H peer_id from_id text =
     bindM (be_services H) (\<lambda>services.
       if is_chat_peer peer_id
       then
         thenM
           (sv_log_action services ACTION_MESSAGE (lit ''ignored_chat'')
              (Some [(vk_peer_id_key, str_int peer_id)]))
         (thenM (sv_commit services) (retM (lit ''ignored_chat'')))
       else
         let link_command = vk_bot_link_command (be_settings H);
             code = parse_link_command (be_ucd H) text link_command
         in
         if code = None \<or> code = Some []
         then
           let status = (if code = None then lit ''unknown_command'' else lit ''missing_code'') in
           thenM (sv_log_action services ACTION_MESSAGE status (Some [(vk_peer_id_key, str_int peer_id)]))
           (thenM (sv_commit services)
           (thenM (BotEventHandler_reply H peer_id (instruction link_command))
             (retM status)))
         else
           bindM (BotEventHandler_confirm H services from_id (the code)) (\<lambda>(outcome, reply).
           thenM (sv_commit services)
           (thenM (BotEventHandler_reply H peer_id reply)
             (retM outcome))))"

definition BotEventHandler_handle_message_deny :: "'w bot_event_handler \<Rightarrow> int \<Rightarrow> ('w, pystr) prog" where
  "BotEventHandler_handle_message_deny H user_id =
     bindM (be_services H) (\<lambda>services.
     bindM (VkStateService_block (sv_state services) user_id) (\<lambda>changed.
     thenM (sv_commit services)
       (retM (if changed then lit ''success'' else lit ''no_binding''))))"

definition BotEventHandler_handle_message_allow :: "'w bot_event_handler \<Rightarrow> int \<Rightarrow> ('w, pystr) prog" where
  "BotEventHandler_handle_message_allow H user_id =
     bindM (be_services H) (\<lambda>services.
     bindM (VkStateService_unblock (sv_state services) user_id) (\<lambda>changed.
     thenM (sv_commit services)
       (retM (if changed then lit ''success'' else lit ''no_binding''))))"

section \<open>The link command\<close>

lemma py_split_strip: "py_split (py_strip s) = py_split s"
proof -
  have l: "py_split (dropWhile py_isspace s) = py_split s" for s
    by (induction s) auto
  have sp: "py_split (s @ a) = py_split s" if "\<forall>c \<in> set a. py_isspace c" for a s
    using that
  proof (induction s rule: py_split.induct)
    case (2 c cs)
    show ?case
    proof (cases "py_isspace c")
      case True
      then show ?thesis using 2 by simp
    next
      case False
      have t: "takeWhile (\<lambda>x. \<not> py_isspace x) (cs @ a) = takeWhile (\<lambda>x. \<not> py_isspace x) cs"
        using "2.prems" by (cases a) (auto simp: takeWhile_append takeWhile_eq_all_conv [THEN iffD2])
      have "py_split (dropWhile (\<lambda>x. \<not> py_isspace x) (cs @ a)) = py_split (dropWhile (\<lambda>x. \<not> py_isspace x) cs)"
      proof (cases "\<forall>x \<in> set cs. \<not> py_isspace x")
        case True
        then have "dropWhile (\<lambda>x. \<not> py_isspace x) (cs @ a) = dropWhile (\<lambda>x. \<not> py_isspace x) a"
          "dropWhile (\<lambda>x. \<not> py_isspace x) cs = []" by (simp_all add: dropWhile_append)
        moreover have "py_split (dropWhile (\<lambda>x. \<not> py_isspace x) a) = []"
          using "2.prems" by (auto simp: py_split_Nil_iff dest: set_dropWhileD)
        ultimately show ?thesis by (simp only: py_split.simps)
      next
        case F: False
        then have "dropWhile (\<lambda>x. \<not> py_isspace x) (cs @ a) = dropWhile (\<lambda>x. \<not> py_isspace x) cs @ a"
          by (auto simp: dropWhile_append)
        then show ?thesis using "2.IH"(2) [OF False "2.prems"] by simp
      qed
      then show ?thesis using False t by simp
    qed
  qed (auto simp: py_split_Nil_iff)
  let ?t = "dropWhile py_isspace s"
  have "?t = py_rstrip py_isspace ?t @ rev (takeWhile py_isspace (rev ?t))"
    unfolding py_rstrip_def by (metis rev_append rev_rev_ident takeWhile_dropWhile_id)
  moreover have "py_split (py_rstrip py_isspace ?t @ rev (takeWhile py_isspace (rev ?t))) = py_split (py_rstrip py_isspace ?t)"
    by (rule sp) (auto dest: set_takeWhileD)
  ultimately show ?thesis
    using l [of s] by (simp add: py_strip_def py_strip_chars_def py_lstrip_def)
qed

lemma py_strip_Nil_iff: "py_strip s = [] \<longleftrightarrow> py_split s = []"
proof
  assume "py_strip s = []"
  then show "py_split s = []" using py_split_strip [of s] by simp
next
  assume "py_split s = []"
  then have "\<forall>c \<in> set s. py_isspace c" by (simp add: py_split_Nil_iff)
  then show "py_strip s = []"
    by (auto simp: py_strip_def py_strip_chars_def py_lstrip_def py_rstrip_def dest: set_dropWhileD)
qed

lemma parse_link_command_words:
  "parse_link_command u text cmd =
     (case py_split text of
        [] \<Rightarrow> None
      | w # ws \<Rightarrow>
          if py_casefold u w \<noteq> py_casefold u cmd then None
          else Some (case ws of [] \<Rightarrow> [] | c # _ \<Rightarrow> c))"
  by (simp add: parse_link_command_def py_split_strip py_strip_Nil_iff Let_def split: list.split)

section \<open>On the database\<close>

definition sql_bot_handler :: "ucd \<Rightarrow> vk_settings \<Rightarrow> ('x world_scheme) bot_event_handler" where
  "sql_bot_handler u s =
     \<lparr>be_settings = s, be_services = make_services_factory u s, be_messenger = VkbottleMessenger, be_ucd = u\<rparr>"

lemma services_run:
  "be_services (sql_bot_handler u s) w =
    (Inr \<lparr>sv_confirmation = sql_confirmation_service (vk_confirmation_max_attempts s)
            (vk_confirmation_attempt_window_minutes s) u,
         sv_state = sql_state_service, sv_log_action = VkLogRepository_log_action, sv_commit = commit_and_close\<rparr>,
     opened w)"
  by (simp add: sql_bot_handler_def make_services_factory_def prog_simps opened_def sql_confirmation_service_def
      sql_state_service_def)

lemma bot_handler_sel [simp]:
  "be_settings (sql_bot_handler u s) = s" "be_messenger (sql_bot_handler u s) = VkbottleMessenger"
  "be_ucd (sql_bot_handler u s) = u"
  by (simp_all add: sql_bot_handler_def)

text \<open>A reply is one call of the VK API and changes nothing else.\<close>

definition told :: "int \<Rightarrow> pystr \<Rightarrow> 'x world_scheme \<Rightarrow> 'x world_scheme \<Rightarrow> bool" where
  "told p t w w' \<longleftrightarrow> only_messages w w' \<and> sent_between w w' [(p, t)]"

lemma reply_run: "\<exists>w'. BotEventHandler_reply (sql_bot_handler u s) p t w = (Inr (), w') \<and> told p t w w'"
  using send_message_run [of p t w]
  by (auto simp: BotEventHandler_reply_def prog_simps Let_def told_def only_messages_def sent_between_def)

definition profile_answer :: "int \<Rightarrow> vk_user list option \<Rightarrow> vk_user_profile option" where
  "profile_answer p answer =
     (case answer of
        Some (user # _) \<Rightarrow> Some \<lparr>pf_peer_id = p, pf_screen_name = vu_screen_name user,
                               pf_display_name = display_name_of user\<rparr>
      | _ \<Rightarrow> None)"

lemma get_profile_run:
  "VkbottleMessenger_get_profile p w = (Inr (profile_answer p (vk_users_answer w (tick w) p)), later 1 w)"
  by (auto simp: VkbottleMessenger_get_profile_def users_get_def prog_simps profile_answer_def later_def
      split: option.split list.split)

definition names_of :: "vk_user_profile option \<Rightarrow> pystr option \<times> pystr option" where
  "names_of pr = (case pr of None \<Rightarrow> (None, None) | Some p \<Rightarrow> (pf_screen_name p, pf_display_name p))"

section \<open>What the user is told\<close>

fun verdict_outcome :: "verdict \<Rightarrow> pystr \<times> pystr" where
  "verdict_outcome Limited = (lit ''rate_limited'', RATE_LIMITED)"
| "verdict_outcome Unknown = (lit ''not_found'', CODE_INVALID)"
| "verdict_outcome (Already b c) = (lit ''already_confirmed'', ALREADY_LINKED)"
| "verdict_outcome (Spent c) = (lit ''used'', CODE_USED)"
| "verdict_outcome (Expired c) = (lit ''expired'', CODE_EXPIRED)"
| "verdict_outcome (Orphaned c) = (lit ''not_found'', CODE_INVALID)"
| "verdict_outcome (Occupied c) = (lit ''peer_conflict'', PEER_CONFLICT)"
| "verdict_outcome (Linkable b c) = (lit ''confirmed'', LINKED)"

lemma verdict_outcome_answer:
  "(case verdict_answer v of
      Inl e \<Rightarrow> list_ex (isinstance e) [RateLimitedError, NotFoundError, GoneError, ConflictError] \<and>
               confirm_failure e = verdict_outcome v
    | Inr r \<Rightarrow> verdict_outcome v =
        (if cn_status r = lit ''already_confirmed'' then (lit ''already_confirmed'', ALREADY_LINKED)
         else (lit ''confirmed'', LINKED)))"
  by (cases v) (auto simp: confirm_failure_def peer_conflict_has_marker code_used_no_marker simp del: py_contains.simps)

definition bot_verdict :: "ucd \<Rightarrow> vk_settings \<Rightarrow> int \<Rightarrow> pystr \<Rightarrow> 'x world_scheme \<Rightarrow> verdict" where
  "bot_verdict u s p code w =
     confirm_verdict (db w) (vk_confirmation_max_attempts s)
       (window_start (vk_confirmation_attempt_window_minutes s) w) (clock w (Suc (tick w))) (normalize_code u code) p"

lemma bot_confirm_run:
  fixes w :: "'x world_scheme" and code :: pystr and p :: int
  assumes ok: "domain_ok w" "room 2 w" and p: "fits_bigint p"
    and win: "window_in_range (vk_confirmation_attempt_window_minutes s) (later 1 w)"
    and names: "names_of (profile_answer p (vk_users_answer w (tick w) p)) = (sn, dn)" "names_fit sn dn"
    and sv: "sv_confirmation sv = sql_confirmation_service (vk_confirmation_max_attempts s)
            (vk_confirmation_attempt_window_minutes s) u"
  defines "v \<equiv> bot_verdict u s p code (later 1 w)"
  shows "BotEventHandler_confirm (sql_bot_handler u s) sv p code w =
    (Inr (verdict_outcome v), verdict_world p sn dn (normalize_code u code) v (later 1 w))"
proof -
  let ?pr = "profile_answer p (vk_users_answer w (tick w) p)"
  have sn: "(case ?pr of None \<Rightarrow> None | Some p \<Rightarrow> pf_screen_name p) = sn"
    "(case ?pr of None \<Rightarrow> None | Some p \<Rightarrow> pf_display_name p) = dn"
    using names(1) by (auto simp: names_of_def split: option.splits)
  have "room 2 (later 1 w)" using ok(2) by (simp add: room_def)
  from confirm_run [OF domain_ok_later [OF ok(1)] this win p names(2), of "vk_confirmation_max_attempts s" u code]
  have run: "VkConfirmationService_confirm (sv_confirmation sv) code p sn dn (later 1 w) =
      (verdict_answer v, verdict_world p sn dn (normalize_code u code) v (later 1 w))"
    by (simp add: sv v_def bot_verdict_def)
  show ?thesis
    using verdict_outcome_answer [of v]
    by (auto simp: BotEventHandler_confirm_def prog_simps get_profile_run sn run split: sum.splits simp del: One_nat_def)
qed

section \<open>A whole event\<close>

lemma toldD:
  assumes "told p t w w'"
  shows "db w' = db w" "committed w' = committed w" "only_messages w w'"
    "map (\<lambda>c. (vc_peer_id c, vc_message c)) (outbox w') =
       map (\<lambda>c. (vc_peer_id c, vc_message c)) (outbox w) @ [(p, t)]"
  using assms only_messagesD [of w w'] by (auto simp: told_def sent_between_def)

lemma handle_command_run:
  fixes w :: "'x world_scheme" and code :: pystr and from_id :: int
  assumes ok: "domain_ok w" "room 2 w" and p: "fits_bigint from_id" "\<not> is_chat_peer peer_id"
    and code: "parse_link_command u text (vk_bot_link_command s) = Some code" "code \<noteq> []"
    and win: "window_in_range (vk_confirmation_attempt_window_minutes s) (later 1 w)"
    and names: "names_of (profile_answer from_id (vk_users_answer w (tick w) from_id)) = (sn, dn)" "names_fit sn dn"
  defines "w1 \<equiv> later 1 (opened w)"
  defines "v \<equiv> bot_verdict u s from_id code w1"
  shows "\<exists>w'. BotEventHandler_handle_message (sql_bot_handler u s) peer_id from_id text w =
      (Inr (fst (verdict_outcome v)), w') \<and>
    told peer_id (snd (verdict_outcome v)) (kept (verdict_world from_id sn dn (normalize_code u code) v w1)) w'"
proof -
  have ok1: "domain_ok (opened w)" "room 2 (opened w)" using domain_ok_opened ok by (auto simp: room_def)
  have win1: "window_in_range (vk_confirmation_attempt_window_minutes s) (later 1 (opened w))"
    using win by (simp add: window_in_range_def window_start_def)
  have names1: "names_of (profile_answer from_id (vk_users_answer (opened w) (tick (opened w)) from_id)) = (sn, dn)"
    using names(1) by simp
  let ?sv = "\<lparr>sv_confirmation = sql_confirmation_service (vk_confirmation_max_attempts s)
            (vk_confirmation_attempt_window_minutes s) u,
         sv_state = sql_state_service, sv_log_action = VkLogRepository_log_action, sv_commit = commit_and_close\<rparr>"
  have sv: "sv_confirmation ?sv = sql_confirmation_service (vk_confirmation_max_attempts s)
            (vk_confirmation_attempt_window_minutes s) u" by simp
  have run: "BotEventHandler_confirm (sql_bot_handler u s) ?sv from_id code (opened w) =
      (Inr (verdict_outcome v), verdict_world from_id sn dn (normalize_code u code) v w1)"
    unfolding v_def w1_def by (rule bot_confirm_run [OF ok1 p(1) win1 names1 names(2) sv])
  obtain w' where w': "BotEventHandler_reply (sql_bot_handler u s) peer_id (snd (verdict_outcome v))
        (kept (verdict_world from_id sn dn (normalize_code u code) v w1)) = (Inr (), w')"
    and told: "told peer_id (snd (verdict_outcome v)) (kept (verdict_world from_id sn dn (normalize_code u code) v w1)) w'"
    using reply_run by blast
  obtain o' r where out: "verdict_outcome v = (o', r)" by (cases "verdict_outcome v")
  have "BotEventHandler_handle_message (sql_bot_handler u s) peer_id from_id text w = (Inr (fst (verdict_outcome v)), w')"
    using code p(2) w' run
    by (simp add: BotEventHandler_handle_message_def prog_simps services_run commit_and_close_run out Let_def)
  with told show ?thesis by blast
qed

lemma message_log_fits [simp]:
  "log_fits ACTION_MESSAGE (lit ''ignored_chat'')" "log_fits ACTION_MESSAGE (lit ''unknown_command'')"
  "log_fits ACTION_MESSAGE (lit ''missing_code'')"
  by (simp_all add: log_fits_def fits_varchar_def ACTION_MESSAGE_def)

lemma journal_run:
  assumes "domain_ok w" "room 2 w" "log_fits a st"
  shows "\<exists>r. VkLogRepository_log_action a st (Some d) w = (Inr r, append_log a st d w)"
  using log_action_run [OF domain_okD(1,3) [OF assms(1)] assms(3), of "Some d"] assms(2) by auto

lemma handle_chat_run:
  fixes w :: "'x world_scheme"
  assumes "domain_ok w" "room 2 w" "is_chat_peer peer_id"
  shows "BotEventHandler_handle_message (sql_bot_handler u s) peer_id from_id text w =
    (Inr (lit ''ignored_chat''),
     kept (append_log ACTION_MESSAGE (lit ''ignored_chat'') [(vk_peer_id_key, str_int peer_id)] (opened w)))"
proof -
  have "room 2 (opened w)" using assms(2) by (simp add: room_def)
  then obtain r where "VkLogRepository_log_action ACTION_MESSAGE (lit ''ignored_chat'')
      (Some [(vk_peer_id_key, str_int peer_id)]) (opened w) =
      (Inr r, append_log ACTION_MESSAGE (lit ''ignored_chat'') [(vk_peer_id_key, str_int peer_id)] (opened w))"
    using journal_run [OF domain_ok_opened [OF assms(1)]] message_log_fits(1) by blast
  then show ?thesis
    using assms(3) by (simp add: BotEventHandler_handle_message_def prog_simps services_run commit_and_close_run)
qed

lemma handle_other_run:
  fixes w :: "'x world_scheme"
  assumes "domain_ok w" "room 2 w" "\<not> is_chat_peer peer_id"
    and code: "parse_link_command u text (vk_bot_link_command s) = code" "code = None \<or> code = Some []"
  defines "st \<equiv> if code = None then lit ''unknown_command'' else lit ''missing_code''"
  shows "\<exists>w'. BotEventHandler_handle_message (sql_bot_handler u s) peer_id from_id text w = (Inr st, w') \<and>
    told peer_id (instruction (vk_bot_link_command s))
      (kept (append_log ACTION_MESSAGE st [(vk_peer_id_key, str_int peer_id)] (opened w))) w'"
proof -
  have st: "log_fits ACTION_MESSAGE st" by (simp add: st_def)
  have "room 2 (opened w)" using assms(2) by (simp add: room_def)
  then obtain r where log: "VkLogRepository_log_action ACTION_MESSAGE st (Some [(vk_peer_id_key, str_int peer_id)]) (opened w) =
      (Inr r, append_log ACTION_MESSAGE st [(vk_peer_id_key, str_int peer_id)] (opened w))"
    using journal_run [OF domain_ok_opened [OF assms(1)]] st by blast
  obtain w' where "BotEventHandler_reply (sql_bot_handler u s) peer_id (instruction (vk_bot_link_command s))
        (kept (append_log ACTION_MESSAGE st [(vk_peer_id_key, str_int peer_id)] (opened w))) = (Inr (), w')"
    and told: "told peer_id (instruction (vk_bot_link_command s))
      (kept (append_log ACTION_MESSAGE st [(vk_peer_id_key, str_int peer_id)] (opened w))) w'"
    using reply_run by blast
  then have "BotEventHandler_handle_message (sql_bot_handler u s) peer_id from_id text w = (Inr st, w')"
    using assms(3) code log
    by (simp add: BotEventHandler_handle_message_def prog_simps services_run commit_and_close_run Let_def flip: st_def)
  with told show ?thesis by blast
qed

lemma handle_deny_run:
  assumes "domain_ok w" "room 2 w" "fits_bigint p"
  shows "BotEventHandler_handle_message_deny (sql_bot_handler u s) p w =
      (Inr (if find (linked_to p) (user_vks (committed w)) \<noteq> None then lit ''success'' else lit ''no_binding''),
       kept (moved p STATE_BLOCKED ACTION_DENY (opened w)))"
    and "domain_ok (kept (moved p STATE_BLOCKED ACTION_DENY (opened w)))"
proof -
  have ok: "domain_ok (opened w)" "room 2 (opened w)" using domain_ok_opened assms by (auto simp: room_def)
  note run = transition_run [OF ok assms(3), of STATE_BLOCKED ACTION_DENY]
  from run show "BotEventHandler_handle_message_deny (sql_bot_handler u s) p w =
      (Inr (if find (linked_to p) (user_vks (committed w)) \<noteq> None then lit ''success'' else lit ''no_binding''),
       kept (moved p STATE_BLOCKED ACTION_DENY (opened w)))"
    by (simp add: BotEventHandler_handle_message_deny_def VkStateService_block_def prog_simps services_run
        commit_and_close_run)
  from run show "domain_ok (kept (moved p STATE_BLOCKED ACTION_DENY (opened w)))" by (simp add: domain_ok_kept)
qed

lemma handle_allow_run:
  assumes "domain_ok w" "room 2 w" "fits_bigint p"
  shows "BotEventHandler_handle_message_allow (sql_bot_handler u s) p w =
      (Inr (if find (linked_to p) (user_vks (committed w)) \<noteq> None then lit ''success'' else lit ''no_binding''),
       kept (moved p STATE_ACTIVE ACTION_ALLOW (opened w)))"
    and "domain_ok (kept (moved p STATE_ACTIVE ACTION_ALLOW (opened w)))"
proof -
  have ok: "domain_ok (opened w)" "room 2 (opened w)" using domain_ok_opened assms by (auto simp: room_def)
  note run = transition_run [OF ok assms(3), of STATE_ACTIVE ACTION_ALLOW]
  from run show "BotEventHandler_handle_message_allow (sql_bot_handler u s) p w =
      (Inr (if find (linked_to p) (user_vks (committed w)) \<noteq> None then lit ''success'' else lit ''no_binding''),
       kept (moved p STATE_ACTIVE ACTION_ALLOW (opened w)))"
    by (simp add: BotEventHandler_handle_message_allow_def VkStateService_unblock_def prog_simps services_run
        commit_and_close_run)
  from run show "domain_ok (kept (moved p STATE_ACTIVE ACTION_ALLOW (opened w)))" by (simp add: domain_ok_kept)
qed

lemma py_split_lstrip: "\<forall>c \<in> set a. py_isspace c \<Longrightarrow> py_split (a @ s) = py_split s"
  by (induction a) auto

section \<open>Properties\<close>

text \<open>
  The link command is understood however it is laid out: after any white space, a word that equals
  the command up to case folding, white space, and a code of any characters but white space, the
  parser answers that code, whatever words follow.
\<close>

theorem parse_link_command_finds_code:
  assumes "py_casefold u w = py_casefold u cmd" "w \<noteq> []" "\<forall>c \<in> set w. \<not> py_isspace c"
    and "code \<noteq> []" "\<forall>c \<in> set code. \<not> py_isspace c"
    and "\<forall>c \<in> set (before @ gap). py_isspace c" "gap \<noteq> []" "rest = [] \<or> py_isspace (hd rest)"
  shows "parse_link_command u (before @ w @ gap @ code @ rest) cmd = Some code"
proof -
  obtain g gs where gap: "gap = g # gs" using assms(7) by (cases gap) auto
  have "py_split (code @ rest) = code # py_split rest"
  proof (cases rest)
    case Nil
    then show ?thesis using assms(4,5) by (simp add: py_split_no_space)
  next
    case (Cons r rs)
    then show ?thesis using assms(4,5,8) by (simp add: py_split_cons_word)
  qed
  then have "py_split (gs @ code @ rest) = code # py_split rest"
    using assms(6) gap by (simp add: py_split_lstrip)
  then have "py_split (before @ w @ gap @ code @ rest) = w # code # py_split rest"
    using assms(2,3,6) gap by (simp add: py_split_lstrip py_split_cons_word)
  then show ?thesis using assms(1) by (simp add: parse_link_command_words)
qed

text \<open>
  C15. A confirmation by message does what the verdict says and tells the user so: the outcome and the
  one reply, sent to the dialogue the message came from, are those of the verdict of the stored data
  for the account that wrote; what the confirmation did is committed; and the invariant holds.
\<close>

theorem bot_message_by_verdict:
  fixes w :: "'x world_scheme" and code :: pystr and from_id :: int
  assumes "domain_ok w" "room 2 w" "fits_bigint from_id" "\<not> is_chat_peer peer_id"
    and "parse_link_command u text (vk_bot_link_command s) = Some code" "code \<noteq> []"
    and "window_in_range (vk_confirmation_attempt_window_minutes s) (later 1 w)"
    and "names_of (profile_answer from_id (vk_users_answer w (tick w) from_id)) = (sn, dn)" "names_fit sn dn"
  shows "case BotEventHandler_handle_message (sql_bot_handler u s) peer_id from_id text w of (r, w') \<Rightarrow>
    (let w1 = later 1 (opened w);
         v = confirm_verdict (committed w) (vk_confirmation_max_attempts s)
               (window_start (vk_confirmation_attempt_window_minutes s) w1) (clock w (tick w + 2)) (normalize_code u code) from_id
     in r = Inr (fst (verdict_outcome v)) \<and> messages_sent w' = messages_sent w @ [(peer_id, snd (verdict_outcome v))] \<and>
        committed w' = db (verdict_world from_id sn dn (normalize_code u code) v w1) \<and> db w' = committed w' \<and> domain_ok w')"
proof -
  let ?w1 = "later 1 (opened w)" and ?v = "bot_verdict u s from_id code (later 1 (opened w))"
  let ?w2 = "verdict_world from_id sn dn (normalize_code u code) ?v ?w1"
  obtain w' where run: "BotEventHandler_handle_message (sql_bot_handler u s) peer_id from_id text w =
      (Inr (fst (verdict_outcome ?v)), w')" and told: "told peer_id (snd (verdict_outcome ?v)) (kept ?w2) w'"
    using handle_command_run [OF assms] by blast
  have "room 2 ?w1" using assms(2) by (simp add: room_def)
  from domain_ok_verdict_world [OF domain_ok_later [OF domain_ok_opened [OF assms(1)]] this assms(3,9) bot_verdict_def]
  have "domain_ok ?w2" .
  then have "domain_ok w'" using domain_ok_messages [OF domain_ok_kept toldD(3) [OF told]] by blast
  moreover have "?v = confirm_verdict (committed w) (vk_confirmation_max_attempts s)
      (window_start (vk_confirmation_attempt_window_minutes s) ?w1) (clock w (tick w + 2)) (normalize_code u code) from_id"
    by (simp add: bot_verdict_def)
  moreover have "messages_sent w' = messages_sent w @ [(peer_id, snd (verdict_outcome ?v))]"
    using toldD(4) [OF told] by (simp add: messages_sent_def verdict_world_frame)
  ultimately show ?thesis using run toldD(1,2) [OF told] by (simp add: Let_def)
qed

text \<open>
  Nothing but a command links an account.  A message from a chat is journalled and left without
  any reply; any other text that is not the command with a code is journalled and answered with the
  instruction.  Neither changes a binding or a code, whatever the text contains.
\<close>

theorem bot_other_messages_harmless:
  fixes w :: "'x world_scheme"
  assumes "domain_ok w" "room 2 w"
    and "is_chat_peer peer_id \<or> parse_link_command u text (vk_bot_link_command s) \<in> {None, Some []}"
  shows "case BotEventHandler_handle_message (sql_bot_handler u s) peer_id from_id text w of (r, w') \<Rightarrow>
    r \<in> Inr ` {lit ''ignored_chat'', lit ''unknown_command'', lit ''missing_code''} \<and> domain_ok w' \<and>
    user_vks (committed w') = user_vks (committed w) \<and> vk_confirmations (committed w') = vk_confirmations (committed w) \<and>
    (\<exists>l. vk_logs (committed w') = vk_logs (committed w) @ [l] \<and> lg_action l = ACTION_MESSAGE) \<and>
    messages_sent w' = messages_sent w @
      (if is_chat_peer peer_id then [] else [(peer_id, instruction (vk_bot_link_command s))])"
proof -
  have ok: "domain_ok (opened w)" "room 2 (opened w)" using domain_ok_opened assms by (auto simp: room_def)
  note logged = domain_ok_kept [OF domain_ok_append_log [OF ok(1) _ ok(2)]]
  show ?thesis
  proof (cases "is_chat_peer peer_id")
    case True
    then show ?thesis
      using logged [OF message_log_fits(1), of "[(vk_peer_id_key, str_int peer_id)]"]
      by (simp add: handle_chat_run [OF assms(1,2) True] append_log_def new_log_def messages_sent_def)
  next
    case False
    let ?code = "parse_link_command u text (vk_bot_link_command s)"
    let ?st = "if ?code = None then lit ''unknown_command'' else lit ''missing_code''"
    have code: "?code = None \<or> ?code = Some []" using assms(3) False by auto
    obtain w' where run: "BotEventHandler_handle_message (sql_bot_handler u s) peer_id from_id text w = (Inr ?st, w')"
      and told: "told peer_id (instruction (vk_bot_link_command s))
        (kept (append_log ACTION_MESSAGE ?st [(vk_peer_id_key, str_int peer_id)] (opened w))) w'"
      using handle_other_run [OF assms(1,2) False refl code] by blast
    have "domain_ok (kept (append_log ACTION_MESSAGE ?st [(vk_peer_id_key, str_int peer_id)] (opened w)))"
      by (rule logged) simp
    from domain_ok_messages [OF this toldD(3) [OF told]] show ?thesis
      using toldD [OF told] False by (auto simp: run append_log_def new_log_def messages_sent_def)
  qed
qed

end
