(* ===== verification/Vk_Api_Object.thy ===== *)
theory Vk_Api_Object
  imports Settings
begin

text \<open>
  The objects of \<open>clients/vk/client.py\<close>: the client of the VK API with the token and the version of the
  settings, and the messenger that makes one when it is first needed.  What the messenger does with
  it is theory \<open>Vk_Client\<close>.
\<close>

record versioned_api =
  va_token :: pystr
  va_api_version :: pystr

definition build_api :: "vk_settings \<Rightarrow> versioned_api" where
  "build_api settings =
     \<lparr>va_token = vk_group_token settings, va_api_version = vk_api_version settings\<rparr>"

record vkbottle_messenger =
  vm_settings :: vk_settings
  vm_api :: "versioned_api option"

definition VkbottleMessenger_init :: "vk_settings \<Rightarrow> versioned_api option \<Rightarrow> vkbottle_messenger" where
  "VkbottleMessenger_init settings api = \<lparr>vm_settings = settings, vm_api = api\<rparr>"

text \<open>The property \<open>api\<close>: a program on the object itself, which it may change.\<close>

definition VkbottleMessenger_api :: "(vkbottle_messenger, versioned_api) prog" where
  "VkbottleMessenger_api =
     bindM (getsM vm_api) (\<lambda>api.
       thenM
         (if api = None then modifyM (\<lambda>m. m\<lparr>vm_api := Some (build_api (vm_settings m))\<rparr>) else retM ())
         (getsM (\<lambda>m. the (vm_api m))))"

text \<open>The given client, or one made from the settings; once read it stays.\<close>

definition api_of :: "vkbottle_messenger \<Rightarrow> versioned_api" where
  "api_of m = (case vm_api m of None \<Rightarrow> build_api (vm_settings m) | Some api \<Rightarrow> api)"

lemma messenger_api_run: "VkbottleMessenger_api m = (Inr (api_of m), m\<lparr>vm_api := Some (api_of m)\<rparr>)"
  by (cases "vm_api m") (simp_all add: VkbottleMessenger_api_def api_of_def prog_simps)

lemma messenger_api_stays:
  assumes "VkbottleMessenger_api m = (Inr api, m')"
  shows "VkbottleMessenger_api m' = (Inr api, m')" "vm_settings m' = vm_settings m"
  using assms by (auto simp: messenger_api_run api_of_def)

lemma api_of_init: "api_of (VkbottleMessenger_init s api) = (case api of None \<Rightarrow> build_api s | Some a \<Rightarrow> a)"
  by (cases api) (simp_all add: VkbottleMessenger_init_def api_of_def)

end
