(* ===== verification/Bot_Main.thy ===== *)
theory Bot_Main
  imports Bot_Handlers Vk_Api_Object
begin

text \<open>
  \<open>bot/main.py\<close>: the process of the bot.  It checks the configuration once (\<open>preflight\<close>), then hands
  the events of the long poll to the handlers; its exit code says whether it could start.

  The VK API, the polling loop of the library and the event loop are outside: the answer of
  \<open>groups.getLongPollServer\<close> is the program \<open>request\<close> of the client and the group, the loop is the
  program \<open>run_polling\<close> of the bot, \<open>loop.add_signal_handler\<close> the program \<open>add_signal_handler\<close> and the
  release of the connection pool the program \<open>close_database\<close>.
\<close>

section \<open>Events\<close>

text \<open>
  What the library hands to the callbacks.  A text the library does not set is \<open>None\<close>; the user of
  the two permission events is the key \<open>user_id\<close> of a dictionary, which may lack it.
\<close>

datatype bot_event =
    Message_New int int "pystr option" | Message_Deny "int option" | Message_Allow "int option"

definition event_user_id :: "int option \<Rightarrow> ('w, int) prog" where
  "event_user_id x = (case x of None \<Rightarrow> raiseM KeyError (lit ''user_id'') | Some i \<Rightarrow> retM i)"

definition on_event :: "'w bot_event_handler \<Rightarrow> bot_event \<Rightarrow> ('w, unit) prog" where
  "on_event H e =
     (case e of
        Message_New peer_id from_id text \<Rightarrow>
          thenM (BotEventHandler_handle_message H peer_id from_id (or_empty text)) (retM ())
      | Message_Deny x \<Rightarrow> thenM (bindM (event_user_id x) (BotEventHandler_handle_message_deny H)) (retM ())
      | Message_Allow x \<Rightarrow> thenM (bindM (event_user_id x) (BotEventHandler_handle_message_allow H)) (retM ()))"

section \<open>The bot\<close>

text \<open>
  The bot of the library: its client of the VK API, how long a poll waits, and what the registered
  callbacks do with an event; the messenger of the handler shares the client.
\<close>

record 'w vk_bot =
  bo_api :: versioned_api
  bo_polling_wait :: int
  bo_callbacks :: "bot_event \<Rightarrow> ('w, unit) prog"
  bo_messenger :: vkbottle_messenger

definition longpoll_wait :: "vk_settings \<Rightarrow> int" where
  "longpoll_wait s = min (vk_longpoll_wait_seconds s) 90"

definition build_bot ::
    "ucd \<Rightarrow> vk_settings \<Rightarrow> versioned_api option \<Rightarrow> ('x world_scheme) vk_bot \<times> ('x world_scheme) bot_event_handler" where
  "build_bot u vk_settings api =
     (let vk_api = (case api of None \<Rightarrow> build_api vk_settings | Some a \<Rightarrow> a);
          handler =
            \<lparr>be_settings = vk_settings, be_services = make_services_factory u vk_settings,
             be_messenger = VkbottleMessenger, be_ucd = u\<rparr>
      in (\<lparr>bo_api = vk_api, bo_polling_wait = longpoll_wait vk_settings, bo_callbacks = on_event handler,
           bo_messenger = VkbottleMessenger_init vk_settings (Some vk_api)\<rparr>,
          handler))"

section \<open>Preflight\<close>

definition TOKEN_REQUIRED_MESSAGE :: pystr where
  "TOKEN_REQUIRED_MESSAGE =
     lit ''VK_GROUP_TOKEN is empty or still holds a placeholder value. ''
     @ lit ''Fill it in services/vk-service/.env before starting the bot runtime.''"

definition GROUP_ID_REQUIRED_MESSAGE :: pystr where
  "GROUP_ID_REQUIRED_MESSAGE =
     lit ''VK_GROUP_ID is not set to a positive community id. ''
     @ lit ''Fill it in services/vk-service/.env before starting the bot runtime.''"

definition LONGPOLL_ACCESS_MESSAGE :: pystr where
  "LONGPOLL_ACCESS_MESSAGE =
     lit ''VK rejected groups.getLongPollServer. The community token needs BOTH the '' @ [39]
     @ lit ''messages'' @ [39] @ lit '' and the '' @ [39] @ lit ''manage'' @ [39] @ lit '' (''
     @ [1059, 1087, 1088, 1072, 1074, 1083, 1077, 1085, 1080, 1077] @ lit '' ''
     @ [1089, 1086, 1086, 1073, 1097, 1077, 1089, 1090, 1074, 1086, 1084]
     @ lit '') scopes, and Long Poll API must be enabled in the community settings (''
     @ [1059, 1087, 1088, 1072, 1074, 1083, 1077, 1085, 1080, 1077] @ lit '' -> ''
     @ [1056, 1072, 1073, 1086, 1090, 1072] @ lit '' '' @ [1089]
     @ lit '' API -> Long Poll API) with the message_new, message_allow and message_deny event ''
     @ lit ''types switched on. Re-issue the token with both scopes and restart the bot.''"

definition INVALID_TOKEN_MESSAGE :: pystr where
  "INVALID_TOKEN_MESSAGE =
     lit ''VK rejected the community token as invalid or expired. ''
     @ lit ''Re-issue VK_GROUP_TOKEN for the community and restart the bot.''"

definition ACCESS_DENIED_CODES :: "int list" where
  "ACCESS_DENIED_CODES = [15, 100]"

definition INVALID_TOKEN_CODES :: "int list" where
  "INVALID_TOKEN_CODES = [5, 27, 28]"

text \<open>An answer of the VK API: taken, refused with a code (if it has one) and a text, or not reached.\<close>

datatype vk_answer = Vk_Ok | Vk_Refused "int option" pystr | Vk_Unreachable

definition code_text :: "int option \<Rightarrow> pystr" where
  "code_text c = (case c of None \<Rightarrow> lit ''None'' | Some i \<Rightarrow> str_int i)"

definition preflight ::
    "(versioned_api \<Rightarrow> int \<Rightarrow> ('w, vk_answer) prog) \<Rightarrow> 'w vk_bot \<Rightarrow> vk_settings \<Rightarrow> ('w, pystr option) prog" where
  "preflight request vk s =
     (if vk_group_id s \<le> 0 then retM (Some GROUP_ID_REQUIRED_MESSAGE)
      else
        bindM (request (bo_api vk) (vk_group_id s)) (\<lambda>answer.
          case answer of
            Vk_Ok \<Rightarrow> retM None
          | Vk_Refused code text \<Rightarrow>
              if (case code of None \<Rightarrow> False | Some c \<Rightarrow> c \<in> set INVALID_TOKEN_CODES)
              then retM (Some (INVALID_TOKEN_MESSAGE @ lit '' (VK error '' @ code_text code @ lit '')''))
              else if (case code of None \<Rightarrow> False | Some c \<Rightarrow> c \<in> set ACCESS_DENIED_CODES)
              then retM (Some (LONGPOLL_ACCESS_MESSAGE @ lit '' (VK error '' @ code_text code @ lit '')''))
              else retM (Some (lit ''VK rejected groups.getLongPollServer with error '' @ code_text code
                               @ lit '': '' @ text))
          | Vk_Unreachable \<Rightarrow> retM None))"

section \<open>The process\<close>

datatype signal = SIGTERM | SIGINT

fun install_shutdown_handlers_for :: "(signal \<Rightarrow> ('w, unit) prog) \<Rightarrow> signal list \<Rightarrow> ('w, unit) prog" where
  "install_shutdown_handlers_for add_signal_handler [] = retM ()"
| "install_shutdown_handlers_for add_signal_handler (sig # sigs) =
     thenM
       (catchM (add_signal_handler sig) [NotImplementedError, RuntimeError] (\<lambda>_. retM ()))
       (install_shutdown_handlers_for add_signal_handler sigs)"

definition install_shutdown_handlers :: "(signal \<Rightarrow> ('w, unit) prog) \<Rightarrow> ('w, unit) prog" where
  "install_shutdown_handlers add_signal_handler = install_shutdown_handlers_for add_signal_handler [SIGTERM, SIGINT]"

text \<open>What the process needs of its surroundings.\<close>

record 'w bot_host =
  bh_request :: "versioned_api \<Rightarrow> int \<Rightarrow> ('w, vk_answer) prog"
  bh_add_signal_handler :: "signal \<Rightarrow> ('w, unit) prog"
  bh_run_polling :: "'w vk_bot \<Rightarrow> ('w, unit) prog"
  bh_close_database :: "('w, unit) prog"

definition run_bot :: "('x world_scheme) bot_host \<Rightarrow> ucd \<Rightarrow> vk_settings \<Rightarrow> ('x world_scheme, unit) prog" where
  "run_bot host u s =
     (let vk = fst (build_bot u s None) in
      bindM (preflight (bh_request host) vk s) (\<lambda>problem.
        case problem of
          Some p \<Rightarrow> thenM (bh_close_database host) (raiseM PreflightError p)
        | None \<Rightarrow>
            thenM (install_shutdown_handlers (bh_add_signal_handler host))
              (finallyM (bh_run_polling host vk) (bh_close_database host))))"

definition main :: "('x world_scheme) bot_host \<Rightarrow> ucd \<Rightarrow> vk_settings \<Rightarrow> ('x world_scheme, int) prog" where
  "main host u s =
     (if \<not> is_token_usable s then retM 1
      else
        catchM
          (catchM (thenM (run_bot host u s) (retM 0)) [PreflightError] (\<lambda>_. retM 1))
          [KeyboardInterrupt] (\<lambda>_. retM 0))"

lemma build_bot_handler: "snd (build_bot u s api) = sql_bot_handler u s"
  by (simp add: build_bot_def sql_bot_handler_def Let_def)

lemma install_shutdown_handlers_run:
  assumes "\<And>sig v. add sig v = (installs sig, installed sig v)" "\<And>sig e. installs sig = Inl e \<Longrightarrow> isinstance e RuntimeError"
  shows "install_shutdown_handlers add w = (Inr (), installed SIGINT (installed SIGTERM w))"
proof -
  have "catchM (add sig) [NotImplementedError, RuntimeError] (\<lambda>_. retM ()) v = (Inr (), installed sig v)" for sig v
    using assms by (auto simp: prog_simps split: sum.split)
  then show ?thesis by (simp add: install_shutdown_handlers_def prog_simps)
qed

section \<open>Properties\<close>

text \<open>
  C35. The long poll never starts on a configuration it cannot work with: without a usable token nothing
  is asked or run and the exit code is 1; with a group id that is not positive, or when the VK API
  refuses the request made with the token and the version of the settings, the loop is not run, the
  connection pool is released and the exit code is 1.  When the API accepts, or cannot be reached, both
  signals are handled where the platform can, the loop is run with a wait of at most 90 seconds and the
  handler over the SQL repositories, and the pool is released after it.
\<close>

theorem bot_starts_only_configured:
  fixes w :: "'x world_scheme"
  assumes "\<And>b v. bh_run_polling host b v = (loop_end b, polled b v)" "\<And>v. bh_close_database host v = (Inr (), released v)"
    and "\<And>api g v. bh_request host api g v = (Inr (answer api g v), asked v)"
    and "\<And>sig v. bh_add_signal_handler host sig v = (installs sig, installed sig v)"
    and "\<And>sig e. installs sig = Inl e \<Longrightarrow> isinstance e RuntimeError"
  shows "\<exists>b. bo_polling_wait b \<le> 90 \<and> bo_callbacks b = on_event (sql_bot_handler u s) \<and>
    bo_api b = build_api s \<and> api_of (bo_messenger b) = build_api s \<and>
    main host u s w =
    (if \<not> is_token_usable s then (Inr 1, w)
     else if vk_group_id s \<le> 0 then (Inr 1, released w)
     else
       case answer (build_api s) (vk_group_id s) w of
         Vk_Refused code text \<Rightarrow> (Inr 1, released (asked w))
       | _ \<Rightarrow>
           (case loop_end b of
              Inr _ \<Rightarrow> Inr 0
            | Inl e \<Rightarrow> if isinstance e PreflightError then Inr 1 else if isinstance e KeyboardInterrupt then Inr 0 else Inl e,
            released (polled b (installed SIGINT (installed SIGTERM (asked w))))))"
proof -
  let ?bot = "fst (build_bot u s None) :: ('x world_scheme) vk_bot"
  have bot: "bo_api ?bot = build_api s" "bo_callbacks ?bot = on_event (sql_bot_handler u s)"
    "bo_polling_wait ?bot \<le> 90" "api_of (bo_messenger ?bot) = build_api s"
    by (simp_all add: build_bot_def sql_bot_handler_def longpoll_wait_def Let_def api_of_init)
  note install = install_shutdown_handlers_run [of "bh_add_signal_handler host", OF assms(4,5)]
  show ?thesis
    using bot
    by (intro exI [of _ ?bot]; cases "answer (build_api s) (vk_group_id s) w"; cases "loop_end ?bot")
      (auto simp: main_def run_bot_def preflight_def prog_simps finallyM_def Let_def assms(1-3) install split: option.splits)
qed

end
