(* ===== verification/Sample_Requests.thy ===== *)
theory Sample_Requests
  imports Sample Vks_Api Bot_Main
begin

text \<open>Witnesses of the properties of the HTTP API, the bot and the settings, on the sample world.\<close>

section \<open>Requests\<close>

lemma sample_settings_valid: "vk_settings_valid default_vk_settings"
  by (simp add: vk_settings_valid_def default_vk_settings_def)

lemma sample_owner: "find (owned_by 12) (user_vks sample_db) = Some (sample_binding 2 12 (Some 500) STATE_ACTIVE)"
  "find (owned_by 99) (user_vks sample_db) = None"
  by (simp_all add: sample_db_def sample_binding_def owned_by_def)

theorem get_bindings_exact_witness:
  "\<exists>w'. app sample_ucd default_vk_settings (Get_Bindings (Some (py_join (lit '','') (map uuid_str [12, 98]))) None) sample_world =
      (Inr \<lparr>rs_status = 200, rs_body = Bindings [VkBindingResponse (sample_binding 2 12 (Some 500) STATE_ACTIVE)]\<rparr>, w') \<and>
    committed w' = sample_db"
proof -
  have "filter (matches_ids [12, 98] None) (user_vks sample_db) = [sample_binding 2 12 (Some 500) STATE_ACTIVE]"
    by (simp add: matches_ids_def sample_db_def sample_binding_def)
  with get_bindings_exact [of "[12, 98]" None sample_ucd default_vk_settings sample_world] show ?thesis by auto
qed

theorem app_transaction_witness:
  "wp (app sample_ucd default_vk_settings (Get_Bindings (Some (lit ''nonsense'')) None))
    (\<lambda>r w'. domain_ok w' \<and> committed w' = sample_db) (\<lambda>e w'. exn_class e = OverflowError) sample_world"
  by (rule wp_mono [OF app_transaction [OF domain_ok_sample room_sample sample_settings_valid]]) auto

theorem issue_conflict_leaves_no_trace_witness:
  "\<exists>w'. app sample_ucd default_vk_settings (Issue_Confirmation (Some 12)) sample_world =
      (Inr \<lparr>rs_status = 409, rs_body = Detail msg_conflict_active\<rparr>, w') \<and> vk_logs (db w') = []"
  using issue_conflict_leaves_no_trace
      [OF domain_ok_sample room_sample, of 12 "sample_binding 2 12 (Some 500) STATE_ACTIVE" msg_conflict_active
        sample_ucd default_vk_settings]
  by (auto simp: sample_owner) (auto simp: sample_binding_def sample_db_def)

lemma sample_delete:
  "\<exists>w'. app sample_ucd default_vk_settings (Delete_Binding (Some 99)) sample_world =
     (Inr \<lparr>rs_status = 204, rs_body = No_Content\<rparr>, w') \<and> room 2 w'"
proof -
  let ?w = "sample_world\<lparr>db := committed sample_world, locks := []\<rparr>"
  have ok: "domain_ok ?w" "room 2 ?w" "find (owned_by 99) (user_vks (db ?w)) = None"
    using domain_ok_restart(1) [OF domain_ok_sample] by (simp_all add: room_def uuid_limit_def sample_owner)
  note run = unlink_absent_run [OF ok(1,3,2), simplified]
  show ?thesis
    by (simp add: app_def with_parsed_def get_session_def delete_binding_def prog_simps get_vk_binding_service_sql
        run append_log_def room_def uuid_limit_def)
qed

theorem delete_binding_idempotent_witness:
  "\<exists>r w'. app sample_ucd default_vk_settings (Delete_Binding (Some 99)) sample_world = (Inr r, w') \<and>
     wp (app sample_ucd default_vk_settings (Delete_Binding (Some 99)))
       (\<lambda>r' w''. r' = r \<and> find (owned_by 99) (user_vks (committed w'')) = None) (\<lambda>e w''. False) w'"
proof -
  obtain r w' where run: "app sample_ucd default_vk_settings (Delete_Binding (Some 99)) sample_world = (Inr r, w')" "room 2 w'"
    using sample_delete by blast
  have "wp (app sample_ucd default_vk_settings (Delete_Binding (Some 99)))
       (\<lambda>r' w''. r' = r \<and> find (owned_by 99) (user_vks (committed w'')) = None) (\<lambda>e w''. False) w'"
    by (rule wp_mono [OF delete_binding_idempotent [OF domain_ok_sample room_sample run]]) (simp, blast+)
  with run show ?thesis by blast
qed

theorem create_binding_idempotent_witness:
  "wp (app sample_ucd default_vk_settings (Create_Binding (Some 99)))
    (\<lambda>r w'. rs_status r = 201 \<and> length (user_vks (committed w')) = 4) (\<lambda>e w'. False) sample_world"
  by (rule wp_mono [OF create_binding_idempotent [OF domain_ok_sample room_sample]])
    (auto simp: sample_owner, auto simp: sample_db_def)

section \<open>Settings\<close>

theorem nats_servers_clean_witness:
  "nats_servers (default_nats_settings\<lparr>nats_servers_raw := lit ''  ''\<rparr>) = [lit ''nats://localhost:4222'']"
  by (rule nats_servers_clean [THEN conjunct2, THEN conjunct1, rule_format])
    (simp add: lit_def py_strip_def py_strip_chars_def py_lstrip_def py_rstrip_def py_isspace_def)

section \<open>Events of the bot\<close>

theorem parse_link_command_finds_code_witness:
  "parse_link_command sample_ucd (lit '' /link  ABCD2345 please'') (lit ''/link'') = Some (lit ''ABCD2345'')"
  using parse_link_command_finds_code
      [of sample_ucd "lit ''/link''" "lit ''/link''" "lit ''ABCD2345''" "lit '' ''" "lit ''  ''" "lit '' please''"]
  by (simp add: lit_def py_isspace_def)

lemma sample_parse: "parse_link_command sample_ucd (lit ''/link abcd2345'') (lit ''/link'') = Some (lit ''abcd2345'')"
  by (simp add: parse_link_command_words lit_def py_isspace_def)

lemma sample_bot:
  "vk_bot_link_command default_vk_settings = lit ''/link''" "vk_confirmation_max_attempts default_vk_settings = 5"
  "vk_confirmation_attempt_window_minutes default_vk_settings = 10"
  by (simp_all add: default_vk_settings_def)

lemma sample_typed_lower: "normalize_code sample_ucd (lit ''abcd2345'') = lit ''ABCD2345''"
  by (simp add: normalize_code_def py_strip_def py_strip_chars_def py_lstrip_def py_rstrip_def py_isspace_def
      py_upper_def upper_cp_def lit_def)

theorem bot_message_by_verdict_witness:
  "case BotEventHandler_handle_message (sql_bot_handler sample_ucd default_vk_settings) 700 700 (lit ''/link abcd2345'')
       sample_world of (r, w') \<Rightarrow>
     r = Inr (lit ''confirmed'') \<and> messages_sent w' = [(700, LINKED)] \<and> domain_ok w'"
proof -
  have win: "window_in_range (vk_confirmation_attempt_window_minutes default_vk_settings) (later 1 sample_world)"
    by (simp add: sample_bot window_in_range_def window_start_def later_def sample_time_def datetime_min_def datetime_max_def)
  have names: "names_of (profile_answer 700 (vk_users_answer sample_world (tick sample_world) 700)) = (None, None)"
    by (simp add: sample_world_def profile_answer_def names_of_def)
  have v: "confirm_verdict sample_db 5 t (sample_time + 2) (lit ''ABCD2345'') 700 =
      Linkable (sample_binding 1 11 None STATE_PENDING) sample_code" for t
    by (simp add: confirm_verdict_def failed_attempts_def linked_to_def sample_defs)
  have "parse_link_command sample_ucd (lit ''/link abcd2345'') (vk_bot_link_command default_vk_settings) = Some (lit ''abcd2345'')"
    by (simp add: sample_bot sample_parse)
  note message = bot_message_by_verdict [OF domain_ok_sample room_sample _ _ this _ win names, of 700]
  have "fits_bigint 700" "\<not> is_chat_peer 700" "names_fit None None" "lit ''abcd2345'' \<noteq> []"
    by (simp_all add: fits_bigint_def is_chat_peer_def CHAT_PEER_THRESHOLD_def names_fit_def opt_fits_def lit_def)
  with message show ?thesis
    by (simp add: sample_typed_lower sample_bot v case_prod_beta Let_def)
qed

theorem bot_other_messages_harmless_witness:
  "case BotEventHandler_handle_message (sql_bot_handler sample_ucd default_vk_settings) 2000000001 700 (lit ''/link abcd2345'')
       sample_world of (r, w') \<Rightarrow>
     domain_ok w' \<and> user_vks (committed w') = user_vks sample_db"
  using bot_other_messages_harmless [OF domain_ok_sample room_sample, of 2000000001 sample_ucd "lit ''/link abcd2345''"
      default_vk_settings 700]
  by (auto simp: is_chat_peer_def CHAT_PEER_THRESHOLD_def case_prod_beta)

definition sample_host :: "world bot_host" where
  "sample_host =
     \<lparr>bh_request = (\<lambda>api g v. (Inr (Vk_Refused (Some 15) []), v)),
      bh_add_signal_handler = (\<lambda>sig v. (Inl (Exn NotImplementedError []), v)),
      bh_run_polling = (\<lambda>b v. (Inr (), v)),
      bh_close_database = (\<lambda>v. (Inr (), v\<lparr>locks := [(1, 1)]\<rparr>))\<rparr>"

theorem bot_starts_only_configured_witness:
  "main sample_host sample_ucd (default_vk_settings\<lparr>vk_group_token := lit ''t'', vk_group_id := 1\<rparr>) sample_world =
     (Inr 1, sample_world\<lparr>locks := [(1, 1)]\<rparr>)"
  using bot_starts_only_configured [of sample_host "\<lambda>b. Inr ()" "\<lambda>b v. v" "\<lambda>v. v\<lparr>locks := [(1, 1)]\<rparr>"
      "\<lambda>api g v. Vk_Refused (Some 15) []" "\<lambda>v. v" "\<lambda>sig. Inl (Exn NotImplementedError [])" "\<lambda>sig v. v"
      sample_ucd "default_vk_settings\<lparr>vk_group_token := lit ''t'', vk_group_id := 1\<rparr>" sample_world]
  by (auto simp: sample_host_def is_token_usable_def lit_def py_strip_def py_strip_chars_def py_lstrip_def py_rstrip_def
      py_isspace_def Let_def py_startswith_def)

end
