(* ===== verification/Sample_Commands.thy ===== *)
theory Sample_Commands
  imports Sample Command_Service
begin

text \<open>
  Witnesses of the properties of the command handler, the broker's client and the consumer: a sample
  broker beside the sample world, which delivers one command for the two linked owners.
\<close>

section \<open>The sample broker\<close>

definition sample_broker :: "(nat \<Rightarrow> nats_call \<Rightarrow> exn option) \<Rightarrow> nats_msg list \<Rightarrow> nats_world" where
  "sample_broker answer ms =
     world.extend sample_world
       (nats_world.fields (Some \<lparr>nc_is_connected = True, nc_is_closed = False\<rparr>) True
         (new_policy service_name 3) 0 answer (\<lambda>t. if t = 0 then ms else []) [] True (Some Task_Running))"

lemma sample_broker_sel [simp]:
  "db (sample_broker answer ms) = sample_db" "committed (sample_broker answer ms) = sample_db"
  "tick (sample_broker answer ms) = 0" "drawn (sample_broker answer ms) = 0"
  "nats_answer (sample_broker answer ms) = answer" "nats_tick (sample_broker answer ms) = 0"
  "nats_messages (sample_broker answer ms) = (\<lambda>t. if t = 0 then ms else [])" "nats_calls (sample_broker answer ms) = []"
  "consumer_task (sample_broker answer ms) = Some Task_Running" "consumer_subscription (sample_broker answer ms)"
  "nats_jetstream (sample_broker answer ms)" "is_connected (sample_broker answer ms)" "is_running (sample_broker answer ms)"
  "nats_connection (sample_broker answer ms) = Some \<lparr>nc_is_connected = True, nc_is_closed = False\<rparr>"
  "outbox (sample_broker answer ms) = outbox sample_world"
  by (simp_all add: sample_broker_def world.defs nats_world.defs is_connected_def is_running_def sample_world_def)

lemma domain_ok_extend: "domain_ok (world.extend w x) = domain_ok w"
  by (simp add: domain_ok_def fresh_supply_def undrawn_def world.defs)

lemma sample_broker_ok: "domain_ok (sample_broker answer ms)" "n \<le> 1000 \<Longrightarrow> room n (sample_broker answer ms)"
  using room_sample [of n] by (simp_all add: sample_broker_def domain_ok_extend domain_ok_sample)
    (simp add: room_def world.defs)

definition sample_headers :: "pystr \<rightharpoonup> pystr" where
  "sample_headers = [lit ''Nats-Msg-Id'' \<mapsto> uuid_str (build_command_msg_id 78 VK_CHANNEL_CODE)]"

definition sample_decode :: "byte list \<Rightarrow> notification_command option" where
  "sample_decode d =
     (if d = [] then None else if d = [49] then Some (sample_command\<lparr>cm_user_ids := [12]\<rparr>) else Some sample_command)"

definition sample_msg :: nats_msg where
  "sample_msg = \<lparr>nm_id = 5, nm_data = [123], nm_headers = Some sample_headers\<rparr>"

lemma accepted_sample:
  assumes "deduplicate_user_ids us = us" "us \<noteq> []"
  shows "accepted sample_ucd (\<lambda>_. Some (sample_command\<lparr>cm_user_ids := us\<rparr>)) d sample_headers =
    Some (sample_command\<lparr>cm_user_ids := us\<rparr>)"
proof -
  have "py_strip (lit ''hello'') = lit ''hello''" "lit ''hello'' \<noteq> []" "length (lit ''hello'') \<le> 4096"
    by (simp_all add: lit_def py_strip_def py_strip_chars_def py_lstrip_def py_rstrip_def py_isspace_def)
  moreover have "cm_callback_request_id sample_command = 78"
    "sample_command\<lparr>cm_user_ids := us, cm_text := lit ''hello''\<rparr> = sample_command\<lparr>cm_user_ids := us\<rparr>"
    by (simp_all add: sample_command_def)
  ultimately show ?thesis using assms by (simp add: accepted_def sample_headers_def uuid_of_str_str)
qed

lemma sample_accepted:
  "accepted sample_ucd sample_decode [123] sample_headers = Some sample_command"
  "accepted sample_ucd sample_decode [49] sample_headers = Some (sample_command\<lparr>cm_user_ids := [12]\<rparr>)"
proof -
  have same: "decode d = decode' d \<Longrightarrow> accepted u decode d h = accepted u decode' d h" for u decode decode' d h
    by (simp add: accepted_def)
  have two: "sample_command\<lparr>cm_user_ids := [12, 13]\<rparr> = sample_command" by (simp add: sample_command_def)
  have "accepted sample_ucd sample_decode [123] sample_headers =
      accepted sample_ucd (\<lambda>_. Some (sample_command\<lparr>cm_user_ids := [12, 13]\<rparr>)) [123] sample_headers"
    by (rule same) (simp add: sample_decode_def two)
  then show "accepted sample_ucd sample_decode [123] sample_headers = Some sample_command"
    using accepted_sample [of "[12, 13]" "[123]"] by (simp add: two deduplicate_user_ids_def)
  have "accepted sample_ucd sample_decode [49] sample_headers =
      accepted sample_ucd (\<lambda>_. Some (sample_command\<lparr>cm_user_ids := [12]\<rparr>)) [49] sample_headers"
    by (rule same) (simp add: sample_decode_def)
  then show "accepted sample_ucd sample_decode [49] sample_headers = Some (sample_command\<lparr>cm_user_ids := [12]\<rparr>)"
    using accepted_sample [of "[12]" "[49]"] by (simp add: deduplicate_user_ids_def)
qed

section \<open>The handler\<close>

theorem handler_commits_outcome_witness:
  "wp (NotificationCommandsSendVkHandler_handle VkbottleMessenger sample_ucd sample_decode [123] sample_headers)
    (\<lambda>_ w'. due_recipients (opened w') sample_command = []) (\<lambda>x w'. domain_ok w') sample_world"
  by (rule wp_mono [OF handler_commits_outcome [OF sample_accepted(1) domain_ok_sample room_sample]]) simp_all


lemma sample_opened: "opened sample_world = sample_world"
  by (simp add: opened_def sample_world_def)

lemma sample_handled:
  "NotificationCommandsSendVkHandler_handle VkbottleMessenger sample_ucd sample_decode [49] sample_headers sample_world =
     (Inr (), opened (kept (snd (sample_deliver [12] sample_world))))"
  using sample_deliver_runs(1)
  by (cases "sample_deliver [12] sample_world") (simp add: accepted_run [OF sample_accepted(2)] sample_opened)

theorem redelivered_command_is_silent_witness:
  "wp (NotificationCommandsSendVkHandler_handle VkbottleMessenger sample_ucd sample_decode [49] sample_headers)
    (\<lambda>_ w''. messages_sent w'' = messages_sent (snd (sample_deliver [12] sample_world))) (\<lambda>x w''. False)
    (opened (kept (snd (sample_deliver [12] sample_world))))"
proof -
  have "room 1 (opened (kept (snd (sample_deliver [12] sample_world))))"
    using sample_deliver_runs(2) by (simp add: room_def)
  then show ?thesis
    by (intro wp_mono [OF redelivered_command_is_silent [OF sample_accepted(2) domain_ok_sample _ sample_handled]])
      (simp_all add: room_sample)
qed

section \<open>The client\<close>

text \<open>The stream appears on the second attempt.\<close>

definition late_stream :: "nat \<Rightarrow> nats_call \<Rightarrow> exn option" where
  "late_stream t c = (if t = 0 then Some (Exn JsNotFoundError []) else None)"

theorem setup_waits_for_stream_witness:
  "nats_setup default_nats_settings (sample_broker late_stream []) =
     (Inr (), called [registration default_nats_settings, Call_Sleep (Finite 2), registration default_nats_settings] 2
       (sample_broker late_stream []))"
  using setup_waits_for_stream [of "sample_broker late_stream []" 1 default_nats_settings]
  by (simp add: late_stream_def default_nats_settings_def numeral_2_eq_2)

theorem close_lets_go_witness:
  "\<not> is_connected (snd (nats_close (sample_broker (\<lambda>t c. Some (Exn PyTimeoutError [])) []))) \<and>
   nats_calls (snd (nats_close (sample_broker (\<lambda>t c. Some (Exn PyTimeoutError [])) []))) = [Call_Drain, Call_Close]"
  using close_lets_go [of "sample_broker (\<lambda>t c. Some (Exn PyTimeoutError [])) []"]
  by (simp add: case_prod_beta)

theorem connect_once_witness:
  "nats_connect default_nats_settings (sample_broker (\<lambda>t c. None) []) = (Inr (), sample_broker (\<lambda>t c. None) [])"
  using connect_once [of "sample_broker (\<lambda>t c. None) []" default_nats_settings] by simp

section \<open>The error policy\<close>

definition five_errors :: "connection_event list" where
  "five_errors = [Ev_Error, Ev_Error, Ev_Error, Ev_Error, Ev_Error]"

theorem escalates_once_per_incident_witness:
  "count_list (map fst (fst (policy_run (policy_reset (new_policy service_name 3)) five_errors))) Level_Error = 1"
proof -
  have "0 \<le> ep_report_after_attempts (new_policy service_name 3)" "Ev_Reconnected \<notin> set five_errors"
    "ep_report_after_attempts (new_policy service_name 3) < int (count_list five_errors Ev_Error)"
    by (simp_all add: new_policy_def five_errors_def)
  then show ?thesis
    using escalates_once_per_incident [OF policy_ok_new, of 3 service_name five_errors, unfolded Let_def, THEN conjunct1]
    by simp
qed

theorem reconnection_begins_anew_witness:
  "map fst (fst (policy_run (new_policy service_name 3) (five_errors @ Ev_Reconnected # [Ev_Error]))) =
     map fst (fst (policy_run (new_policy service_name 3) five_errors)) @ [Level_Info, Level_Warning]"
proof -
  have "policy_ok (new_policy service_name 3)" "0 \<le> ep_report_after_attempts (new_policy service_name 3)"
    by (simp_all add: policy_ok_new) (simp add: new_policy_def)
  from reconnection_begins_anew [OF this, of five_errors "[Ev_Error]" service_name]
  show ?thesis by (simp add: new_policy_def on_error_def)
qed

section \<open>The consumer\<close>

lemma sample_calm: "calm (sample_broker (\<lambda>t c. None) ms)"
  by (simp add: calm_def takes_acks_def)

theorem acknowledged_means_done_witness:
  "wp (process_message (vk_notification_handler sample_ucd sample_decode) sample_msg)
    (\<lambda>_ w'. domain_ok w' \<and> (nats_calls w' = [Call_Ack 5] \<or> nats_calls w' = [Call_Nak 5])) (\<lambda>e w'. False)
    (sample_broker (\<lambda>t c. None) [])"
  by (rule wp_mono [OF acknowledged_means_done [OF sample_broker_ok(1)]])
    (auto simp: sample_msg_def headers_of_def sample_accepted sample_broker_ok(2) takes_acks_def split: if_splits)

theorem batch_settled_in_order_witness:
  "\<exists>cs w'. consume_round default_nats_settings (vk_notification_handler sample_ucd sample_decode)
       (sample_broker (\<lambda>t c. None) [sample_msg, sample_msg]) = (Inr (), w') \<and> length cs = 2 \<and>
     nats_calls w' = Call_Fetch 10 (Finite 5) # cs"
  using batch_settled_in_order [where w = "sample_broker (\<lambda>t c. None) [sample_msg, sample_msg]" and
      s = default_nats_settings and u = sample_ucd and decode = sample_decode]
  by (auto simp: takes_acks_def case_prod_beta list_all2_lengthD default_nats_settings_def
      dest!: list_all2_lengthD)

theorem consumer_survives_witness:
  "is_running (vk_notification_consumer 100 default_nats_settings sample_ucd sample_decode
     (sample_broker (\<lambda>t c. None) [sample_msg, sample_msg]))"
  by (rule consumer_survives [OF sample_calm]) simp_all

definition refused_acks :: "nat \<Rightarrow> nats_call \<Rightarrow> exn option" where
  "refused_acks t c = (if t = 1 then Some (Exn PyConnectionError []) else None)"

theorem refused_acknowledgement_ends_consumer_witness:
  "\<not> is_running (vk_notification_consumer (Suc 0) default_nats_settings sample_ucd sample_decode
       (sample_broker refused_acks [sample_msg, sample_msg])) \<and>
   fst (consumer_stop (vk_notification_consumer (Suc 0) default_nats_settings sample_ucd sample_decode
       (sample_broker refused_acks [sample_msg, sample_msg]))) = Inl (Exn PyConnectionError [])"
  using refused_acknowledgement_ends_consumer [where w = "sample_broker refused_acks [sample_msg, sample_msg]" and
      s = default_nats_settings and m = sample_msg and ms = "[sample_msg]" and e = "Exn PyConnectionError []" and
      n = 0 and u = sample_ucd and decode = sample_decode and k = 0]
  by (simp add: refused_acks_def Let_def case_prod_beta)

theorem consumer_start_stop_witness:
  "consumer_start default_nats_settings (sample_broker (\<lambda>t c. None) []) = (Inr (), sample_broker (\<lambda>t c. None) []) \<and>
   consumer_task (snd (consumer_stop (sample_broker (\<lambda>t c. None) []))) = None"
  using consumer_start_stop [where s = default_nats_settings and w = "sample_broker (\<lambda>t c. None) []"]
  by (auto simp: case_prod_beta prod_eq_iff)

end
