(* ===== verification/Store_Frame.thy ===== *)
theory Store_Frame
  imports Vks_Api Bot_Main Notification_Handler "HOL-Library.Sublist"
begin

text \<open>
  What every operation leaves of the stored data, whichever way it ends: the requests and the events of
  the bot write neither the ledger of deliveries nor an old row of the journal, and a command writes
  nothing but the ledger.

  The operations are gone through once, for any property of the tables that survives their writes
  (locale \<open>stored\<close>); the ledger and the journal are two such properties.
\<close>

section \<open>Properties of the tables that survive a kind of write\<close>

definition in_store :: "(db \<Rightarrow> bool) \<Rightarrow> 'x world_scheme \<Rightarrow> bool" where
  "in_store P w \<longleftrightarrow> P (db w) \<and> P (committed w)"

lemma keeps_finally [intro]: "keeps I m \<Longrightarrow> keeps I f \<Longrightarrow> keeps I (finallyM m f)"
  by (auto simp: keeps_def finallyM_def split: prod.splits sum.splits)

lemma keeps_modify: "(\<And>w. I w \<Longrightarrow> I (f w)) \<Longrightarrow> keeps I (modifyM f)"
  by (simp add: keeps_def modifyM_def)

lemma keeps_in_store:
  "keeps (in_store P) commit" "keeps (in_store P) rollback" "keeps (in_store P) open_session"
  "keeps (in_store P) (tick_read r)" "keeps (in_store P) fresh_uuid" "keeps (in_store P) (advisory_xact_lock x y)"
  "keeps (in_store P) (messages_send p t i)" "keeps (in_store P) (users_get p)"
  by (auto simp: keeps_def in_store_def commit_def rollback_def open_session_def tick_read_def fresh_uuid_def
      advisory_xact_lock_def messages_send_def users_get_def modifyM_def Let_def split: option.splits)

lemma keeps_exec_write: "(\<And>d. P d \<Longrightarrow> P (f d)) \<Longrightarrow> keeps (in_store P) (exec_write b f)"
  by (auto simp: keeps_def in_store_def exec_write_def)

lemma keeps_rows [intro]: "keeps I (one_or_none rows)" "keeps I (exactly_one rows)" "keeps I (bind_bigint i)"
  "keeps I (add_minutes t m)"
  by (auto simp: keeps_def one_or_none_def exactly_one_def bind_bigint_def add_minutes_def retM_def throwM_def Let_def
      split: list.splits)

lemma keeps_reads:
  "keeps (in_store P) now_utc" "keeps (in_store P) server_now" "keeps (in_store P) (choice_index n)"
  "keeps (in_store P) (VkbottleMessenger_send_message p t)" "keeps (in_store P) (VkbottleMessenger_get_profile p)"
  unfolding now_utc_def server_now_def choice_index_def VkbottleMessenger_send_message_def random_id_def
    VkbottleMessenger_get_profile_def
  by (auto intro!: keeps_in_store keeps_bind keeps_then keeps_catch keeps_ret split: option.splits list.splits)

locale stored =
  fixes P :: "db \<Rightarrow> bool"
  assumes users: "P d \<Longrightarrow> P (d\<lparr>user_vks := us\<rparr>)"
    and codes: "P d \<Longrightarrow> P (d\<lparr>vk_confirmations := cs\<rparr>)"
    and journal: "P d \<Longrightarrow> P (d\<lparr>vk_logs := vk_logs d @ [l]\<rparr>)"
begin

lemmas keepsI = keeps_bind keeps_then keeps_catch keeps_ret keeps_throw keeps_gets keeps_rows keeps_in_store keeps_reads
  keeps_finally

lemma bindings:
  "keeps (in_store P) (UserVkRepository_create i)" "keeps (in_store P) (UserVkRepository_get_by_id i)"
  "keeps (in_store P) (UserVkRepository_get_by_user_id i)" "keeps (in_store P) (UserVkRepository_get_by_user_ids is st)"
  "keeps (in_store P) (UserVkRepository_get_by_peer_id p)" "keeps (in_store P) (UserVkRepository_activate i p sn dn)"
  "keeps (in_store P) (UserVkRepository_set_state i s)" "keeps (in_store P) (UserVkRepository_soft_delete i)"
  unfolding UserVkRepository_create_def UserVkRepository_get_by_id_def UserVkRepository_get_by_user_id_def
    UserVkRepository_get_by_user_ids_def UserVkRepository_get_by_peer_id_def UserVkRepository_activate_def
    UserVkRepository_set_state_def UserVkRepository_soft_delete_def update_user_vks_def select_user_vks_def Let_def
  by (auto intro!: keepsI keeps_exec_write users)

lemma confirmations:
  "keeps (in_store P) (VkConfirmationRepository_create i c t)" "keeps (in_store P) (VkConfirmationRepository_get_by_code c)"
  "keeps (in_store P) (VkConfirmationRepository_mark_used i)" "keeps (in_store P) (VkConfirmationRepository_invalidate_previous i)"
  unfolding VkConfirmationRepository_create_def VkConfirmationRepository_get_by_code_def
    VkConfirmationRepository_mark_used_def VkConfirmationRepository_invalidate_previous_def set_used_where_def Let_def
  by (auto intro!: keepsI keeps_exec_write codes)

lemma logs:
  "keeps (in_store P) (VkLogRepository_log_action a s d)" "keeps (in_store P) (VkLogRepository_count_failed_since a p t fs)"
  unfolding VkLogRepository_log_action_def VkLogRepository_count_failed_since_def Let_def
  by (auto intro!: keepsI keeps_exec_write journal)

lemmas repositories = bindings confirmations logs

section \<open>The services\<close>

lemma runtime:
  "keeps (in_store P) (rt_now python_runtime)" "keeps (in_store P) (rt_choice python_runtime n)"
  by (simp_all add: python_runtime_def keepsI)

lemma code_drawn: "keeps (in_store P) (draw_chars python_runtime n)"
  by (induction n) (auto simp: secrets_choice_def intro!: keepsI runtime)

lemma unique_code: "keeps (in_store P) (create_unique_code_from (sql_binding_service ttl k m) n)"
proof (induction n)
  case (Suc n)
  then show ?case
    by (auto simp: sql_binding_service_def generate_code_def intro!: keepsI code_drawn confirmations)
qed (simp add: keepsI)

lemma binding_service:
  "keeps (in_store P) (VkBindingService_ensure_binding (sql_binding_service ttl n (Some VkbottleMessenger)) i)"
  "keeps (in_store P) (VkBindingService_get_bindings (sql_binding_service ttl n (Some VkbottleMessenger)) is st)"
  "keeps (in_store P) (VkBindingService_unlink (sql_binding_service ttl n (Some VkbottleMessenger)) i)"
  unfolding VkBindingService_ensure_binding_def VkBindingService_unlink_def VkBindingService_notify_unlinked_def
    VkBindingService_get_bindings_def Let_def
  by (auto simp: sql_binding_service_def VkbottleMessenger_def intro!: keepsI repositories split: option.splits)

lemma issue_confirmation:
  "keeps (in_store P) (VkBindingService_issue_confirmation (sql_binding_service ttl n (Some VkbottleMessenger)) i)"
proof -
  have "bs_vk_log_repo (sql_binding_service ttl n m) = SQLAlchemyVkLogRepository"
    "bs_confirmation_repo (sql_binding_service ttl n m) = SQLAlchemyVkConfirmationRepository"
    "bs_runtime (sql_binding_service ttl n m) = python_runtime" for m :: "('x world_scheme) vk_messenger option"
    by (simp_all add: sql_binding_service_def)
  then show ?thesis
    unfolding VkBindingService_issue_confirmation_def Let_def VkBindingService_create_unique_code_def
    by (auto intro!: keepsI repositories binding_service unique_code runtime split: prod.splits)
qed

lemma confirm: "keeps (in_store P) (VkConfirmationService_confirm (sql_confirmation_service k m u) c p sn dn)"
  unfolding VkConfirmationService_confirm_def VkConfirmationService_enforce_rate_limit_def VkConfirmationService_log_def
    Let_def
  by (auto simp: sql_confirmation_service_def intro!: keepsI repositories runtime split: option.splits)

lemma transition: "keeps (in_store P) (VkStateService_transition sql_state_service p s a)"
  unfolding VkStateService_transition_def Let_def
  by (auto simp: sql_state_service_def intro!: keepsI repositories split: option.splits)

section \<open>The entry points\<close>

lemma session: "keeps (in_store P) m \<Longrightarrow> keeps (in_store P) (get_session m)"
  unfolding get_session_def by (intro keepsI)

lemma parsing:
  "keeps (in_store P) (parse_chunks u cs)" "keeps (in_store P) (parse_user_ids u raw)"
  "keeps (in_store P) (validate_state st)"
proof -
  show c: "keeps (in_store P) (parse_chunks u cs)" for cs
    by (induction cs) (auto simp: Let_def intro!: keepsI split: option.splits)
  show "keeps (in_store P) (parse_user_ids u raw)" "keeps (in_store P) (validate_state st)"
    unfolding parse_user_ids_def validate_state_def by (auto intro!: keepsI c split: option.splits)
qed

lemma requests: "keeps (in_store P) (app u s rq)"
  unfolding app_def with_parsed_def get_bindings_def create_binding_def issue_confirmation_def delete_binding_def
    get_bot_info_def get_vk_binding_service_sql
  by (cases rq)
    (auto intro!: keepsI session parsing binding_service issue_confirmation split: option.splits prod.splits)

lemma bot_events: "keeps (in_store P) (on_event (sql_bot_handler u s) e)"
proof -
  have sv: "keeps (in_store P) (bindM (be_services (sql_bot_handler u s)) f)"
    if "keeps (in_store P) (f \<lparr>sv_confirmation = sql_confirmation_service (vk_confirmation_max_attempts s)
          (vk_confirmation_attempt_window_minutes s) u, sv_state = sql_state_service,
          sv_log_action = VkLogRepository_log_action, sv_commit = commit_and_close\<rparr>)"
    for f :: "_ \<Rightarrow> ('x world_scheme, 'b) prog"
    unfolding keeps_def
  proof (intro allI impI)
    fix w :: "'x world_scheme" assume "in_store P w"
    then have "in_store P (opened w)" by (simp add: in_store_def)
    then show "in_store P (snd (bindM (be_services (sql_bot_handler u s)) f w))"
      using that by (simp add: prog_simps services_run keeps_def)
  qed
  have cc: "keeps (in_store P) commit_and_close"
    unfolding commit_and_close_def close_session_def by (intro keepsI)
  show ?thesis
    unfolding on_event_def BotEventHandler_handle_message_def BotEventHandler_handle_message_deny_def
      BotEventHandler_handle_message_allow_def BotEventHandler_confirm_def BotEventHandler_reply_def
      VkStateService_block_def VkStateService_unblock_def event_user_id_def Let_def
    by (cases e)
      (auto simp: VkbottleMessenger_def intro!: keepsI sv cc logs confirm transition split: option.splits prod.splits sum.splits)
qed

end

section \<open>The ledger and the journal\<close>

interpretation ledger_kept: stored "\<lambda>d. vk_deliveries d = rows"
  by unfold_locales simp_all

interpretation journal_grows: stored "\<lambda>d. prefix rows (vk_logs d)"
  by unfold_locales (auto simp: prefix_def)

text \<open>A command writes the ledger only.\<close>

definition beside_ledger_is :: "user_vk list \<Rightarrow> vk_confirmation list \<Rightarrow> vk_log list \<Rightarrow> db \<Rightarrow> bool" where
  "beside_ledger_is us cs ls d \<longleftrightarrow> user_vks d = us \<and> vk_confirmations d = cs \<and> vk_logs d = ls"

lemma command_keeps: "keeps (in_store (beside_ledger_is us cs ls)) (NotificationCommandsSendVkHandler_handle VkbottleMessenger u decode payload headers)"
proof -
  let ?P = "beside_ledger_is us cs ls"
  note kI = keeps_bind keeps_then keeps_catch keeps_ret keeps_throw keeps_gets keeps_rows keeps_in_store keeps_reads
    keeps_finally
  have ledger: "keeps (in_store ?P) (VkNotificationDeliveryRepository_claim_attempt e i p)"
    "keeps (in_store ?P) (VkNotificationDeliveryRepository_mark_sent e i)"
    "keeps (in_store ?P) (VkNotificationDeliveryRepository_mark_failed e i c)" for e i p c
    unfolding VkNotificationDeliveryRepository_claim_attempt_def VkNotificationDeliveryRepository_mark_sent_def
      VkNotificationDeliveryRepository_mark_failed_def upsert_delivery_def update_delivery_def Let_def
    by (auto simp: beside_ledger_is_def intro!: kI keeps_exec_write)
  have each: "keeps (in_store ?P) (deliver_each sql_delivery_service c active failed is)" for c active failed "is"
  proof (induction "is" arbitrary: failed)
    case (Cons i "is")
    then show ?case
      by (auto simp: sql_delivery_service_def SQLAlchemyVkNotificationDeliveryRepository_def VkbottleMessenger_def
          intro!: kI ledger split: option.splits)
  qed (simp add: kI)
  have deliver: "keeps (in_store ?P) (VkNotificationDeliveryService_deliver sql_delivery_service c)" for c
    unfolding VkNotificationDeliveryService_deliver_def
    by (auto simp: sql_delivery_service_def [THEN arg_cong, of ds_bindings] UserVkRepository_get_by_user_ids_def
        select_user_vks_def intro!: kI each)
  show ?thesis
    unfolding NotificationCommandsSendVkHandler_handle_def model_validate_json_def message_id_of_def
      NotificationCommandSendVkData_validate_def validate_text_def close_session_def Let_def sql_delivery_service_def [symmetric]
    by (auto intro!: kI deliver split: option.splits)
qed

end
