(* ===== verification/Service_Runs.thy ===== *)
theory Service_Runs
  imports Store_Frame
begin

text \<open>
  The service as a whole: HTTP requests, events of the bot and commands of the broker, each in a
  transaction of its own on the shared database, in any order.

  \<open>service_step\<close> is one of them, under the side conditions its correctness rests on (identifiers left to
  draw, identifiers and names of the VK API that fit their columns); \<open>service_run\<close> is a sequence of
  them.  What holds of every run is proved by rule induction.
\<close>

section \<open>Steps and runs\<close>

datatype service_event =
    Request http_request | Bot_Event bot_event | Command "byte list" "pystr \<rightharpoonup> pystr"

definition perform ::
    "ucd \<Rightarrow> vk_settings \<Rightarrow> (byte list \<Rightarrow> notification_command option) \<Rightarrow> service_event \<Rightarrow>
       'x world_scheme \<Rightarrow> 'x world_scheme" where
  "perform u s decode e w =
     (case e of
        Request rq \<Rightarrow> snd (app u s rq w)
      | Bot_Event b \<Rightarrow> snd (on_event (sql_bot_handler u s) b w)
      | Command payload headers \<Rightarrow> snd (NotificationCommandsSendVkHandler_handle VkbottleMessenger u decode payload headers w))"

text \<open>What the VK API answers about an account fits the columns, and the clock is within its range.\<close>

definition account_fits :: "vk_settings \<Rightarrow> int \<Rightarrow> 'x world_scheme \<Rightarrow> bool" where
  "account_fits s p w \<longleftrightarrow>
     fits_bigint p \<and> window_in_range (vk_confirmation_attempt_window_minutes s) (later 1 w) \<and>
     (case names_of (profile_answer p (vk_users_answer w (tick w) p)) of (sn, dn) \<Rightarrow> names_fit sn dn)"

definition admissible ::
    "ucd \<Rightarrow> vk_settings \<Rightarrow> (byte list \<Rightarrow> notification_command option) \<Rightarrow> service_event \<Rightarrow>
       'x world_scheme \<Rightarrow> bool" where
  "admissible u s decode e w \<longleftrightarrow>
     room 4 w \<and>
     (case e of
        Request rq \<Rightarrow> True
      | Bot_Event (Message_New peer_id from_id text) \<Rightarrow> account_fits s from_id w
      | Bot_Event (Message_Deny x) \<Rightarrow> (case x of None \<Rightarrow> True | Some p \<Rightarrow> fits_bigint p)
      | Bot_Event (Message_Allow x) \<Rightarrow> (case x of None \<Rightarrow> True | Some p \<Rightarrow> fits_bigint p)
      | Command payload headers \<Rightarrow>
          (case accepted u decode payload headers of None \<Rightarrow> True | Some c \<Rightarrow> room (length (cm_user_ids c)) w))"

inductive service_step ::
    "ucd \<Rightarrow> vk_settings \<Rightarrow> (byte list \<Rightarrow> notification_command option) \<Rightarrow> 'x world_scheme \<Rightarrow> service_event \<Rightarrow>
       'x world_scheme \<Rightarrow> bool" for u s decode where
  step: "vk_settings_valid s \<Longrightarrow> admissible u s decode e w \<Longrightarrow> service_step u s decode w e (perform u s decode e w)"

inductive service_run ::
    "ucd \<Rightarrow> vk_settings \<Rightarrow> (byte list \<Rightarrow> notification_command option) \<Rightarrow> 'x world_scheme \<Rightarrow> service_event list \<Rightarrow>
       'x world_scheme \<Rightarrow> bool" for u s decode where
  idle: "service_run u s decode w [] w"
| run: "service_run u s decode w es w' \<Longrightarrow> service_step u s decode w' e w'' \<Longrightarrow> service_run u s decode w (es @ [e]) w''"

inductive_simps service_step_iff: "service_step u s decode w e w'"
inductive_cases service_run_idleE: "service_run u s decode w [] w'"

section \<open>A step keeps the invariant\<close>

lemma message_keeps:
  fixes w :: "'x world_scheme"
  assumes ok: "domain_ok w" "room 4 w" and fits: "account_fits s from_id w"
  shows "domain_ok (snd (BotEventHandler_handle_message (sql_bot_handler u s) peer_id from_id text w))"
proof -
  have space: "room 2 w" using ok(2) by (simp add: room_def)
  have ok1: "domain_ok (opened w)" "room 2 (opened w)" using domain_ok_opened ok by (auto simp: room_def)
  let ?code = "parse_link_command u text (vk_bot_link_command s)"
  consider (chat) "is_chat_peer peer_id" | (other) "\<not> is_chat_peer peer_id" "?code = None \<or> ?code = Some []"
    | (link) c where "\<not> is_chat_peer peer_id" "?code = Some c" "c \<noteq> []" by (cases ?code) auto
  then show ?thesis
  proof cases
    case chat
    then show ?thesis
      using domain_ok_kept [OF domain_ok_append_log [OF ok1(1) message_log_fits(1) ok1(2)]]
      by (simp add: handle_chat_run [OF ok(1) space chat])
  next
    case other
    let ?st = "if ?code = None then lit ''unknown_command'' else lit ''missing_code''"
    obtain w' where run: "BotEventHandler_handle_message (sql_bot_handler u s) peer_id from_id text w = (Inr ?st, w')"
      and told: "told peer_id (instruction (vk_bot_link_command s))
        (kept (append_log ACTION_MESSAGE ?st [(vk_peer_id_key, str_int peer_id)] (opened w))) w'"
      using handle_other_run [OF ok(1) space other(1) refl other(2)] by blast
    have "domain_ok (kept (append_log ACTION_MESSAGE ?st [(vk_peer_id_key, str_int peer_id)] (opened w)))"
      by (rule domain_ok_kept, rule domain_ok_append_log [OF ok1(1) _ ok1(2)]) simp
    from domain_ok_messages [OF this toldD(3) [OF told]] show ?thesis by (simp add: run)
  next
    case link
    obtain sn dn where names: "names_of (profile_answer from_id (vk_users_answer w (tick w) from_id)) = (sn, dn)"
      by (cases "names_of (profile_answer from_id (vk_users_answer w (tick w) from_id))")
    then have fit: "fits_bigint from_id" "names_fit sn dn"
      "window_in_range (vk_confirmation_attempt_window_minutes s) (later 1 w)"
      using fits by (simp_all add: account_fits_def)
    let ?w1 = "later 1 (opened w)"
    let ?v = "bot_verdict u s from_id c ?w1"
    let ?w2 = "verdict_world from_id sn dn (normalize_code u c) ?v ?w1"
    obtain w' where run: "BotEventHandler_handle_message (sql_bot_handler u s) peer_id from_id text w =
        (Inr (fst (verdict_outcome ?v)), w')" and told: "told peer_id (snd (verdict_outcome ?v)) (kept ?w2) w'"
      using handle_command_run [OF ok(1) space fit(1) link fit(3) names fit(2)] by blast
    have "room 2 ?w1" using ok(2) by (simp add: room_def)
    from domain_ok_verdict_world [OF domain_ok_later [OF ok1(1)] this fit(1,2) bot_verdict_def]
    have "domain_ok ?w2" .
    then show ?thesis using domain_ok_messages [OF domain_ok_kept toldD(3) [OF told]] run by simp
  qed
qed

lemma bot_event_keeps:
  assumes "domain_ok w" "admissible u s decode (Bot_Event b) w"
  shows "domain_ok (snd (on_event (sql_bot_handler u s) b w))"
proof (cases b)
  case (Message_New peer_id from_id body)
  with message_keeps [OF assms(1), of s from_id u peer_id "or_empty body"] assms(2) show ?thesis
    by (cases "BotEventHandler_handle_message (sql_bot_handler u s) peer_id from_id (or_empty body) w")
      (auto simp: on_event_def prog_simps admissible_def split: sum.splits)
next
  case (Message_Deny x)
  then show ?thesis
    using assms handle_deny_run [OF assms(1)]
    by (cases x) (auto simp: on_event_def prog_simps event_user_id_def admissible_def room_def)
next
  case (Message_Allow x)
  then show ?thesis
    using assms handle_allow_run [OF assms(1)]
    by (cases x) (auto simp: on_event_def prog_simps event_user_id_def admissible_def room_def)
qed

lemma command_keeps_domain:
  assumes "domain_ok w" "admissible u s decode (Command payload headers) w"
  shows "domain_ok (snd (NotificationCommandsSendVkHandler_handle VkbottleMessenger u decode payload headers w))"
proof (cases "accepted u decode payload headers")
  case None
  from refused_run [OF None, of w] assms(1) show ?thesis by auto
next
  case (Some c)
  with handle_wp [OF Some assms(1)] assms(2) show ?thesis
    by (auto simp: wp_def admissible_def handled_def split: prod.splits sum.splits if_splits)
qed

lemma step_keeps:
  assumes "service_step u s decode w e w'" "domain_ok w"
  shows "domain_ok w'"
proof -
  have s: "vk_settings_valid s" and a: "admissible u s decode e w" and w': "w' = perform u s decode e w"
    using assms(1) by (auto simp: service_step_iff)
  show ?thesis
  proof (cases e)
    case (Request rq)
    have "room 4 w" using a by (simp add: admissible_def)
    from app_wp [OF assms(2) this s, of u rq] show ?thesis
      by (auto simp: w' Request perform_def wp_def http_ok_def split: prod.splits sum.splits)
  next
    case (Bot_Event b)
    with bot_event_keeps [OF assms(2)] a show ?thesis by (simp add: w' perform_def)
  next
    case (Command payload headers)
    with command_keeps_domain [OF assms(2)] a show ?thesis by (simp add: w' perform_def)
  qed
qed

section \<open>A step and the committed tables\<close>

lemma opened_twice [simp]: "opened (opened w) = opened w"
  by (simp add: opened_def)

lemma get_session_opened: "get_session m w = get_session m (opened w)"
  by (simp add: get_session_def prog_simps opened_def)

lemma request_opened: "snd (app u s rq w) = snd (app u s rq (opened w)) \<or> snd (app u s rq w) = w"
proof (cases rq)
  case (Get_Bindings x st)
  then show ?thesis
    using get_session_opened [of "get_bindings u s (the x) st" w] by (cases x) (simp_all add: app_def with_parsed_def prog_simps)
next
  case Get_Bot_Info
  then show ?thesis by (simp add: app_def get_bot_info_def prog_simps)
next
  case (Create_Binding x)
  then show ?thesis
    using get_session_opened [of "create_binding s (the x)" w] by (cases x) (simp_all add: app_def with_parsed_def prog_simps)
next
  case (Issue_Confirmation x)
  then show ?thesis
    using get_session_opened [of "issue_confirmation s (the x)" w] by (cases x) (simp_all add: app_def with_parsed_def prog_simps)
next
  case (Delete_Binding x)
  then show ?thesis
    using get_session_opened [of "delete_binding s (the x)" w] by (cases x) (simp_all add: app_def with_parsed_def prog_simps)
next
  case Get_Health
  then show ?thesis by (simp add: app_def prog_simps)
qed

lemma services_opened: "bindM (be_services (sql_bot_handler u s)) f w = bindM (be_services (sql_bot_handler u s)) f (opened w)"
  by (simp add: prog_simps services_run)

lemma bot_event_opened:
  "snd (on_event (sql_bot_handler u s) b w) = snd (on_event (sql_bot_handler u s) b (opened w)) \<or>
   snd (on_event (sql_bot_handler u s) b w) = w"
proof (cases b)
  case (Message_New p f t)
  have "BotEventHandler_handle_message (sql_bot_handler u s) p f (or_empty t) w =
      BotEventHandler_handle_message (sql_bot_handler u s) p f (or_empty t) (opened w)"
    unfolding BotEventHandler_handle_message_def by (rule services_opened)
  then show ?thesis by (simp add: Message_New on_event_def prog_simps)
next
  case (Message_Deny x)
  have "BotEventHandler_handle_message_deny (sql_bot_handler u s) p w =
      BotEventHandler_handle_message_deny (sql_bot_handler u s) p (opened w)" for p
    unfolding BotEventHandler_handle_message_deny_def by (rule services_opened)
  then show ?thesis by (cases x) (simp_all add: Message_Deny on_event_def prog_simps event_user_id_def)
next
  case (Message_Allow x)
  have "BotEventHandler_handle_message_allow (sql_bot_handler u s) p w =
      BotEventHandler_handle_message_allow (sql_bot_handler u s) p (opened w)" for p
    unfolding BotEventHandler_handle_message_allow_def by (rule services_opened)
  then show ?thesis by (cases x) (simp_all add: Message_Allow on_event_def prog_simps event_user_id_def)
qed

lemma command_opened:
  "snd (NotificationCommandsSendVkHandler_handle VkbottleMessenger u decode payload headers w) =
     snd (NotificationCommandsSendVkHandler_handle VkbottleMessenger u decode payload headers (opened w)) \<or>
   snd (NotificationCommandsSendVkHandler_handle VkbottleMessenger u decode payload headers w) = w"
proof (cases "accepted u decode payload headers")
  case None
  from refused_run [OF None, of w] show ?thesis by auto
next
  case (Some c)
  then show ?thesis by (simp add: accepted_run)
qed

lemma keeps_committed:
  assumes "keeps (in_store P) m" "snd (m w) = snd (m (opened w)) \<or> snd (m w) = w" "P (committed w)"
  shows "P (committed (snd (m w)))"
proof -
  have "in_store P (opened w)" using assms(3) by (simp add: in_store_def)
  then have "in_store P (snd (m (opened w)))" using assms(1) by (simp add: keeps_def)
  with assms(2,3) show ?thesis by (auto simp: in_store_def)
qed

text \<open>Requests and events of the bot leave the ledger alone.\<close>

lemma others_keep_ledger:
  assumes "\<And>payload headers. e \<noteq> Command payload headers"
  shows "vk_deliveries (committed (perform u s decode e w)) = vk_deliveries (committed w)"
proof (cases e)
  case (Request rq)
  then show ?thesis
    using keeps_committed [OF ledger_kept.requests request_opened refl] by (simp add: perform_def)
next
  case (Bot_Event b)
  then show ?thesis
    using keeps_committed [OF ledger_kept.bot_events bot_event_opened refl] by (simp add: perform_def)
next
  case (Command payload headers)
  with assms show ?thesis by blast
qed

lemma command_keeps_rest:
  "beside_ledger_is (user_vks (committed w)) (vk_confirmations (committed w)) (vk_logs (committed w))
     (committed (perform u s decode (Command payload headers) w))"
  using keeps_committed [OF command_keeps command_opened, of _ _ _ w] by (simp add: perform_def beside_ledger_is_def)

lemma step_journal: "prefix (vk_logs (committed w)) (vk_logs (committed (perform u s decode e w)))"
proof (cases e)
  case (Request rq)
  then show ?thesis
    using keeps_committed [OF journal_grows.requests request_opened, of "vk_logs (committed w)" w u s rq] by (simp add: perform_def)
next
  case (Bot_Event b)
  then show ?thesis
    using keeps_committed [OF journal_grows.bot_events bot_event_opened, of "vk_logs (committed w)" w u s b] by (simp add: perform_def)
next
  case (Command payload headers)
  then show ?thesis using command_keeps_rest [of w u s decode payload headers] by (simp add: beside_ledger_is_def)
qed

text \<open>An entry that is \<open>SENT\<close> is never written again.\<close>

lemma command_sent:
  assumes "domain_ok w" "admissible u s decode (Command payload headers) w"
    and "is_sent (ledger_of (vk_deliveries (committed w)) k)"
  shows "ledger_of (vk_deliveries (committed (perform u s decode (Command payload headers) w))) k =
    ledger_of (vk_deliveries (committed w)) k"
proof (cases "accepted u decode payload headers")
  case None
  from refused_run [OF None, of w] show ?thesis by (auto simp: perform_def)
next
  case (Some c)
  let ?w' = "perform u s decode (Command payload headers) w"
  have sent: "ledger_of (vk_deliveries (committed ?w')) k = ledger_of (vk_deliveries (committed w)) k"
    if "handled c bad w ?w'" for bad
  proof -
    have "k \<notin> Pair (cm_event_uuid c) ` set (due_recipients (opened w) c)"
      using assms(3) by (auto simp: due_recipients_def)
    moreover have "ledger_in ?w' = ledger_of (vk_deliveries (committed ?w'))" using that by (simp add: handled_def)
    ultimately show ?thesis using that by (cases k) (auto simp: handled_def processed_def)
  qed
  from handle_wp [OF Some assms(1)] assms(2) Some
  have "(\<exists>bad. handled c bad w ?w') \<or> committed ?w' = committed w"
    by (auto simp: wp_def admissible_def perform_def split: prod.splits sum.splits if_splits)
  then show ?thesis using sent by auto
qed

lemma step_sent:
  assumes "service_step u s decode w e w'" "domain_ok w" "is_sent (ledger_of (vk_deliveries (committed w)) k)"
  shows "ledger_of (vk_deliveries (committed w')) k = ledger_of (vk_deliveries (committed w)) k"
proof -
  have a: "admissible u s decode e w" and w': "w' = perform u s decode e w"
    using assms(1) by (auto simp: service_step_iff)
  show ?thesis
  proof (cases "\<exists>payload headers. e = Command payload headers")
    case True
    with command_sent [OF assms(2) _ assms(3)] a show ?thesis by (auto simp: w')
  next
    case False
    then have "vk_deliveries (committed (perform u s decode e w)) = vk_deliveries (committed w)"
      by (intro others_keep_ledger) blast
    then show ?thesis by (simp add: w')
  qed
qed

lemma run_keeps: "service_run u s decode w es w' \<Longrightarrow> domain_ok w \<Longrightarrow> domain_ok w'"
  by (induction rule: service_run.induct) (auto intro: step_keeps)

lemma run_sent:
  "service_run u s decode w es w' \<Longrightarrow> domain_ok w \<Longrightarrow> is_sent (ledger_of (vk_deliveries (committed w)) k) \<Longrightarrow>
     ledger_of (vk_deliveries (committed w')) k = ledger_of (vk_deliveries (committed w)) k"
proof (induction rule: service_run.induct)
  case (run w es w' e w'')
  then show ?case using step_sent [OF run.hyps(2) run_keeps [OF run.hyps(1)], of k] by simp
qed simp

section \<open>Properties\<close>

text \<open>
  C4. The stored data is always consistent.  From a consistent world, every sequence of requests, bot
  events and commands, in any order, leaves a consistent one: the constraints of the tables hold, a
  live binding is \<open>PENDING\<close> exactly when it has no account, and every usable code is the only one of a
  live \<open>PENDING\<close> binding.
\<close>

theorem every_run_keeps_invariant:
  assumes "service_run u s decode w es w'" "domain_ok w"
  shows "domain_ok w'"
  by (rule run_keeps [OF assms])

text \<open>C17. The journal is append-only: no request, event or command changes or removes a committed entry.\<close>

theorem journal_only_grows:
  "service_run u s decode w es w' \<Longrightarrow> prefix (vk_logs (committed w)) (vk_logs (committed w'))"
proof (induction rule: service_run.induct)
  case (run w es w' e w'')
  then show ?case
    using step_journal [of w' u s decode e] by (auto simp: service_step_iff intro: prefix_order.trans)
qed simp

text \<open>
  C2. A recipient is written to at most once for an event.  Once its delivery is committed as \<open>SENT\<close>, no
  later request, event or command changes that entry, and no command for the event, whatever it
  says, has the recipient among those it is still due to write to.
\<close>

theorem sent_is_final:
  assumes "service_run u s decode w es w'" "domain_ok w"
    and "is_sent (ledger_of (vk_deliveries (committed w)) (e, r))"
  shows "ledger_of (vk_deliveries (committed w')) (e, r) = ledger_of (vk_deliveries (committed w)) (e, r) \<and>
    (\<forall>c. cm_event_uuid c = e \<longrightarrow> r \<notin> set (due_recipients (opened w') c))"
  using run_sent [OF assms] assms(3) by (simp add: due_recipients_def)

end
