(* ===== verification/Service_Flows.thy ===== *)
theory Service_Flows
  imports Service_Runs
begin

text \<open>
  The flows that span the API, the bot and the consumer of commands: a code issued over HTTP links the
  account that sends it to the bot, and from then on commands reach it; an account that denied
  messages, or whose owner unlinked it, is not written to.
\<close>

section \<open>Who is written to\<close>

lemma reachable_row:
  assumes "reachable_at d u = Some p"
  obtains r where "r \<in> set (user_vks d)" "owned_by u r" "linked_to p r" "uv_state r = STATE_ACTIVE"
proof -
  obtain r where r: "find (owned_by u) (user_vks d) = Some r" "uv_state r = STATE_ACTIVE" "uv_peer_id r = Some p"
    using assms by (auto simp: reachable_at_def split: option.splits if_splits)
  then have "r \<in> set (user_vks d)" "owned_by u r" by (auto simp: find_Some_iff)
  with r that show ?thesis by (auto simp: owned_by_def linked_to_def)
qed

lemma notices_unlinked:
  "(\<And>u. reachable_at (committed w) u \<noteq> Some p) \<Longrightarrow> p \<notin> fst ` set (notices (opened w) c)"
  by (force simp: notices_def due_recipients_def)

lemma linked_unique:
  assumes "db_ok d" "find (linked_to p) (user_vks d) = Some b" "r \<in> set (user_vks d)" "linked_to p r"
  shows "r = b"
proof -
  have b: "b \<in> set (user_vks d)" "linked_to p b" using assms(2) by (auto simp: find_Some_iff)
  have "filter (linked_to p) (user_vks d) = [b]"
    by (rule filter_unique [OF user_vks_unique(3) [OF assms(1)], where k = "Some p" and r = b])
      (use b in \<open>auto simp: linked_to_def\<close>)
  moreover have "r \<in> set (filter (linked_to p) (user_vks d))" using assms(3,4) by simp
  ultimately show ?thesis by simp
qed

text \<open>What a handled command has sent, when it answered or failed in the retryable way.\<close>

lemma command_notices:
  assumes "accepted u decode payload headers = Some c" "domain_ok w" "room (length (cm_user_ids c)) w"
  shows "wp (NotificationCommandsSendVkHandler_handle VkbottleMessenger u decode payload headers)
    (\<lambda>_ w'. messages_sent w' = messages_sent w @ notices (opened w) c)
    (\<lambda>x w'. isinstance x VkDeliveryRetryableError \<longrightarrow> messages_sent w' = messages_sent w @ notices (opened w) c) w"
  by (rule wp_mono [OF handle_wp [OF assms]]) (auto simp: handled_def split: if_splits)

section \<open>An issued code\<close>

lemma find_update_where:
  "(\<And>r. P (f r) = P r) \<Longrightarrow> find P (update_where q f rows) = map_option (\<lambda>r. if q r then f r else r) (find P rows)"
  by (induction rows) (auto simp: update_where_def)

text \<open>What the answer of the API says of the committed data: a usable code of the owner's \<open>PENDING\<close> binding.\<close>

definition usable_code :: "db \<Rightarrow> uuid \<Rightarrow> pystr \<Rightarrow> datetime \<Rightarrow> user_vk \<Rightarrow> vk_confirmation \<Rightarrow> bool" where
  "usable_code d i code expires b c \<longleftrightarrow>
     find (owned_by i) (user_vks d) = Some b \<and> uv_state b = STATE_PENDING \<and> c \<in> set (vk_confirmations d) \<and>
     unused_of (uv_id b) c \<and> cf_code c = code \<and> cf_expires_at c = expires"

lemma issue_request_wp:
  assumes ok: "domain_ok w" "room 4 w" and s: "vk_settings_valid s"
  shows "wp (app u s (Issue_Confirmation (Some i)))
    (\<lambda>r w1. rs_status r = 201 \<longrightarrow>
       domain_ok w1 \<and>
       (\<exists>x b c. rs_body r = Issued x \<and> well_formed_code (vk_confirmation_code_length s) (ir_code x) \<and>
          usable_code (committed w1) i (ir_code x) (ir_expires_at x) b c))
    (\<lambda>e w1. True) w"
proof -
  let ?w = "w\<lparr>db := committed w, locks := []\<rparr>" and ?n = "vk_confirmation_code_length s"
  have ok0: "domain_ok ?w" "room 4 ?w" using domain_ok_restart(1) [OF ok(1)] ok(2) by (simp_all add: room_def)
  show ?thesis
    unfolding app_def wp_catch http_request.case with_parsed_def option.case
  proof (rule session_wp [OF ok(1) _ refl, where
        Q = "\<lambda>r w'. rs_status r = 201 \<and> (\<exists>x b c. rs_body r = Issued x \<and> well_formed_code ?n (ir_code x) \<and>
          usable_code (db w') i (ir_code x) (ir_expires_at x) b c)" and
        E = "\<lambda>e w'. exn_class e \<in> {ConflictError, OverflowError}"], goal_cases)
    case 1
    show ?case
      unfolding issue_confirmation_def wp_bind get_vk_binding_service_sql
    proof (rule wp_mono [OF issue_wp [OF ok0]], goal_cases)
      case (1 r w')
      then obtain b c l where "find (owned_by i) (user_vks (db w')) = Some b" "uv_state b = STATE_PENDING"
        "filter (unused_of (uv_id b)) (vk_confirmations (db w')) = [c]" "cf_code c = ic_code r" "cf_expires_at c = ic_expires_at r"
        by (auto simp: issued_def)
      moreover from this(3) have "c \<in> set (vk_confirmations (db w'))" "unused_of (uv_id b) c"
        by (metis filter_eq_ConsD list.set_intros(1) set_append Un_iff)+
      ultimately have "usable_code (db w') i (ic_code r) (ic_expires_at r) b c" by (simp add: usable_code_def)
      with 1 show ?case by (auto simp: issued_def)
    next
      case (2 e w')
      then show ?case using s by (auto simp: vk_settings_valid_def isinstance_def)
    qed
  next
    case (2 r w')
    then show ?case by auto
  next
    case (3 e w')
    then show ?case by (cases e) (auto simp: app_error_handler_def status_code_def)
  qed
qed

lemma usable_code_verdict:
  assumes ok: "domain_ok w" and c: "usable_code (committed w) i code expires b c"
    and "failed_attempts (vk_logs (committed w)) p since < k" "now < expires"
    and "\<And>x. x \<in> set (user_vks (committed w)) \<Longrightarrow> \<not> linked_to p x"
  shows "confirm_verdict (committed w) k since now code p = Linkable b c"
proof -
  have d: "db_ok (committed w)" by (rule domain_okD(2) [OF ok])
  have b: "b \<in> set (user_vks (committed w))" "live b" using c by (auto simp: usable_code_def find_Some_iff owned_by_def)
  have "distinct (map cf_code (filter (\<lambda>_. True) (vk_confirmations (committed w))))"
    using d by (simp add: db_ok_def constraints_ok_def vk_confirmations_ok_def)
  then have "filter (\<lambda>x. cf_code x = code) (vk_confirmations (committed w)) = [c]"
    by (rule filter_unique [where k = code]) (use c in \<open>auto simp: usable_code_def\<close>)
  moreover have "filter (\<lambda>r. uv_id r = cf_user_vk_id c) (user_vks (committed w)) = [b]"
    by (rule filter_unique [OF user_vks_unique(1) [OF d], where k = "uv_id b"])
      (use b c in \<open>auto simp: usable_code_def unused_of_def\<close>)
  moreover have "cf_used_at c = None" "cf_expires_at c = expires" using c by (auto simp: usable_code_def unused_of_def)
  ultimately show ?thesis
    using assms(3-5) b by (auto simp: confirm_verdict_def find_eq_filter)
qed

section \<open>Properties\<close>

text \<open>
  C1. A code works from end to end.  When the API has issued a code to an owner, the message that brings
  it to the bot in time, in any mixture of cases, from an account that is linked to nobody and below
  the limit of failures, is answered as a success and links the account: the owner is reachable at
  it, and the next command for the owner writes exactly one message, to that account.
\<close>

theorem issued_code_links_account:
  fixes w :: "'x world_scheme"
  assumes ok: "domain_ok w" "room 4 w" and s: "vk_settings_valid s"
    and issue: "app u s (Issue_Confirmation (Some i)) w = (Inr \<lparr>rs_status = 201, rs_body = Issued x\<rparr>, w1)"
    and msg: "parse_link_command u body (vk_bot_link_command s) = Some typed" "same_letters typed (ir_code x)"
      "\<not> is_chat_peer peer_id" "account_fits s p w1" "room 2 w1"
    and free: "\<And>b. b \<in> set (user_vks (committed w1)) \<Longrightarrow> \<not> linked_to p b"
    and few: "failed_attempts (vk_logs (committed w1)) p
        (window_start (vk_confirmation_attempt_window_minutes s) (later 1 (opened w1))) < vk_confirmation_max_attempts s"
    and time: "clock w1 (tick w1 + 2) < ir_expires_at x"
  shows "case BotEventHandler_handle_message (sql_bot_handler u s) peer_id p body w1 of (r, w2) \<Rightarrow>
    r = Inr (lit ''confirmed'') \<and> messages_sent w2 = messages_sent w1 @ [(peer_id, LINKED)] \<and>
    reachable_at (committed w2) i = Some p \<and>
    (\<forall>c payload headers.
       accepted u decode payload headers = Some c \<and> cm_user_ids c = [i] \<and> room 1 w2 \<and>
       \<not> is_sent (ledger_of (vk_deliveries (committed w1)) (cm_event_uuid c, i)) \<longrightarrow>
       wp (NotificationCommandsSendVkHandler_handle VkbottleMessenger u decode payload headers)
         (\<lambda>_ w3. messages_sent w3 = messages_sent w2 @ [(p, cm_text c)])
         (\<lambda>e w3. isinstance e VkDeliveryRetryableError \<longrightarrow> messages_sent w3 = messages_sent w2 @ [(p, cm_text c)]) w2)"
proof -
  from wp_InrD [OF issue_request_wp [OF ok s] issue]
  obtain b c where ok1: "domain_ok w1" and wf: "well_formed_code (vk_confirmation_code_length s) (ir_code x)"
    and c: "usable_code (committed w1) i (ir_code x) (ir_expires_at x) b c" by auto
  have n: "0 < vk_confirmation_code_length s" using s by (simp add: vk_settings_valid_def)
  have norm: "normalize_code u typed = ir_code x"
    using normalize_typed [OF wf n msg(2), of "[]" "[]" u] by simp
  have "typed \<noteq> []"
  proof
    assume "typed = []"
    then have "ir_code x = []" using msg(2) by (simp add: same_letters_def)
    then show False using wf n by (simp add: well_formed_code_def)
  qed
  obtain sn dn where names: "names_of (profile_answer p (vk_users_answer w1 (tick w1) p)) = (sn, dn)"
    by (cases "names_of (profile_answer p (vk_users_answer w1 (tick w1) p))")
  then have fit: "fits_bigint p" "names_fit sn dn"
    "window_in_range (vk_confirmation_attempt_window_minutes s) (later 1 w1)"
    using msg(4) by (simp_all add: account_fits_def)
  let ?w1 = "later 1 (opened w1)"
  let ?v = "bot_verdict u s p typed ?w1"
  have v: "?v = Linkable b c"
    using usable_code_verdict [OF ok1 c few time free] by (simp add: bot_verdict_def norm)
  let ?w2 = "verdict_world p sn dn (normalize_code u typed) (Linkable b c) ?w1"
  obtain w2 where run: "BotEventHandler_handle_message (sql_bot_handler u s) peer_id p body w1 = (Inr (lit ''confirmed''), w2)"
    and told: "told peer_id LINKED (kept ?w2) w2"
    using handle_command_run [OF ok1 msg(5) fit(1) msg(3,1) \<open>typed \<noteq> []\<close> fit(3) names fit(2)] by (auto simp: v [unfolded One_nat_def])
  have "room 2 ?w1" using msg(5) by (simp add: room_def)
  from domain_ok_verdict_world [OF domain_ok_later [OF domain_ok_opened [OF ok1]] this fit(1,2) v [symmetric, unfolded bot_verdict_def]]
  have "domain_ok ?w2" .
  then have ok2: "domain_ok w2" using domain_ok_messages [OF domain_ok_kept toldD(3) [OF told]] by blast
  have "cf_user_vk_id c = uv_id b" using c by (simp add: usable_code_def unused_of_def)
  then have rows: "user_vks (committed w2) =
      update_where (live_row (uv_id b)) (activated p sn dn (clock w1 (Suc (Suc (Suc (tick w1)))))) (user_vks (committed w1))"
    using toldD(1,2) [OF told] by (simp add: verdict_world_def journalled_def append_log_def add.commute)
  have "find (owned_by i) (user_vks (committed w2)) = Some (activated p sn dn (clock w1 (Suc (Suc (Suc (tick w1))))) b)"
    unfolding rows using c
    by (subst find_update_where) (auto simp: usable_code_def owned_by_def activated_def find_Some_iff)
  then have reach: "reachable_at (committed w2) i = Some p" by (simp add: reachable_at_def activated_def)
  have led: "vk_deliveries (committed w2) = vk_deliveries (committed w1)"
    using toldD(1,2) [OF told] by (simp add: verdict_world_frame)
  have sent: "messages_sent w2 = messages_sent w1 @ [(peer_id, LINKED)]"
    using toldD(4) [OF told] by (simp add: messages_sent_def verdict_world_frame)
  have next_one: "wp (NotificationCommandsSendVkHandler_handle VkbottleMessenger u decode payload headers)
         (\<lambda>_ w3. messages_sent w3 = messages_sent w2 @ [(p, cm_text c)])
         (\<lambda>e w3. isinstance e VkDeliveryRetryableError \<longrightarrow> messages_sent w3 = messages_sent w2 @ [(p, cm_text c)]) w2"
    if "accepted u decode payload headers = Some c" "cm_user_ids c = [i]" "room 1 w2"
      "\<not> is_sent (ledger_of (vk_deliveries (committed w1)) (cm_event_uuid c, i))" for c payload headers
  proof -
    have "notices (opened w2) c = [(p, cm_text c)]"
      using that by (simp add: notices_def due_recipients_def reach led)
    then show ?thesis using command_notices [OF that(1) ok2] that(2,3) by simp
  qed
  show ?thesis using run sent reach next_one by simp
qed

text \<open>
  C10. An account that denied messages is left alone.  After the event of the denial no owner is
  reachable at the account, and a command, whoever it addresses, writes to the accounts its notices
  name, the denied one not among them; allowing messages again makes the owner reachable there.
\<close>

theorem denied_account_is_left_alone:
  fixes w :: "'x world_scheme"
  assumes ok: "domain_ok w" "room 4 w" and p: "fits_bigint p"
    and b: "find (linked_to p) (user_vks (committed w)) = Some b"
    and deny: "BotEventHandler_handle_message_deny (sql_bot_handler u s) p w = (r, w1)"
    and c: "accepted u decode payload headers = Some c" "room (length (cm_user_ids c)) w1"
  shows "r = Inr (lit ''success'') \<and> (\<forall>i. reachable_at (committed w1) i \<noteq> Some p) \<and>
    wp (NotificationCommandsSendVkHandler_handle VkbottleMessenger u decode payload headers)
      (\<lambda>_ w2. messages_sent w2 = messages_sent w1 @ notices (opened w1) c \<and> p \<notin> fst ` set (notices (opened w1) c))
      (\<lambda>x w2. isinstance x VkDeliveryRetryableError \<longrightarrow>
         messages_sent w2 = messages_sent w1 @ notices (opened w1) c \<and> p \<notin> fst ` set (notices (opened w1) c)) w1 \<and>
    reachable_at (committed (snd (BotEventHandler_handle_message_allow (sql_bot_handler u s) p w1))) (uv_user_id b) = Some p"
proof -
  have space: "room 2 w" using ok(2) by (simp add: room_def)
  have ok0: "domain_ok (opened w)" by (rule domain_ok_opened [OF ok(1)])
  let ?t = "clock w (tick w)"
  have w1: "w1 = kept (moved p STATE_BLOCKED ACTION_DENY (opened w))" and r: "r = Inr (lit ''success'')"
    and ok1: "domain_ok w1"
    using handle_deny_run(1) [OF ok(1) space p, of u s] handle_deny_run(2) [OF ok(1) space p] deny b by simp_all
  have b0: "find (linked_to p) (user_vks (db (opened w))) = Some b" using b by simp
  note rows = moved_rows [OF ok0 b0, of STATE_BLOCKED ACTION_DENY]
  have b1: "find (linked_to p) (user_vks (committed w1)) = Some (with_state STATE_BLOCKED ?t b)"
    using rows(2) by (simp add: w1)
  have none: "reachable_at (committed w1) i \<noteq> Some p" for i
  proof
    assume "reachable_at (committed w1) i = Some p"
    then obtain x where x: "x \<in> set (user_vks (committed w1))" "linked_to p x" "uv_state x = STATE_ACTIVE"
      by (rule reachable_row)
    from linked_unique [OF domain_okD(2) [OF ok1] b1 x(1,2)] x(3) show False by (simp add: with_state_def)
  qed
  have space1: "room 2 w1" using ok(2) by (simp add: room_def w1)
  have ok1': "domain_ok (opened w1)" by (rule domain_ok_opened [OF ok1])
  have b1': "find (linked_to p) (user_vks (db (opened w1))) = Some (with_state STATE_BLOCKED ?t b)" using b1 by simp
  note rows2 = moved_rows [OF ok1' b1', of STATE_ACTIVE ACTION_ALLOW]
  let ?w2 = "kept (moved p STATE_ACTIVE ACTION_ALLOW (opened w1))"
  have w2: "snd (BotEventHandler_handle_message_allow (sql_bot_handler u s) p w1) = ?w2" and ok2: "domain_ok ?w2"
    using handle_allow_run(1) [OF ok1 space1 p, of u s] handle_allow_run(2) [OF ok1 space1 p] by simp_all
  let ?x = "with_state STATE_ACTIVE (clock w1 (tick w1)) (with_state STATE_BLOCKED ?t b)"
  have "find (linked_to p) (user_vks (committed ?w2)) = Some ?x" using rows2(2) by simp
  then have x: "?x \<in> set (user_vks (committed ?w2))" "linked_to p ?x" by (auto simp: find_Some_iff)
  have one_of: "find (owned_by (uv_user_id b)) (user_vks (committed ?w2)) = Some ?x"
  proof -
    have "filter (owned_by (uv_user_id b)) (user_vks (committed ?w2)) = [?x]"
      by (rule filter_unique [OF user_vks_unique(2) [OF domain_okD(2) [OF ok2]], where k = "uv_user_id b" and r = ?x])
        (use x in \<open>auto simp: owned_by_def linked_to_def with_state_def\<close>)
    then show ?thesis by (simp add: find_eq_filter)
  qed
  have "reachable_at (committed ?w2) (uv_user_id b) = Some p"
    unfolding reachable_at_def one_of using x(2) by (simp add: with_state_def linked_to_def)
  moreover have "wp (NotificationCommandsSendVkHandler_handle VkbottleMessenger u decode payload headers)
      (\<lambda>_ w2. messages_sent w2 = messages_sent w1 @ notices (opened w1) c \<and> p \<notin> fst ` set (notices (opened w1) c))
      (\<lambda>x w2. isinstance x VkDeliveryRetryableError \<longrightarrow>
         messages_sent w2 = messages_sent w1 @ notices (opened w1) c \<and> p \<notin> fst ` set (notices (opened w1) c)) w1"
    by (rule wp_mono [OF command_notices [OF c(1) ok1 c(2)]]) (use notices_unlinked [OF none] in blast)+
  ultimately show ?thesis using r none by (simp add: w2)
qed

text \<open>
  C11. An unlinked owner is left alone: after the request that deletes the binding no account reaches the
  owner, whoever may be linked to what, and a command for the owner alone is handled at once and
  sends nothing.
\<close>

theorem unlinked_owner_is_left_alone:
  fixes w :: "'x world_scheme"
  assumes ok: "domain_ok w" "room 4 w"
    and del: "app u s (Delete_Binding (Some i)) w = (Inr r, w1)"
    and c: "accepted u decode payload headers = Some c" "cm_user_ids c = [i]" "room 1 w1"
  shows "reachable_at (committed w1) i = None \<and>
    wp (NotificationCommandsSendVkHandler_handle VkbottleMessenger u decode payload headers)
      (\<lambda>_ w2. messages_sent w2 = messages_sent w1 \<and> user_vks (committed w2) = user_vks (committed w1))
      (\<lambda>x w2. False) w1"
proof -
  have ok0: "domain_ok (opened w)" "room 2 (opened w)" using domain_ok_opened ok by (auto simp: room_def)
  have d: "wp (app u s (Delete_Binding (Some i)))
      (\<lambda>r w1. domain_ok w1 \<and> find (owned_by i) (user_vks (committed w1)) = None) (\<lambda>e w1. False) w"
    unfolding app_def wp_catch http_request.case with_parsed_def option.case wp_get_session delete_binding_def wp_then
      get_vk_binding_service_sql opened_def [symmetric]
    by (rule wp_mono [OF unlink_wp [OF ok0]])
      (use domain_ok_restart(2) in \<open>auto simp: unlinks_def\<close>)
  have ok1: "domain_ok w1" and none: "find (owned_by i) (user_vks (committed w1)) = None"
    using wp_InrD [OF d del] by blast+
  have gone: "reachable_at (committed w1) i = None" using none by (simp add: reachable_at_def)
  then have due: "due_recipients (opened w1) c = []" by (simp add: due_recipients_def c(2))
  have "room (length (cm_user_ids c)) w1" using c by simp
  then have "wp (NotificationCommandsSendVkHandler_handle VkbottleMessenger u decode payload headers)
      (\<lambda>_ w2. messages_sent w2 = messages_sent w1 \<and> user_vks (committed w2) = user_vks (committed w1))
      (\<lambda>x w2. False) w1"
    by (rule wp_mono [OF handle_wp [OF c(1) ok1]])
      (auto simp: handled_def notices_def due processed_def split: if_splits)
  with gone show ?thesis by blast
qed

end
