(* ===== verification/Sample_Flows.thy ===== *)
theory Sample_Flows
  imports Sample_Requests Sample_Commands Service_Flows
begin

text \<open>Witnesses of the properties of whole runs and of the flows that span the entry points.\<close>

section \<open>Runs\<close>

definition sample_event :: service_event where
  "sample_event = Bot_Event (Message_Deny (Some 501))"

lemma sample_step:
  "room 4 w \<Longrightarrow> service_run sample_ucd default_vk_settings sample_decode w [sample_event]
     (perform sample_ucd default_vk_settings sample_decode sample_event w)"
  using service_run.run [OF service_run.idle service_step.step [OF sample_settings_valid]]
  by (force simp: admissible_def sample_event_def fits_bigint_def)

theorem every_run_keeps_invariant_witness:
  "domain_ok (perform sample_ucd default_vk_settings sample_decode sample_event sample_world)"
  by (rule every_run_keeps_invariant [OF sample_step domain_ok_sample]) (simp add: room_sample)

lemma sample_denied:
  defines "w1 \<equiv> perform sample_ucd default_vk_settings sample_decode sample_event sample_world"
  shows "room 4 w1" "\<exists>l. vk_logs (committed w1) = [l] \<and> lg_action l = ACTION_DENY \<and> lg_status l = lit ''success''"
proof -
  have p: "fits_bigint 501" by (simp add: fits_bigint_def)
  have "find (linked_to 501) (user_vks (db (opened sample_world))) = Some (sample_binding 3 13 (Some 501) STATE_ACTIVE)"
    by (simp add: sample_opened sample_db_def sample_binding_def linked_to_def)
  then have "w1 = kept (moved 501 STATE_BLOCKED ACTION_DENY (opened sample_world))"
    using handle_deny_run(1) [OF domain_ok_sample room_sample p, of sample_ucd default_vk_settings]
    by (simp add: w1_def perform_def sample_event_def on_event_def event_user_id_def prog_simps)
  then show "room 4 w1" "\<exists>l. vk_logs (committed w1) = [l] \<and> lg_action l = ACTION_DENY \<and> lg_status l = lit ''success''"
    by (simp_all add: moved_def room_def uuid_limit_def append_log_def new_log_def kept_def opened_def state_set_def
        sample_db_def sample_binding_def linked_to_def)
qed

theorem journal_only_grows_witness:
  "\<exists>l. vk_logs (committed (perform sample_ucd default_vk_settings sample_decode sample_event sample_world)) = [l] \<and>
     lg_action l = ACTION_DENY \<and> lg_status l = lit ''success'' \<and>
     (\<exists>more. vk_logs (committed (perform sample_ucd default_vk_settings sample_decode sample_event
        (perform sample_ucd default_vk_settings sample_decode sample_event sample_world))) = l # more)"
proof -
  obtain l where l: "vk_logs (committed (perform sample_ucd default_vk_settings sample_decode sample_event sample_world)) = [l]"
    "lg_action l = ACTION_DENY" "lg_status l = lit ''success''" using sample_denied(2) by blast
  from journal_only_grows [OF sample_step [OF sample_denied(1)]] have "\<exists>more. vk_logs (committed (perform sample_ucd
      default_vk_settings sample_decode sample_event
      (perform sample_ucd default_vk_settings sample_decode sample_event sample_world))) = l # more"
    unfolding l(1) by (auto simp: prefix_def)
  with l show ?thesis by blast
qed

lemma sample_sent:
  "domain_ok (opened (kept (snd (sample_deliver [12] sample_world))))"
  "is_sent (ledger_of (vk_deliveries (committed (opened (kept (snd (sample_deliver [12] sample_world)))))) (77, 12))"
proof -
  have h: "handled (sample_command\<lparr>cm_user_ids := [12]\<rparr>) [] sample_world (opened (kept (snd (sample_deliver [12] sample_world))))"
    by (rule wp_InrD [OF handle_wp [OF sample_accepted(2) domain_ok_sample] sample_handled]) (simp add: room_sample)
  then show "domain_ok (opened (kept (snd (sample_deliver [12] sample_world))))" by (simp add: handled_def)
  have "due_recipients (opened sample_world) (sample_command\<lparr>cm_user_ids := [12]\<rparr>) = [12]"
    by (simp add: due_recipients_def sample_opened sample_reach ledger_of_def)
  with h have "\<exists>n. ledger_of (vk_deliveries (committed (opened (kept (snd (sample_deliver [12] sample_world)))))) (77, 12) =
      Some (STATUS_SENT, n)"
    by (simp only: handled_def processed_def attempted_def) simp
  then show "is_sent (ledger_of (vk_deliveries (committed (opened (kept (snd (sample_deliver [12] sample_world)))))) (77, 12))"
    by auto
qed

theorem sent_is_final_witness:
  "is_sent (ledger_of (vk_deliveries (committed
     (perform sample_ucd default_vk_settings sample_decode sample_event (opened (kept (snd (sample_deliver [12] sample_world))))))) (77, 12))"
proof -
  have "room 4 (opened (kept (snd (sample_deliver [12] sample_world))))"
    using sample_deliver_runs(2) deliver_to_one_run(2)
      [where w = sample_world and c = "sample_command\<lparr>cm_user_ids := [12]\<rparr>" and u = 12 and p = 500 and b = True,
        OF domain_okD(1,3) [OF domain_ok_sample] room_sample] sample_reachable
    by (simp add: sample_answers fits_bigint_def room_def uuid_limit_def)
  from sent_is_final [OF sample_step [OF this] sample_sent] sample_sent(2) show ?thesis by simp
qed

section \<open>Flows\<close>

theorem denied_account_is_left_alone_witness:
  "\<exists>w1. BotEventHandler_handle_message_deny (sql_bot_handler sample_ucd default_vk_settings) 500 sample_world =
      (Inr (lit ''success''), w1) \<and> (\<forall>i. reachable_at (committed w1) i \<noteq> Some 500) \<and>
    reachable_at (committed (snd (BotEventHandler_handle_message_allow (sql_bot_handler sample_ucd default_vk_settings) 500 w1))) 12 = Some 500"
proof -
  have p: "fits_bigint 500" by (simp add: fits_bigint_def)
  have b: "find (linked_to 500) (user_vks (committed sample_world)) = Some (sample_binding 2 12 (Some 500) STATE_ACTIVE)"
    by (simp add: sample_db_def sample_binding_def linked_to_def)
  let ?w1 = "kept (moved 500 STATE_BLOCKED ACTION_DENY (opened sample_world))"
  have run: "BotEventHandler_handle_message_deny (sql_bot_handler sample_ucd default_vk_settings) 500 sample_world =
      (Inr (lit ''success''), ?w1)"
    using handle_deny_run(1) [OF domain_ok_sample room_sample p, of sample_ucd default_vk_settings] b by simp
  have "room (length (cm_user_ids sample_command)) ?w1" by (simp add: room_def uuid_limit_def)
  from denied_account_is_left_alone [OF domain_ok_sample room_sample p b run sample_accepted(1) this] run
  show ?thesis by (auto simp: sample_binding_def)
qed

lemma sample_unlinked:
  "\<exists>w1. app sample_ucd default_vk_settings (Delete_Binding (Some 12)) sample_world =
     (Inr \<lparr>rs_status = 204, rs_body = No_Content\<rparr>, w1) \<and> room 1 w1"
proof -
  let ?w = "opened sample_world" and ?b = "sample_binding 2 12 (Some 500) STATE_ACTIVE"
  have ok: "domain_ok ?w" "find (owned_by 12) (user_vks (db ?w)) = Some ?b" "room 2 ?w"
    using domain_ok_opened [OF domain_ok_sample]
    by (simp_all add: sample_opened room_def uuid_limit_def sample_db_def sample_binding_def owned_by_def)
  obtain w' where told: "VkBindingService_notify_unlinked (sql_binding_service 30 8 (Some VkbottleMessenger))
        (uv_state ?b) (uv_peer_id ?b) (unlinked 12 ?b ?w) = (Inr (), w')"
    and only: "only_messages (unlinked 12 ?b ?w) w'"
    using notify_unlinked_run [of 30 8 "uv_state ?b" "uv_peer_id ?b" "unlinked 12 ?b ?w"] by blast
  have s: "vk_confirmation_ttl_minutes default_vk_settings = 30" "vk_confirmation_code_length default_vk_settings = 8"
    by (simp_all add: default_vk_settings_def)
  have "drawn w' = drawn (unlinked 12 ?b ?w)" by (rule only_messagesD(5) [OF only])
  then have "room 1 (kept w')"
    by (simp add: room_def uuid_limit_def kept_def unlinked_def append_log_def deleted_def invalidated_def opened_def)
  moreover have "app sample_ucd default_vk_settings (Delete_Binding (Some 12)) sample_world =
      (Inr \<lparr>rs_status = 204, rs_body = No_Content\<rparr>, kept w')"
    using unlink_run [OF ok, of 30 8 "Some VkbottleMessenger"] told
    by (simp add: app_def with_parsed_def get_session_opened [of _ sample_world] get_session_def delete_binding_def
        prog_simps get_vk_binding_service_sql s kept_def opened_def)
  ultimately show ?thesis by blast
qed

theorem unlinked_owner_is_left_alone_witness:
  "reachable_at (committed sample_world) 12 = Some 500 \<and>
   (\<exists>r w1. app sample_ucd default_vk_settings (Delete_Binding (Some 12)) sample_world = (Inr r, w1) \<and>
     reachable_at (committed w1) 12 = None)"
proof -
  obtain w1 where run: "app sample_ucd default_vk_settings (Delete_Binding (Some 12)) sample_world =
      (Inr \<lparr>rs_status = 204, rs_body = No_Content\<rparr>, w1)" "room 1 w1" using sample_unlinked by blast
  have "accepted sample_ucd (\<lambda>_. Some (sample_command\<lparr>cm_user_ids := [12]\<rparr>)) [123] sample_headers =
      Some (sample_command\<lparr>cm_user_ids := [12]\<rparr>)"
    by (rule accepted_sample) (simp_all add: deduplicate_user_ids_def)
  from unlinked_owner_is_left_alone [OF domain_ok_sample room_sample run(1) this _ run(2)] run(1)
  show ?thesis by (simp add: reachable_at_def sample_db_def sample_binding_def owned_by_def)
qed

section \<open>A code issued and sent\<close>

lemma sample_code_drawn: "drawn_code 8 (Suc 0) sample_world = lit ''BCDEFGHJ''"
  by (simp add: drawn_code_def sample_world_def CODE_ALPHABET_def lit_def upt_rec)

lemma sample_issue:
  defines "w1 \<equiv> kept (append_log ACTION_ISSUE (lit ''success'')
    (issue_details 11 1 @ [(lit ''code'', mask_code (lit ''BCDEFGHJ''))])
    (added_code 1 (lit ''BCDEFGHJ'') (sample_time + 1800000009) (later 9 (invalidated 1 (opened sample_world)))))"
  shows "\<exists>x. app sample_ucd default_vk_settings (Issue_Confirmation (Some 11)) sample_world =
      (Inr \<lparr>rs_status = 201, rs_body = Issued x\<rparr>, w1) \<and> ir_code x = lit ''BCDEFGHJ'' \<and>
      ir_expires_at x = sample_time + 1800000009"
proof -
  have s: "vk_confirmation_ttl_minutes default_vk_settings = 30" "vk_confirmation_code_length default_vk_settings = 8"
    by (simp_all add: default_vk_settings_def)
  have b: "find (owned_by 11) (user_vks (db (opened sample_world))) = Some (sample_binding 1 11 None STATE_PENDING)"
    "uv_state (sample_binding 1 11 None STATE_PENDING) = STATE_PENDING" "uv_id (sample_binding 1 11 None STATE_PENDING) = 1"
    by (simp_all add: sample_db_def sample_binding_def owned_by_def)
  have "room 3 (opened sample_world)" by (simp add: room_def uuid_limit_def)
  note run = issue_success_run [OF domain_ok_opened [OF domain_ok_sample] this b(1,2), of 8 30 "Some VkbottleMessenger"]
  have "VkBindingService_issue_confirmation (sql_binding_service 30 8 (Some VkbottleMessenger)) 11 (opened sample_world) =
      (Inr \<lparr>ic_code = lit ''BCDEFGHJ'', ic_expires_at = sample_time + 1800000009, ic_state = STATE_PENDING\<rparr>,
       append_log ACTION_ISSUE (lit ''success'') (issue_details 11 1 @ [(lit ''code'', mask_code (lit ''BCDEFGHJ''))])
         (added_code 1 (lit ''BCDEFGHJ'') (sample_time + 1800000009) (later 9 (invalidated 1 (opened sample_world)))))"
    using run
    by (simp add: sample_opened sample_code_drawn b(3) sample_time_def datetime_min_def datetime_max_def)
      (simp add: sample_db_def sample_code_def lit_def)
  then show ?thesis
    by (simp add: app_def with_parsed_def get_session_opened [of _ sample_world] get_session_def issue_confirmation_def
        prog_simps get_vk_binding_service_sql s w1_def kept_def opened_def)
qed

theorem issued_code_links_account_witness:
  "\<exists>x w1 w2. app sample_ucd default_vk_settings (Issue_Confirmation (Some 11)) sample_world =
      (Inr \<lparr>rs_status = 201, rs_body = Issued x\<rparr>, w1) \<and>
    BotEventHandler_handle_message (sql_bot_handler sample_ucd default_vk_settings) 700 700 (lit ''/link bcdefghj'') w1 =
      (Inr (lit ''confirmed''), w2) \<and> reachable_at (committed w2) 11 = Some 700"
proof -
  let ?w1 = "kept (append_log ACTION_ISSUE (lit ''success'')
    (issue_details 11 1 @ [(lit ''code'', mask_code (lit ''BCDEFGHJ''))])
    (added_code 1 (lit ''BCDEFGHJ'') (sample_time + 1800000009) (later 9 (invalidated 1 (opened sample_world)))))"
  obtain x where run: "app sample_ucd default_vk_settings (Issue_Confirmation (Some 11)) sample_world =
      (Inr \<lparr>rs_status = 201, rs_body = Issued x\<rparr>, ?w1)" and x: "ir_code x = lit ''BCDEFGHJ''"
      "ir_expires_at x = sample_time + 1800000009"
    using sample_issue by blast
  have w1: "tick ?w1 = 12" "clock ?w1 = clock sample_world" "drawn ?w1 = 3" "user_vks (committed ?w1) = user_vks sample_db"
    "vk_users_answer ?w1 = vk_users_answer sample_world"
    "\<exists>l. vk_logs (committed ?w1) = [l] \<and> lg_action l = ACTION_ISSUE"
    by (simp_all add: kept_def append_log_def new_log_def added_code_def later_def invalidated_def opened_def)
      (simp_all add: sample_db_def)
  have parse: "parse_link_command sample_ucd (lit ''/link bcdefghj'') (vk_bot_link_command default_vk_settings) = Some (lit ''bcdefghj'')"
    by (simp add: sample_bot parse_link_command_words) (simp add: lit_def py_isspace_def)
  have letters: "same_letters (lit ''bcdefghj'') (ir_code x)" by (simp add: x same_letters_def lit_def)
  have chat: "\<not> is_chat_peer 700" by (simp add: is_chat_peer_def CHAT_PEER_THRESHOLD_def)
  have fits: "account_fits default_vk_settings 700 ?w1"
    using w1 by (simp add: account_fits_def fits_bigint_def window_in_range_def window_start_def sample_bot sample_time_def
        datetime_min_def datetime_max_def sample_world_def profile_answer_def names_of_def names_fit_def opt_fits_def)
  have space: "room 2 ?w1" using w1 by (simp add: room_def uuid_limit_def)
  have free: "\<not> linked_to 700 b" if "b \<in> set (user_vks (committed ?w1))" for b
    using that unfolding w1 by (auto simp: sample_db_def sample_binding_def linked_to_def)
  have few: "failed_attempts (vk_logs (committed ?w1)) 700 since < vk_confirmation_max_attempts default_vk_settings" for since
    using w1(6) by (auto simp: failed_attempts_def sample_bot ACTION_ISSUE_def ACTION_CONFIRMATION_def lit_def)
  have time: "clock ?w1 (tick ?w1 + 2) < ir_expires_at x" unfolding w1 x by simp
  obtain r w2 where bot: "BotEventHandler_handle_message (sql_bot_handler sample_ucd default_vk_settings) 700 700
      (lit ''/link bcdefghj'') ?w1 = (r, w2)" by (meson surj_pair)
  with issued_code_links_account [OF domain_ok_sample room_sample sample_settings_valid run parse letters chat fits space
      free few time, of sample_decode] run
  show ?thesis by (auto simp: case_prod_beta)
qed

end
