(* ===== verification/Main_Backend.thy ===== *)
theory Main_Backend
  imports Settings
begin

text \<open>
  \<open>clients/main_backend/client.py\<close>: the client that reads the users of the site from its main backend.

  The HTTP library is a parameter: \<open>get\<close> performs the request and gives a response, whose text and
  JSON document are read by programs of its own, any of which may raise.  \<open>validate\<close> is the schema
  library on the declared fields (\<open>None\<close> for a document that does not have them).
\<close>

section \<open>Settings and data\<close>

record main_backend_settings =
  main_backend_url :: pystr
  main_backend_service_key :: pystr

definition default_main_backend_settings :: main_backend_settings where
  "default_main_backend_settings =
     \<lparr>main_backend_url = lit ''http://localhost:8000'', main_backend_service_key = []\<rparr>"

record user_scope =
  us_id :: uuid
  us_scope_name :: pystr

record user_out_dto =
  uo_id :: uuid
  uo_equestrian_id :: uuid
  uo_username :: pystr
  uo_first_name :: "pystr option"
  uo_last_name :: "pystr option"
  uo_middle_name :: "pystr option"
  uo_created_at :: pystr
  uo_updated_at :: "pystr option"
  uo_scopes :: "user_scope list"

record paginated_users =
  pu_items :: "user_out_dto list"
  pu_total :: int

section \<open>Messages\<close>

definition msg_timeout :: pystr where
  "msg_timeout =
     [1055, 1088, 1077, 1074, 1099, 1096, 1077, 1085, 1086] @ lit '' '' @ [1074, 1088, 1077, 1084,
     1103] @ lit '' '' @ [1086, 1078, 1080, 1076, 1072, 1085, 1080, 1103] @ lit '' '' @ [1086, 1090,
     1074, 1077, 1090, 1072] @ lit '' '' @ [1086, 1090] @ lit '' main backend''"

definition msg_users :: pystr where
  "msg_users =
     [1054, 1096, 1080, 1073, 1082, 1072] @ lit '' '' @ [1087, 1086, 1083, 1091, 1095, 1077, 1085,
     1080, 1103] @ lit '' '' @ [1087, 1086, 1083, 1100, 1079, 1086, 1074, 1072, 1090, 1077, 1083,
     1077, 1081] @ lit '': ''"

definition msg_link :: pystr where
  "msg_link =
     [1054, 1096, 1080, 1073, 1082, 1072] @ lit '' '' @ [1089, 1086, 1077, 1076, 1080, 1085, 1077,
     1085, 1080, 1103] @ lit '' '' @ [1089] @ lit '' main backend: ''"

definition msg_not_connected :: pystr where
  "msg_not_connected =
     [1053, 1077] @ lit '' '' @ [1091, 1076, 1072, 1083, 1086, 1089, 1100] @ lit '' '' @ [1087, 1086, 1076,
     1082, 1083, 1102, 1095, 1080, 1090, 1100, 1089, 1103] @ lit '' '' @ [1082] @ lit '' main backend''"

text \<open>The constructors of the errors; a detail that is not given has a default.\<close>

definition connection_error :: "pystr option \<Rightarrow> exn" where
  "connection_error detail =
     Exn MainBackendConnectionError (case detail of None \<Rightarrow> msg_not_connected | Some d \<Rightarrow> d)"

definition timeout_error :: "pystr option \<Rightarrow> exn" where
  "timeout_error detail = Exn MainBackendTimeoutError (case detail of None \<Rightarrow> msg_timeout | Some d \<Rightarrow> d)"

lemma transport_error_classes [simp]:
  "exn_class (connection_error d) = MainBackendConnectionError" "exn_class (timeout_error d) = MainBackendTimeoutError"
  "isinstance (connection_error d) c \<longleftrightarrow> c \<in> set (mro MainBackendConnectionError)"
  "isinstance (timeout_error d) c \<longleftrightarrow> c \<in> set (mro MainBackendTimeoutError)"
  by (simp_all add: connection_error_def timeout_error_def)

text \<open>The message of \<open>MainBackendResponseError\<close> carries the status.\<close>

definition response_error :: "int \<Rightarrow> pystr \<Rightarrow> exn" where
  "response_error status detail =
     Exn MainBackendResponseError (detail @ lit '' (HTTP '' @ str_int status @ lit '')'')"

section \<open>The client\<close>

record main_backend_client =
  mb_base_url :: pystr
  mb_service_key :: pystr
  mb_timeout :: rat

definition new_main_backend_client :: "pystr \<Rightarrow> pystr \<Rightarrow> rat \<Rightarrow> main_backend_client" where
  "new_main_backend_client base_url service_key timeout =
     \<lparr>mb_base_url = py_rstrip (\<lambda>c. c = 47) base_url, mb_service_key = service_key, mb_timeout = timeout\<rparr>"

datatype param = Param_Int int | Param_List "pystr list"

record http_request =
  rq_url :: pystr
  rq_params :: "(pystr \<times> param) list"
  rq_headers :: "(pystr \<times> pystr) list"
  rq_timeout :: rat

record ('w, 'j) http_response =
  rs_status :: int
  rs_text :: "('w, pystr) prog"
  rs_json :: "('w, 'j) prog"

definition users_params :: "uuid list option \<Rightarrow> pystr list option \<Rightarrow> pystr list option \<Rightarrow> int \<Rightarrow> int \<Rightarrow> (pystr \<times> param) list" where
  "users_params equestrian_ids service_keys role limit offset =
     [(lit ''limit'', Param_Int limit), (lit ''offset'', Param_Int offset)]
     @ (case equestrian_ids of
          None \<Rightarrow> [] | Some [] \<Rightarrow> [] | Some ids \<Rightarrow> [(lit ''equestrian_ids'', Param_List (map uuid_str ids))])
     @ (case service_keys of
          None \<Rightarrow> [] | Some [] \<Rightarrow> [] | Some keys \<Rightarrow> [(lit ''equestrian_service_keys'', Param_List keys)])
     @ (case role of None \<Rightarrow> [] | Some [] \<Rightarrow> [] | Some r \<Rightarrow> [(lit ''role'', Param_List r)])"

definition users_request ::
    "main_backend_client \<Rightarrow> uuid list option \<Rightarrow> pystr list option \<Rightarrow> pystr list option \<Rightarrow> int \<Rightarrow> int \<Rightarrow> http_request" where
  "users_request c equestrian_ids service_keys role limit offset =
     \<lparr>rq_url = mb_base_url c @ lit ''/api/service/users'',
      rq_params = users_params equestrian_ids service_keys role limit offset,
      rq_headers = [(lit ''X-Service-Key'', mb_service_key c), (lit ''Content-Type'', lit ''application/json'')],
      rq_timeout = mb_timeout c\<rparr>"

definition MainBackendClient_get_users ::
    "(http_request \<Rightarrow> ('w, ('w, 'j) http_response) prog) \<Rightarrow> ('j \<Rightarrow> paginated_users option) \<Rightarrow> main_backend_client \<Rightarrow>
       uuid list option \<Rightarrow> pystr list option \<Rightarrow> pystr list option \<Rightarrow> int \<Rightarrow> int \<Rightarrow> ('w, paginated_users) prog" where
  "MainBackendClient_get_users get validate c equestrian_ids service_keys role limit offset =
     catchM
       (bindM (get (users_request c equestrian_ids service_keys role limit offset)) (\<lambda>response.
          if rs_status response \<noteq> 200
          then bindM (rs_text response) (\<lambda>text. throwM (response_error (rs_status response) (msg_users @ text)))
          else
            bindM (rs_json response) (\<lambda>data.
              case validate data of
                None \<Rightarrow> raiseM ValidationError (lit ''invalid document'')
              | Some users \<Rightarrow> retM users)))
       [AiohttpClientError, PyTimeoutError]
       (\<lambda>e. if isinstance e AiohttpClientError
            then throwM (connection_error (Some (msg_link @ message e)))
            else throwM (timeout_error None))"

text \<open>The parameters have defaults: no filter, the first hundred users.\<close>

definition MainBackendClient_get_users_defaults ::
    "(http_request \<Rightarrow> ('w, ('w, 'j) http_response) prog) \<Rightarrow> ('j \<Rightarrow> paginated_users option) \<Rightarrow> main_backend_client \<Rightarrow>
       ('w, paginated_users) prog" where
  "MainBackendClient_get_users_defaults get validate c = MainBackendClient_get_users get validate c None None None 100 0"

section \<open>What a caller sees\<close>

text \<open>The exceptions of the library the client translates.\<close>

definition transport_error :: "exn \<Rightarrow> bool" where
  "transport_error e \<longleftrightarrow> isinstance e AiohttpClientError \<or> isinstance e PyTimeoutError"

definition translated :: "exn \<Rightarrow> exn" where
  "translated e =
     (if isinstance e AiohttpClientError then connection_error (Some (msg_link @ message e))
      else if isinstance e PyTimeoutError then timeout_error None
      else e)"

lemma translated_app_error: "transport_error e \<Longrightarrow> isinstance (translated e) MainBackendClientError"
  by (auto simp: transport_error_def translated_def)

lemma app_error_passes: "\<not> transport_error (response_error n d)"
  by (simp add: transport_error_def response_error_def)

lemma catch_transport:
  "catchM m [AiohttpClientError, PyTimeoutError]
     (\<lambda>e. if isinstance e AiohttpClientError then throwM (connection_error (Some (msg_link @ message e)))
          else throwM (timeout_error None)) w =
   (case m w of (Inl e, w') \<Rightarrow> (Inl (translated e), w') | (Inr x, w') \<Rightarrow> (Inr x, w'))"
  by (auto simp: prog_simps translated_def split: prod.split sum.split)

text \<open>
  Every answer of the main backend is told apart.  Users come back only from an answer of status 200
  whose document has the declared fields; another status is the response error, with the status and
  the text of the answer; an error of the transport, wherever it strikes, is the connection or the
  time-out error; all of these are application errors of status 500.  Only a document of status 200
  that is not readable or not of the declared form raises the library's own error.
\<close>

lemma users_or_named_error:
  fixes get validate c ids keys role limit offset w
  defines "result \<equiv> MainBackendClient_get_users get validate c ids keys role limit offset w"
    and "answer \<equiv> get (users_request c ids keys role limit offset) w"
  shows "(\<forall>e w1. answer = (Inl e, w1) \<longrightarrow> result = (Inl (translated e), w1)) \<and>
    (\<forall>r w1. answer = (Inr r, w1) \<longrightarrow>
       (if rs_status r \<noteq> 200
        then (case rs_text r w1 of
                (Inl e, w2) \<Rightarrow> result = (Inl (translated e), w2)
              | (Inr t, w2) \<Rightarrow> result = (Inl (response_error (rs_status r) (msg_users @ t)), w2) \<and>
                  status_code MainBackendResponseError = Some 500)
        else (case rs_json r w1 of
                (Inl e, w2) \<Rightarrow> result = (Inl (translated e), w2)
              | (Inr j, w2) \<Rightarrow>
                  (case validate j of
                     Some us \<Rightarrow> result = (Inr us, w2)
                   | None \<Rightarrow> (\<exists>m. result = (Inl (Exn ValidationError m), w2)))))) \<and>
    (\<forall>e. transport_error e \<longrightarrow> isinstance (translated e) MainBackendClientError \<and>
       status_code (exn_class (translated e)) = Some 500)"
proof -
  have codes: "status_code (exn_class (translated e)) = Some 500" if "transport_error e" for e
    using that by (auto simp: transport_error_def translated_def status_code_def)
  have resp: "translated (response_error n d) = response_error n d" "translated (Exn ValidationError m) = Exn ValidationError m" for n d m
    by (simp_all add: translated_def response_error_def)
  have c500: "status_code MainBackendResponseError = Some 500" by (simp add: status_code_def)
  have run: "result = (case (case answer of
        (Inl e, w1) \<Rightarrow> (Inl e, w1)
      | (Inr r, w1) \<Rightarrow>
          (if rs_status r \<noteq> 200
           then bindM (rs_text r) (\<lambda>text. throwM (response_error (rs_status r) (msg_users @ text))) w1
           else bindM (rs_json r) (\<lambda>data. case validate data of
             None \<Rightarrow> raiseM ValidationError (lit ''invalid document'') | Some users \<Rightarrow> retM users) w1)) of
      (Inl e, w') \<Rightarrow> (Inl (translated e), w') | (Inr x, w') \<Rightarrow> (Inr x, w'))"
    unfolding result_def answer_def MainBackendClient_get_users_def catch_transport
    by (simp add: bindM_def if_distrib [of "\<lambda>m. m _"] split: prod.split sum.split)
  show ?thesis
  proof (intro conjI allI impI)
    fix e w1 assume "answer = (Inl e, w1)"
    then show "result = (Inl (translated e), w1)" by (simp add: run)
  next
    fix r w1 assume a: "answer = (Inr r, w1)"
    obtain t w2 where t: "rs_text r w1 = (t, w2)" by (cases "rs_text r w1")
    obtain j w3 where j: "rs_json r w1 = (j, w3)" by (cases "rs_json r w1")
    show "if rs_status r \<noteq> 200
        then (case rs_text r w1 of
                (Inl e, w2) \<Rightarrow> result = (Inl (translated e), w2)
              | (Inr t, w2) \<Rightarrow> result = (Inl (response_error (rs_status r) (msg_users @ t)), w2) \<and>
                  status_code MainBackendResponseError = Some 500)
        else (case rs_json r w1 of
                (Inl e, w2) \<Rightarrow> result = (Inl (translated e), w2)
              | (Inr j, w2) \<Rightarrow>
                  (case validate j of
                     Some us \<Rightarrow> result = (Inr us, w2)
                   | None \<Rightarrow> (\<exists>m. result = (Inl (Exn ValidationError m), w2))))"
      by (cases t; cases j) (simp_all add: run a t j prog_simps resp c500 split: option.split)
  qed (simp_all add: codes translated_app_error)
qed

text \<open>A filter that is empty is not sent, so it does not restrict the answer.\<close>

lemma empty_filters_not_sent:
  "users_params (Some []) (Some []) (Some []) limit offset = users_params None None None limit offset"
  by (simp add: users_params_def)

end
