(* ===== verification/Celery_Probe.thy ===== *)
theory Celery_Probe
  imports Settings
begin

text \<open>
  \<open>workers/\<close>: the configuration of the Celery application and the one task it has, a probe by which
  the infrastructure tests observe how often a task is delivered and takes effect.

  Redis is a map of keys to integers and strings; Celery's own part, when a task is delivered again,
  is outside: the task answers \<open>Probe_Retry\<close> where it raises \<open>self.retry\<close>.
\<close>

section \<open>The application\<close>

record celery_settings =
  celery_app_main :: pystr
  celery_app_broker :: pystr
  celery_app_backend :: pystr

definition default_celery_settings :: celery_settings where
  "default_celery_settings =
     \<lparr>celery_app_main = lit ''vk-service'',
      celery_app_broker = lit ''redis://:eqsitecmsredis@redis:6379/3'',
      celery_app_backend = lit ''redis://:eqsitecmsredis@redis:6379/4''\<rparr>"

record celery_app =
  ca_main :: pystr
  ca_broker :: pystr
  ca_backend :: pystr
  ca_task_queues :: "pystr list"
  ca_task_default_queue :: pystr
  ca_task_serializer :: pystr
  ca_result_serializer :: pystr
  ca_accept_content :: "pystr list"
  ca_task_expires :: int
  ca_task_acks_late :: bool
  ca_task_reject_on_worker_lost :: bool
  ca_worker_prefetch_multiplier :: int
  ca_visibility_timeout :: int

definition make_celery_app :: "celery_settings \<Rightarrow> celery_app" where
  "make_celery_app s =
     \<lparr>ca_main = celery_app_main s, ca_broker = celery_app_broker s, ca_backend = celery_app_backend s,
      ca_task_queues = [lit ''vk''], ca_task_default_queue = lit ''vk'',
      ca_task_serializer = lit ''json'', ca_result_serializer = lit ''json'', ca_accept_content = [lit ''json''],
      ca_task_expires = 3600, ca_task_acks_late = True, ca_task_reject_on_worker_lost = True,
      ca_worker_prefetch_multiplier = 1, ca_visibility_timeout = 5\<rparr>"

text \<open>The options the probe is registered with.\<close>

record task_options =
  to_bind :: bool
  to_name :: pystr
  to_acks_late :: bool
  to_reject_on_worker_lost :: bool
  to_max_retries :: int

definition integration_probe_options :: task_options where
  "integration_probe_options =
     \<lparr>to_bind = True, to_name = lit ''vk.integration_probe'', to_acks_late = True,
      to_reject_on_worker_lost = True, to_max_retries = 3\<rparr>"

section \<open>Redis\<close>

datatype redis_value = R_Int int | R_Str pystr

record redis_world =
  redis :: "pystr \<rightharpoonup> redis_value"
  slept :: "rat list"

text \<open>\<open>INCR\<close> wants a number, and starts at zero.\<close>

definition redis_incr :: "pystr \<Rightarrow> ('x redis_world_scheme, int) prog" where
  "redis_incr k = (\<lambda>w.
     case redis w k of
       None \<Rightarrow> (Inr 1, w\<lparr>redis := (redis w)(k \<mapsto> R_Int 1)\<rparr>)
     | Some (R_Int i) \<Rightarrow> (Inr (i + 1), w\<lparr>redis := (redis w)(k \<mapsto> R_Int (i + 1))\<rparr>)
     | Some (R_Str _) \<Rightarrow> (Inl (Exn PyException (lit ''value is not an integer'')), w))"

definition redis_set :: "pystr \<Rightarrow> redis_value \<Rightarrow> ('x redis_world_scheme, unit) prog" where
  "redis_set k v = modifyM (\<lambda>w. w\<lparr>redis := (redis w)(k \<mapsto> v)\<rparr>)"

text \<open>\<open>SET k v NX\<close>: whether the key was new.\<close>

definition redis_set_nx :: "pystr \<Rightarrow> redis_value \<Rightarrow> ('x redis_world_scheme, bool) prog" where
  "redis_set_nx k v =
     bindM (getsM (\<lambda>w. redis w k)) (\<lambda>old.
       if old = None then thenM (redis_set k v) (retM True) else retM False)"

section \<open>The probe\<close>

datatype probe_effect = Created | Duplicate

datatype probe_result = Probe_Retry rat | Probe_Done bool int probe_effect

definition probe_key :: "pystr \<Rightarrow> string \<Rightarrow> pystr" where
  "probe_key probe_id name = lit ''eqsitecms:integration:'' @ probe_id @ lit '':'' @ lit name"

definition integration_probe_task :: "bool \<Rightarrow> pystr \<Rightarrow> int \<Rightarrow> rat \<Rightarrow> ('x redis_world_scheme, probe_result) prog" where
  "integration_probe_task acks_late probe_id fail_until delay_seconds =
     bindM (redis_incr (probe_key probe_id ''attempts'')) (\<lambda>attempt.
     thenM (redis_set (probe_key probe_id ''started'') (R_Int attempt))
     (thenM (if delay_seconds \<noteq> 0 then modifyM (\<lambda>w. w\<lparr>slept := slept w @ [delay_seconds]\<rparr>) else retM ())
       (if attempt \<le> fail_until then retM (Probe_Retry (1 / 10))
        else
          bindM (redis_set_nx (probe_key probe_id ''effect'') (R_Str (lit ''1''))) (\<lambda>first_effect.
            retM (Probe_Done acks_late attempt (if first_effect then Created else Duplicate))))))"

text \<open>The task delivered again and again.\<close>

fun deliveries :: "nat \<Rightarrow> bool \<Rightarrow> pystr \<Rightarrow> int \<Rightarrow> rat \<Rightarrow> ('x redis_world_scheme, probe_result list) prog" where
  "deliveries 0 a p f d = retM []"
| "deliveries (Suc n) a p f d =
     bindM (integration_probe_task a p f d) (\<lambda>r. bindM (deliveries n a p f d) (\<lambda>rs. retM (r # rs)))"

lemma probe_keys_differ [simp]:
  "probe_key p ''attempts'' \<noteq> probe_key p ''started''" "probe_key p ''started'' \<noteq> probe_key p ''attempts''"
  "probe_key p ''attempts'' \<noteq> probe_key p ''effect''" "probe_key p ''effect'' \<noteq> probe_key p ''attempts''"
  "probe_key p ''started'' \<noteq> probe_key p ''effect''" "probe_key p ''effect'' \<noteq> probe_key p ''started''"
  by (simp_all add: probe_key_def)

text \<open>How many deliveries a probe has had, and whether it took effect.\<close>

definition probed :: "pystr \<Rightarrow> nat \<Rightarrow> bool \<Rightarrow> 'x redis_world_scheme \<Rightarrow> bool" where
  "probed p n e w \<longleftrightarrow>
     redis w (probe_key p ''attempts'') = (if n = 0 then None else Some (R_Int (int n))) \<and>
     (redis w (probe_key p ''effect'') \<noteq> None \<longleftrightarrow> e)"

definition probe_answer :: "bool \<Rightarrow> int \<Rightarrow> bool \<Rightarrow> nat \<Rightarrow> probe_result" where
  "probe_answer a f e n =
     (if int n \<le> f then Probe_Retry (1 / 10) else Probe_Done a (int n) (if e then Duplicate else Created))"

lemma probe_run:
  assumes "probed p n e w"
  shows "\<exists>w'. integration_probe_task a p f d w = (Inr (probe_answer a f e (Suc n)), w') \<and>
    probed p (Suc n) (e \<or> f < int (Suc n)) w'"
  using assms
  by (auto simp: integration_probe_task_def redis_incr_def redis_set_def redis_set_nx_def prog_simps probed_def
      probe_answer_def split: if_splits)

text \<open>The answers to deliveries that follow \<open>k\<close> others.\<close>

definition effect_before :: "int \<Rightarrow> nat \<Rightarrow> bool" where
  "effect_before f k \<longleftrightarrow> 0 < k \<and> f < int k"

lemma deliveries_run:
  assumes "probed p k (effect_before f k) w"
  shows "fst (deliveries n a p f d w) = Inr (map (\<lambda>i. probe_answer a f (effect_before f (k + i)) (Suc (k + i))) [0..<n])"
  using assms
proof (induction n arbitrary: k w)
  case (Suc n)
  obtain w' where w': "integration_probe_task a p f d w = (Inr (probe_answer a f (effect_before f k) (Suc k)), w')"
    "probed p (Suc k) (effect_before f k \<or> f < int (Suc k)) w'" using probe_run [OF Suc.prems] by blast
  have "(effect_before f k \<or> f < int (Suc k)) = effect_before f (Suc k)" by (auto simp: effect_before_def)
  with w'(2) have "probed p (Suc k) (effect_before f (Suc k)) w'" by simp
  from Suc.IH [OF this] have rest: "fst (deliveries n a p f d w') =
      Inr (map (\<lambda>i. probe_answer a f (effect_before f (Suc k + i)) (Suc (Suc k + i))) [0..<n])" .
  have "[0..<Suc n] = 0 # map Suc [0..<n]" by (simp add: map_Suc_upt upt_conv_Cons del: upt_Suc)
  with rest w'(1) show ?case
    by (cases "deliveries n a p f d w'") (auto simp: prog_simps comp_def del: upt_Suc)
qed (simp add: prog_simps)

text \<open>
  However often the task is delivered, and whatever it was told to fail, it takes effect once: the
  first \<open>fail_until\<close> deliveries ask to be retried, the next creates the effect and every later one
  finds it.
\<close>

lemma probe_takes_effect_once:
  assumes "redis w (probe_key p ''attempts'') = None" "redis w (probe_key p ''effect'') = None" "0 \<le> f"
  shows "fst (deliveries n a p f d w) =
    Inr (map (\<lambda>i. if int i < f then Probe_Retry (1 / 10)
                  else Probe_Done a (int i + 1) (if int i = f then Created else Duplicate)) [0..<n])"
proof -
  have "probed p 0 (effect_before f 0) w" using assms(1,2) by (simp add: probed_def effect_before_def)
  from deliveries_run [OF this, of n a d] show ?thesis
    using assms(3) by (auto simp: probe_answer_def effect_before_def)
qed

end
