(* ===== verification/Lifespan.thy ===== *)
theory Lifespan
  imports Command_Service
begin

text \<open>
  The life of the HTTP process: \<open>lifespan\<close> of \<open>main.py\<close>, with the metrics server of
  \<open>utils/observability.py\<close> and \<open>close_database\<close> of \<open>utils/database.py\<close>.

  The local variables of \<open>lifespan\<close> and the runtime of the metrics are fields of \<open>lifespan_world\<close>.
  What the metrics library answers is a function of the world; \<open>engine.dispose()\<close> returns and is
  recorded.  \<open>serving\<close> is what happens at the \<open>yield\<close>: the requests, and the consumer beside them.
\<close>

section \<open>Metrics\<close>

record metrics_runtime =
  mt_closed :: bool

datatype metrics_call = Start_Http_Server int | Server_Shutdown | Server_Close | Thread_Join

record lifespan_world = nats_world +
  nats_connected :: bool
  metrics :: "metrics_runtime option"
  metrics_answer :: "metrics_call \<Rightarrow> exn option"
  metrics_calls :: "metrics_call list"
  engine_disposed :: bool

definition metrics_call :: "metrics_call \<Rightarrow> ('x lifespan_world_scheme, unit) prog" where
  "metrics_call c = (\<lambda>w.
     (case metrics_answer w c of None \<Rightarrow> Inr () | Some e \<Rightarrow> Inl e, w\<lparr>metrics_calls := metrics_calls w @ [c]\<rparr>))"

definition MetricsRuntime_close :: "metrics_runtime \<Rightarrow> ('x lifespan_world_scheme, unit) prog" where
  "MetricsRuntime_close r =
     (if mt_closed r then retM ()
      else
        thenM (modifyM (\<lambda>w. w\<lparr>metrics := Some (r\<lparr>mt_closed := True\<rparr>)\<rparr>))
        (thenM (metrics_call Server_Shutdown)
        (thenM (metrics_call Server_Close)
               (metrics_call Thread_Join))))"

definition start_metrics_runtime :: "ucd \<Rightarrow> pystr \<Rightarrow> ('x lifespan_world_scheme, metrics_runtime option) prog" where
  "start_metrics_runtime u environment =
     (if py_lower u environment \<noteq> lit ''production'' then retM None
      else thenM (metrics_call (Start_Http_Server 9000)) (retM (Some \<lparr>mt_closed = False\<rparr>)))"

section \<open>The life of the process\<close>

definition close_database :: "('x lifespan_world_scheme, unit) prog" where
  "close_database = modifyM (\<lambda>w. w\<lparr>engine_disposed := True\<rparr>)"

definition lifespan_connect :: "nats_settings \<Rightarrow> ('x lifespan_world_scheme, unit) prog" where
  "lifespan_connect s =
     thenM (modifyM (\<lambda>w. w\<lparr>nats_connected := False\<rparr>))
       (catchM
         (thenM (nats_connect s)
         (thenM (nats_setup s)
         (thenM (modifyM (\<lambda>w. w\<lparr>nats_connected := True\<rparr>))
                (consumer_start s))))
         [ConnectionRefusedError, PyOSError] (\<lambda>_. retM ()))"

definition lifespan_metrics :: "ucd \<Rightarrow> pystr \<Rightarrow> ('x lifespan_world_scheme, unit) prog" where
  "lifespan_metrics u environment =
     bindM (start_metrics_runtime u environment) (\<lambda>r. modifyM (\<lambda>w. w\<lparr>metrics := r\<rparr>))"

definition lifespan_shutdown :: "('x lifespan_world_scheme, unit) prog" where
  "lifespan_shutdown =
     bindM (getsM nats_connected) (\<lambda>connected.
       thenM (if connected then thenM consumer_stop nats_close else retM ())
       (thenM close_database
       (bindM (getsM metrics) (\<lambda>r.
          case r of None \<Rightarrow> retM () | Some m \<Rightarrow> MetricsRuntime_close m))))"

definition lifespan ::
    "ucd \<Rightarrow> nats_settings \<Rightarrow> pystr \<Rightarrow> ('x lifespan_world_scheme, 'a) prog \<Rightarrow> ('x lifespan_world_scheme, 'a) prog" where
  "lifespan u s environment serving =
     thenM (lifespan_connect s)
     (thenM (lifespan_metrics u environment)
     (finallyM serving lifespan_shutdown))"


section \<open>The parts\<close>

text \<open>What the service does between start and shutdown leaves the lifespan's own state alone.\<close>

definition same_lifespan :: "'x lifespan_world_scheme \<Rightarrow> 'x lifespan_world_scheme \<Rightarrow> bool" where
  "same_lifespan w w' \<longleftrightarrow>
     nats_connected w' = nats_connected w \<and> metrics w' = metrics w \<and> metrics_calls w' = metrics_calls w \<and>
     metrics_answer w' = metrics_answer w \<and> engine_disposed w' = engine_disposed w"

abbreviation subscription :: "nats_settings \<Rightarrow> nats_call" where
  "subscription s \<equiv> Call_Pull_Subscribe (nats_subject_notification_commands_send_vk s)
     (nats_consumer_notification_commands_send_vk s) (nats_stream_notification_commands s)"

definition quits :: "nats_call \<Rightarrow> bool" where
  "quits c \<longleftrightarrow> c = Call_Drain \<or> c = Call_Close"

text \<open>The world after a connection has been tried.\<close>

definition tried :: "nats_settings \<Rightarrow> bool \<Rightarrow> 'x lifespan_world_scheme \<Rightarrow> 'x lifespan_world_scheme" where
  "tried s up w = called [Call_Connect (connect_options s)] 1
     (w\<lparr>nats_connection := Some \<lparr>nc_is_connected = up, nc_is_closed = False\<rparr>,
        nats_policy := policy_reset (nats_policy w), nats_jetstream := nats_jetstream w \<or> up\<rparr>)"

lemma tried_sel [simp]:
  "is_connected (tried s up w) = up" "nats_connected (tried s up w) = nats_connected w"
  "nats_answer (tried s up w) = nats_answer w" "nats_tick (tried s up w) = Suc (nats_tick w)"
  "nats_calls (tried s up w) = nats_calls w @ [Call_Connect (connect_options s)]"
  "nats_jetstream (tried s up w) = (nats_jetstream w \<or> up)"
  "consumer_task (tried s up w) = consumer_task w" "same_lifespan w (tried s up w)"
  by (simp_all add: tried_def is_connected_def called_def same_lifespan_def)

lemma connect_run:
  fixes w :: "'x lifespan_world_scheme"
  assumes "\<not> is_connected w"
  shows "nats_connect s w =
    (case nats_answer w (nats_tick w) (Call_Connect (connect_options s)) of
       None \<Rightarrow> (Inr (), tried s True w) | Some e \<Rightarrow> (Inl e, tried s False w))"
  using assms by (simp add: nats_connect_def prog_simps nats_call_run tried_def called_def split: option.split)

lemma metrics_off: "py_lower u environment \<noteq> lit ''production'' \<Longrightarrow> lifespan_metrics u environment w = (Inr (), w\<lparr>metrics := None\<rparr>)"
  by (simp add: lifespan_metrics_def start_metrics_runtime_def prog_simps)

lemma metrics_on:
  assumes "py_lower u environment = lit ''production''" "metrics_answer w (Start_Http_Server 9000) = None"
  shows "lifespan_metrics u environment w =
    (Inr (), w\<lparr>metrics_calls := metrics_calls w @ [Start_Http_Server 9000], metrics := Some \<lparr>mt_closed = False\<rparr>\<rparr>)"
  using assms by (simp add: lifespan_metrics_def start_metrics_runtime_def metrics_call_def prog_simps)

lemma close_run:
  fixes w :: "'x lifespan_world_scheme"
  assumes "\<And>t. nats_answer w t Call_Drain = None"
  shows "nats_close w =
    (Inr (), if nats_connection w = None then w
       else (case nats_connection w of Some c \<Rightarrow> if nc_is_closed c then w else called [Call_Drain] 1 w | None \<Rightarrow> w)
         \<lparr>nats_connection := None, nats_jetstream := False\<rparr>)"
  using assms
  by (auto simp: nats_close_def prog_simps finallyM_def nats_call_run connection_ended_def called_def split: option.split)

text \<open>Registering and subscribing never end the connection.\<close>

definition only_calls :: "'x nats_world_scheme \<Rightarrow> 'x nats_world_scheme \<Rightarrow> bool" where
  "only_calls w w' \<longleftrightarrow> (\<exists>cs n. w' = called cs n w \<and> (\<forall>c \<in> set cs. \<not> quits c))"

lemma only_calls_refl: "only_calls w w"
  unfolding only_calls_def by (rule exI [of _ "[]"], rule exI [of _ 0]) simp

lemma only_calls_trans:
  assumes "only_calls a b" "only_calls b c"
  shows "only_calls a c"
proof -
  from assms(1) obtain cs n where b: "b = called cs n a" "\<forall>c \<in> set cs. \<not> quits c" by (auto simp: only_calls_def)
  from assms(2) obtain ds m where c: "c = called ds m b" "\<forall>c \<in> set ds. \<not> quits c" by (auto simp: only_calls_def)
  have "c = called (cs @ ds) (n + m) a \<and> (\<forall>c \<in> set (cs @ ds). \<not> quits c)" using b c by (auto simp: add.commute)
  then show ?thesis unfolding only_calls_def by blast
qed

lemma only_calls_called: "\<forall>c \<in> set cs. \<not> quits c \<Longrightarrow> only_calls w (called cs n w)"
  unfolding only_calls_def by blast

lemma keeps_only_calls: "(\<And>w. only_calls w (snd (m w))) \<Longrightarrow> keeps (only_calls v) m"
  using only_calls_trans by (auto simp: keeps_def)

lemma nats_call_only: "\<not> quits c \<Longrightarrow> keeps (only_calls v) (nats_call c)"
  by (rule keeps_only_calls) (simp add: nats_call_run only_calls_called)

lemma sleep_only: "keeps (only_calls v) (sleep t)"
  by (rule keeps_only_calls) (simp add: sleep_run only_calls_called quits_def)

lemma keeps_if: "keeps I m \<Longrightarrow> keeps I n \<Longrightarrow> keeps I (if b then m else n)"
  by simp

lemma setup_attempts_only: "keeps (only_calls v) (setup_attempts s attempt)"
proof (induction s attempt rule: setup_attempts.induct)
  case (1 s attempt)
  have reg: "keeps (only_calls v) (add_notification_commands_send_vk_consumer s)"
    unfolding add_notification_commands_send_vk_consumer_def get_jetstream_def
    by (intro keeps_then keeps_bind keeps_gets keeps_if keeps_throw keeps_ret nats_call_only) (simp add: quits_def)
  show ?case
    by (subst setup_attempts.simps)
      (use 1 in \<open>auto intro!: keeps_if keeps_bind keeps_catch keeps_then keeps_ret keeps_throw reg sleep_only\<close>)
qed

lemma setup_only: "only_calls w (snd (nats_setup s w))"
proof -
  have "keeps (only_calls w) (nats_setup s)"
    unfolding nats_setup_def setup_streams_def setup_consumers_def
    by (intro keeps_bind keeps_gets keeps_if keeps_throw keeps_then keeps_ret setup_attempts_only)
  with only_calls_refl [of w] show ?thesis unfolding keeps_def by blast
qed

text \<open>An uneventful start: every call is answered.\<close>

definition yielded :: "nats_settings \<Rightarrow> 'x lifespan_world_scheme \<Rightarrow> 'x lifespan_world_scheme" where
  "yielded s w =
     (called [registration s, subscription s] 2 ((tried s True w)\<lparr>nats_connected := True\<rparr>))
       \<lparr>consumer_subscription := True, consumer_task := Some Task_Running\<rparr>"

lemma connect_answered:
  fixes w :: "'x lifespan_world_scheme"
  assumes "\<not> is_connected w" "\<not> is_running w" "1 \<le> nats_setup_max_attempts s"
    and "nats_answer w (nats_tick w) (Call_Connect (connect_options s)) = None"
    and "nats_answer w (nats_tick w + 1) (registration s) = None"
    and "nats_answer w (nats_tick w + 2) (subscription s) = None"
  shows "lifespan_connect s w = (Inr (), yielded s w)"
proof -
  let ?w0 = "w\<lparr>nats_connected := False\<rparr>"
  let ?w1 = "tried s True ?w0"
  have reg: "nats_setup s ?w1 = (Inr (), called [registration s] 1 ?w1)"
    using assms(3,5)
    by (simp add: nats_setup_def setup_streams_def setup_consumers_def prog_simps)
      (subst setup_attempts.simps, simp add: prog_simps add_consumer_run)
  have "nats_connect s ?w0 = (Inr (), ?w1)" using assms(1,4) by (subst connect_run) (simp_all add: is_connected_def)
  then show ?thesis
    using reg assms(2,6)
    by (simp add: lifespan_connect_def prog_simps consumer_start_def is_running_def get_jetstream_def is_connected_def
        nats_call_run tried_def called_def yielded_def numeral_2_eq_2 nats_world.defs)
qed


lemma stop_run:
  fixes w :: "'x lifespan_world_scheme"
  shows "consumer_stop w =
    (case consumer_task w of
       Some (Task_Ended e) \<Rightarrow> if isinstance e CancelledError then Inr () else Inl e
     | _ \<Rightarrow> Inr (),
     if consumer_task w = None then w else w\<lparr>consumer_task := None, consumer_subscription := False\<rparr>)"
  by (auto simp: consumer_stop_def prog_simps finallyM_def split: option.split consumer_task.split)

lemma metrics_close_run:
  assumes "metrics_answer w = (\<lambda>_. None)" "\<not> mt_closed m"
  shows "MetricsRuntime_close m w =
    (Inr (), w\<lparr>metrics := Some (m\<lparr>mt_closed := True\<rparr>),
       metrics_calls := metrics_calls w @ [Server_Shutdown, Server_Close, Thread_Join]\<rparr>)"
  using assms by (simp add: MetricsRuntime_close_def metrics_call_def prog_simps)

text \<open>The world at the \<open>yield\<close> of an uneventful start, with the metrics server of the environment.\<close>

definition in_production :: "ucd \<Rightarrow> pystr \<Rightarrow> bool" where
  "in_production u environment \<longleftrightarrow> py_lower u environment = lit ''production''"

definition with_metrics :: "bool \<Rightarrow> 'x lifespan_world_scheme \<Rightarrow> 'x lifespan_world_scheme" where
  "with_metrics b w =
     (if b then w\<lparr>metrics := Some \<lparr>mt_closed = False\<rparr>, metrics_calls := metrics_calls w @ [Start_Http_Server 9000]\<rparr>
      else w\<lparr>metrics := None\<rparr>)"

lemma with_metrics_sel [simp]:
  "nats_connected (with_metrics b w) = nats_connected w" "nats_connection (with_metrics b w) = nats_connection w"
  "nats_answer (with_metrics b w) = nats_answer w" "nats_calls (with_metrics b w) = nats_calls w"
  "engine_disposed (with_metrics b w) = engine_disposed w" "metrics_answer (with_metrics b w) = metrics_answer w"
  "metrics (with_metrics b w) = (if b then Some \<lparr>mt_closed = False\<rparr> else None)"
  "metrics_calls (with_metrics b w) = metrics_calls w @ (if b then [Start_Http_Server 9000] else [])"
  "is_connected (with_metrics b w) = is_connected w" "consumer_task (with_metrics b w) = consumer_task w"
  by (simp_all add: with_metrics_def is_connected_def)

lemma metrics_run:
  assumes "metrics_answer w = (\<lambda>_. None)"
  shows "lifespan_metrics u environment w = (Inr (), with_metrics (in_production u environment) w)"
  using assms metrics_off [of u environment w] metrics_on [of u environment w]
  by (simp add: in_production_def with_metrics_def)

lemma lifespan_run:
  assumes "lifespan_connect s w = (Inr (), w1)" "metrics_answer w1 = (\<lambda>_. None)"
    and "serving (with_metrics (in_production u environment) w1) = (r, w2)"
  shows "lifespan u s environment serving w =
    (case lifespan_shutdown w2 of (Inl e, w3) \<Rightarrow> (Inl e, w3) | (Inr _, w3) \<Rightarrow> (r, w3))"
  using assms by (simp add: lifespan_def prog_simps metrics_run finallyM_def)

text \<open>The calls a runtime of the metrics server gets over the life of the process.\<close>

definition metrics_life :: "bool \<Rightarrow> metrics_call list" where
  "metrics_life b = (if b then [Start_Http_Server 9000, Server_Shutdown, Server_Close, Thread_Join] else [])"

lemma shutdown_disconnected:
  fixes w :: "'x lifespan_world_scheme"
  assumes "\<not> nats_connected w" "metrics w = (if b then Some \<lparr>mt_closed = False\<rparr> else None)"
    and "metrics_calls w = ms @ (if b then [Start_Http_Server 9000] else [])" "metrics_answer w = (\<lambda>_. None)"
  shows "\<exists>w'. lifespan_shutdown w = (Inr (), w') \<and> engine_disposed w' \<and> metrics_calls w' = ms @ metrics_life b \<and>
    nats_connection w' = nats_connection w \<and> nats_calls w' = nats_calls w \<and> consumer_task w' = consumer_task w"
  using assms
  by (cases b) (auto simp: lifespan_shutdown_def close_database_def prog_simps metrics_close_run metrics_life_def)

lemma shutdown_connected:
  fixes w :: "'x lifespan_world_scheme"
  assumes "nats_connected w" "metrics w = (if b then Some \<lparr>mt_closed = False\<rparr> else None)"
    and "metrics_calls w = ms @ (if b then [Start_Http_Server 9000] else [])" "metrics_answer w = (\<lambda>_. None)"
    and "nats_connection w = Some \<lparr>nc_is_connected = up, nc_is_closed = False\<rparr>" "\<And>t. nats_answer w t Call_Drain = None"
  shows "\<exists>r w'. lifespan_shutdown w = (r, w') \<and> consumer_task w' = None \<and>
    (case consumer_task w of
       Some (Task_Ended e) \<Rightarrow>
         if isinstance e CancelledError
         then r = Inr () \<and> nats_connection w' = None \<and> nats_calls w' = nats_calls w @ [Call_Drain] \<and>
           engine_disposed w' \<and> metrics_calls w' = ms @ metrics_life b
         else r = Inl e \<and> nats_connection w' = nats_connection w \<and> nats_calls w' = nats_calls w \<and>
           engine_disposed w' = engine_disposed w \<and> metrics_calls w' = metrics_calls w
     | _ \<Rightarrow> r = Inr () \<and> nats_connection w' = None \<and> nats_calls w' = nats_calls w @ [Call_Drain] \<and>
         engine_disposed w' \<and> metrics_calls w' = ms @ metrics_life b)"
  using assms
  by (cases b) (auto simp: lifespan_shutdown_def close_database_def prog_simps metrics_close_run metrics_life_def
      stop_run close_run called_def split: option.split consumer_task.split)


section \<open>Properties\<close>

text \<open>
  C22. Shutdown lets everything go, unless the consumer had failed.  After an uneventful start the
  connection is drained and gone, the task is stopped, the pool is disposed and the metrics server
  of a production process is shut down, closed and joined once, whichever way the serving ended, and
  its outcome is the outcome of the process.  But when the task had ended with an exception of its
  own, stopping it raises that one: the connection is not drained and neither the pool nor the
  metrics server is released.
\<close>

theorem shutdown_lets_go:
  fixes w :: "'x lifespan_world_scheme" and u :: ucd and environment :: pystr and s :: nats_settings
  defines "b \<equiv> in_production u environment"
  assumes "\<not> is_connected w" "\<not> is_running w" "1 \<le> nats_setup_max_attempts s"
    and "nats_answer w (nats_tick w) (Call_Connect (connect_options s)) = None"
    and "nats_answer w (nats_tick w + 1) (registration s) = None"
    and "nats_answer w (nats_tick w + 2) (subscription s) = None"
    and "metrics_answer w = (\<lambda>_. None)" "\<And>t. nats_answer w2 t Call_Drain = None"
    and "serving (with_metrics b (yielded s w)) = (r, w2)" "same_lifespan (with_metrics b (yielded s w)) w2"
    and "nats_connection w2 = nats_connection (yielded s w)"
  shows "case lifespan u s environment serving w of (r', w') \<Rightarrow>
    consumer_task w' = None \<and>
    (if \<exists>e. consumer_task w2 = Some (Task_Ended e) \<and> \<not> isinstance e CancelledError
     then (\<exists>e. consumer_task w2 = Some (Task_Ended e) \<and> r' = Inl e) \<and> is_connected w' \<and>
       nats_calls w' = nats_calls w2 \<and> engine_disposed w' = engine_disposed w \<and>
       metrics_calls w' = metrics_calls w @ (if b then [Start_Http_Server 9000] else [])
     else r' = r \<and> nats_connection w' = None \<and> nats_calls w' = nats_calls w2 @ [Call_Drain] \<and>
       engine_disposed w' \<and> metrics_calls w' = metrics_calls w @ metrics_life b)"
proof -
  note start = connect_answered [OF assms(2-7)]
  have same: "metrics_answer (yielded s w) = (\<lambda>_. None)" "nats_connected (yielded s w)"
    "metrics_calls (yielded s w) = metrics_calls w" "engine_disposed (yielded s w) = engine_disposed w"
    "nats_connection (yielded s w) = Some \<lparr>nc_is_connected = True, nc_is_closed = False\<rparr>"
    using assms(8) by (simp_all add: yielded_def tried_def called_def)
  have w2: "nats_connected w2" "metrics w2 = (if b then Some \<lparr>mt_closed = False\<rparr> else None)"
    "metrics_calls w2 = metrics_calls w @ (if b then [Start_Http_Server 9000] else [])" "metrics_answer w2 = (\<lambda>_. None)"
    "nats_connection w2 = Some \<lparr>nc_is_connected = True, nc_is_closed = False\<rparr>"
    "engine_disposed w2 = engine_disposed w"
    using assms(11,12) same by (simp_all add: same_lifespan_def)
  obtain r3 w3 where down: "lifespan_shutdown w2 = (r3, w3)" by (cases "lifespan_shutdown w2")
  note run = lifespan_run [where serving = serving, OF start same(1) assms(10) [unfolded b_def]]
  from shutdown_connected [OF w2(1-5) assms(9)] show ?thesis
    by (auto simp: run down w2(5,6) w2(3) is_connected_def split: option.splits consumer_task.splits if_splits)
qed

text \<open>
  Degraded mode.  When the broker cannot be reached, with any error of the operating system, the
  process serves all the same, with no consumer; its outcome is that of the serving, the broker gets
  no call but the one attempt to connect, and the pool and the metrics server are released.  Any
  other error of the connection ends the process before it served.
\<close>

theorem degraded_mode:
  fixes w :: "'x lifespan_world_scheme" and u :: ucd and environment :: pystr and s :: nats_settings
  defines "w1 \<equiv> with_metrics (in_production u environment) (tried s False (w\<lparr>nats_connected := False\<rparr>))"
  assumes "\<not> is_connected w" "\<not> is_running w" "metrics_answer w = (\<lambda>_. None)"
    and "nats_answer w (nats_tick w) (Call_Connect (connect_options s)) = Some e"
    and "serving w1 = (r, w2)" "same_lifespan w1 w2" "nats_calls w2 = nats_calls w1"
  shows "case lifespan u s environment serving w of (r', w') \<Rightarrow>
    nats_calls w' = nats_calls w @ [Call_Connect (connect_options s)] \<and>
    (if isinstance e PyOSError
     then r' = r \<and> \<not> is_running w1 \<and> consumer_task w' = consumer_task w2 \<and> engine_disposed w' \<and>
       metrics_calls w' = metrics_calls w @ metrics_life (in_production u environment)
     else r' = Inl e \<and> engine_disposed w' = engine_disposed w \<and> metrics_calls w' = metrics_calls w)"
proof -
  let ?w0 = "w\<lparr>nats_connected := False\<rparr>"
  have tried: "metrics_calls (tried s up v) = metrics_calls v" "metrics_answer (tried s up v) = metrics_answer v"
    "engine_disposed (tried s up v) = engine_disposed v" for up and v :: "'x lifespan_world_scheme"
    by (simp_all add: tried_def called_def)
  have conn: "nats_connect s ?w0 = (Inl e, tried s False ?w0)"
    using assms(2,5) by (subst connect_run) (simp_all add: is_connected_def)
  have oserr: "list_ex (isinstance e) [ConnectionRefusedError, PyOSError] \<longleftrightarrow> isinstance e PyOSError"
    by (cases e; cases "exn_class e") (auto simp: isinstance_def)
  show ?thesis
  proof (cases "isinstance e PyOSError")
    case True
    then have start: "lifespan_connect s w = (Inr (), tried s False ?w0)"
      using oserr by (simp add: lifespan_connect_def prog_simps conn)
    have w2: "\<not> nats_connected w2"
      "metrics w2 = (if in_production u environment then Some \<lparr>mt_closed = False\<rparr> else None)"
      "metrics_calls w2 = metrics_calls w @ (if in_production u environment then [Start_Http_Server 9000] else [])"
      "metrics_answer w2 = (\<lambda>_. None)"
      using assms(7) assms(4) by (simp_all add: same_lifespan_def w1_def tried)
    have m: "metrics_answer (tried s False ?w0) = (\<lambda>_. None)" using assms(4) by (simp add: tried)
    note run = lifespan_run [where serving = serving, OF start m assms(6) [unfolded w1_def]]
    have "\<not> is_running w1" using assms(3) by (simp add: w1_def is_running_def)
    moreover have "nats_calls w2 = nats_calls w @ [Call_Connect (connect_options s)]" using assms(8) by (simp add: w1_def)
    ultimately show ?thesis using shutdown_disconnected [OF w2] True by (auto simp: run)
  next
    case False
    then have "lifespan_connect s w = (Inl e, tried s False ?w0)"
      using oserr by (simp add: lifespan_connect_def prog_simps conn)
    then show ?thesis using False by (simp add: lifespan_def prog_simps tried)
  qed
qed

text \<open>
  C24. A start that fails half-way leaves its connection behind.  When the connection stands and the
  registration of the durable fails, the process knows of no connection: with an error of the
  operating system (the time-outs of the broker are) it serves and then ends without draining or
  closing it, with any other error it ends at once, and the pool is not released either.
\<close>

theorem half_started_connection_is_left:
  fixes w :: "'x lifespan_world_scheme" and u :: ucd and environment :: pystr and s :: nats_settings
  defines "w0 \<equiv> tried s True (w\<lparr>nats_connected := False\<rparr>)"
  assumes "\<not> is_connected w" "metrics_answer w = (\<lambda>_. None)"
    and "nats_answer w (nats_tick w) (Call_Connect (connect_options s)) = None"
    and "nats_setup s w0 = (Inl e, w1)"
    and "serving (with_metrics (in_production u environment) w1) = (r, w2)"
    and "same_lifespan (with_metrics (in_production u environment) w1) w2"
    and "nats_connection w2 = nats_connection w1" "nats_calls w2 = nats_calls w1"
  shows "case lifespan u s environment serving w of (r', w') \<Rightarrow>
    is_connected w' \<and> (\<exists>cs. nats_calls w' = nats_calls w @ cs \<and> Call_Drain \<notin> set cs \<and> Call_Close \<notin> set cs) \<and>
    (if isinstance e PyOSError then r' = r \<and> engine_disposed w'
     else r' = Inl e \<and> engine_disposed w' = engine_disposed w)"
proof -
  let ?w0 = "w\<lparr>nats_connected := False\<rparr>"
  have conn: "nats_connect s ?w0 = (Inr (), w0)"
    using assms(2,4) by (subst connect_run) (simp_all add: is_connected_def w0_def)
  have "only_calls w0 w1" using setup_only [of w0 s] assms(5) by simp
  then obtain cs n where w1: "w1 = called cs n w0" and cs: "\<forall>c \<in> set cs. \<not> quits c" by (auto simp: only_calls_def)
  have sel: "\<not> nats_connected w1" "metrics_calls w1 = metrics_calls w" "metrics_answer w1 = (\<lambda>_. None)"
    "engine_disposed w1 = engine_disposed w" "nats_connection w1 = Some \<lparr>nc_is_connected = True, nc_is_closed = False\<rparr>"
    "nats_calls w1 = nats_calls w @ Call_Connect (connect_options s) # cs"
    using assms(3) by (simp_all add: w1 w0_def tried_def called_def)
  have quiet: "Call_Drain \<notin> set (Call_Connect (connect_options s) # cs)" "Call_Close \<notin> set (Call_Connect (connect_options s) # cs)"
    using cs by (auto simp: quits_def)
  have oserr: "list_ex (isinstance e) [ConnectionRefusedError, PyOSError] \<longleftrightarrow> isinstance e PyOSError"
    by (cases e; cases "exn_class e") (auto simp: isinstance_def)
  show ?thesis
  proof (cases "isinstance e PyOSError")
    case True
    then have start: "lifespan_connect s w = (Inr (), w1)"
      using oserr by (simp add: lifespan_connect_def prog_simps conn assms(5))
    have w2: "\<not> nats_connected w2"
      "metrics w2 = (if in_production u environment then Some \<lparr>mt_closed = False\<rparr> else None)"
      "metrics_calls w2 = metrics_calls w @ (if in_production u environment then [Start_Http_Server 9000] else [])"
      "metrics_answer w2 = (\<lambda>_. None)"
      using assms(7) sel by (simp_all add: same_lifespan_def)
    note run = lifespan_run [where serving = serving, OF start sel(3) assms(6)]
    from shutdown_disconnected [OF w2] True quiet show ?thesis
      by (auto simp: run is_connected_def assms(8,9) sel(5,6))
  next
    case False
    then have "lifespan_connect s w = (Inl e, w1)"
      using oserr by (simp add: lifespan_connect_def prog_simps conn assms(5))
    then show ?thesis using False quiet by (auto simp: lifespan_def prog_simps is_connected_def sel)
  qed
qed

end
