(* ===== verification/Sentry_Filter.thy ===== *)
theory Sentry_Filter
  imports Settings
begin

text \<open>
  \<open>utils/configure_sentry.py\<close>: the filter every event passes before it leaves for Sentry, and when the
  client is set up at all.

  An event is a value of Python's containers.  A dictionary is an association list (its keys are
  pairwise different), a key a string or anything else, known by its \<open>str()\<close>; what is neither a
  dictionary nor a list (a tuple among them) is passed on as it is.
\<close>

section \<open>Events\<close>

datatype py_key = Key_Str pystr | Key_Other pystr

definition key_str :: "py_key \<Rightarrow> pystr" where
  "key_str k = (case k of Key_Str s \<Rightarrow> s | Key_Other s \<Rightarrow> s)"

datatype py_value =
    Py_Dict "(py_key \<times> py_value) list" | Py_List "py_value list" | Py_Tuple "py_value list"
  | Py_Str pystr | Py_None | Py_Other nat

section \<open>The filter\<close>

definition sensitive_keys :: "pystr list" where
  "sensitive_keys =
     [lit ''authorization'', lit ''cookie'', lit ''cookies'', lit ''service_key'', lit ''service-key'',
      lit ''x-service-key'', lit ''password'', lit ''postgres_password'', lit ''vk_group_token'', lit ''dsn'']"

text \<open>\<open>s.replace("-", "_")\<close>\<close>

definition dashes_to_underscores :: "pystr \<Rightarrow> pystr" where
  "dashes_to_underscores s = map (\<lambda>c. if c = 45 then 95 else c) s"

definition is_sensitive :: "ucd \<Rightarrow> py_key \<Rightarrow> bool" where
  "is_sensitive u k \<longleftrightarrow>
     dashes_to_underscores (py_lower u (key_str k)) \<in> set (map dashes_to_underscores sensitive_keys)"

definition is_body :: "ucd \<Rightarrow> py_key \<Rightarrow> bool" where
  "is_body u k \<longleftrightarrow> py_lower u (key_str k) \<in> {lit ''data'', lit ''body''}"

definition Filtered :: py_value where
  "Filtered = Py_Str (lit ''[Filtered]'')"

fun sanitize :: "ucd \<Rightarrow> py_value \<Rightarrow> py_value" where
  "sanitize u (Py_Dict items) =
     Py_Dict
       (map (\<lambda>(k, v). (k, if is_sensitive u k then Filtered else sanitize u v))
         (filter (\<lambda>(k, v). \<not> is_body u k) items))"
| "sanitize u (Py_List xs) = Py_List (map (sanitize u) xs)"
| "sanitize u v = v"

definition before_send :: "ucd \<Rightarrow> py_value \<Rightarrow> py_value" where
  "before_send u event = sanitize u event"

section \<open>Setting up the client\<close>

record sentry_init =
  si_dsn :: pystr
  si_environment :: pystr
  si_release :: "pystr option"
  si_traces_sample_rate :: py_float
  si_send_default_pii :: bool
  si_max_request_body_size :: pystr
  si_ignored_loggers :: "pystr list"

definition configure_sentry :: "sentry_settings \<Rightarrow> sentry_init option" where
  "configure_sentry config =
     (if \<not> sentry_enabled config then None
      else Some
        \<lparr>si_dsn = sentry_dsn config, si_environment = sentry_environment config,
         si_release = sentry_release config, si_traces_sample_rate = sentry_traces_sample_rate config,
         si_send_default_pii = False, si_max_request_body_size = lit ''never'',
         si_ignored_loggers = [lit ''nats.aio.client'', lit ''vkbottle'']\<rparr>)"

section \<open>Reading an event\<close>

text \<open>A place in an event: the keys and indexes that lead to it through dictionaries and lists.\<close>

datatype place = At_Key py_key | At_Index nat

fun look :: "place list \<Rightarrow> py_value \<Rightarrow> py_value option" where
  "look [] v = Some v"
| "look (At_Key k # p) (Py_Dict items) = (case map_of items k of None \<Rightarrow> None | Some v \<Rightarrow> look p v)"
| "look (At_Index i # p) (Py_List xs) = (if i < length xs then look p (xs ! i) else None)"
| "look (_ # p) _ = None"

text \<open>
  The reference: what may be seen at a place of the filtered event, by the keys on the way to it.
\<close>

fun visible :: "ucd \<Rightarrow> place list \<Rightarrow> py_value \<Rightarrow> py_value option" where
  "visible u [] v = Some (sanitize u v)"
| "visible u (At_Key k # p) v =
     (if is_body u k then None
      else if is_sensitive u k then (if p = [] \<and> look [At_Key k] v \<noteq> None then Some Filtered else None)
      else (case look [At_Key k] v of None \<Rightarrow> None | Some x \<Rightarrow> visible u p x))"
| "visible u (At_Index i # p) v = (case look [At_Index i] v of None \<Rightarrow> None | Some x \<Rightarrow> visible u p x)"

fun cuts :: "ucd \<Rightarrow> place \<Rightarrow> bool" where
  "cuts u (At_Key k) \<longleftrightarrow> is_body u k \<or> is_sensitive u k"
| "cuts u (At_Index i) \<longleftrightarrow> False"

fun is_leaf :: "py_value \<Rightarrow> bool" where
  "is_leaf (Py_Dict _) \<longleftrightarrow> False"
| "is_leaf (Py_List _) \<longleftrightarrow> False"
| "is_leaf _ \<longleftrightarrow> True"

lemma look_Filtered: "look p Filtered = (if p = [] then Some Filtered else None)"
  by (cases p rule: list.exhaust; cases "hd p") (auto simp: Filtered_def)

lemma map_of_sanitized:
  "map_of (map (\<lambda>(k, v). (k, if is_sensitive u k then Filtered else sanitize u v)) (filter (\<lambda>(k, v). \<not> is_body u k) items)) k =
    (if is_body u k then None
     else map_option (\<lambda>v. if is_sensitive u k then Filtered else sanitize u v) (map_of items k))"
  by (induction items) auto

lemma look_sanitize: "look p (sanitize u v) = visible u p v"
proof (induction p arbitrary: v)
  case (Cons x p)
  show ?case
  proof (cases x)
    case (At_Key k)
    then show ?thesis
      using Cons.IH
      by (cases v) (auto simp: map_of_sanitized look_Filtered split: option.splits)
  next
    case (At_Index i)
    then show ?thesis using Cons.IH by (cases v) auto
  qed
qed simp

lemma look_append: "look (p @ q) v = (case look p v of None \<Rightarrow> None | Some x \<Rightarrow> look q x)"
  by (induction p v rule: look.induct) (auto split: option.splits)

lemma sanitize_leaf: "is_leaf v \<Longrightarrow> sanitize u v = v"
  by (cases v) auto

lemma is_leaf_sanitize: "is_leaf (sanitize u v) = is_leaf v"
  by (cases v) auto

lemma visible_leaf:
  assumes "is_leaf x"
  shows "visible u p v = Some x \<longleftrightarrow>
    (if list_ex (cuts u) p
     then x = Filtered \<and> look p v \<noteq> None \<and> \<not> list_ex (cuts u) (butlast p) \<and>
       (\<exists>k. last p = At_Key k \<and> is_sensitive u k \<and> \<not> is_body u k)
     else look p v = Some x)"
proof (induction p arbitrary: v)
  case Nil
  have "sanitize u v = x \<longleftrightarrow> v = x"
    using assms sanitize_leaf [of v u] sanitize_leaf [of x u] is_leaf_sanitize [of u v] by auto
  then show ?case by simp
next
  case (Cons y p)
  have step: "look (y # p) v = (case look [y] v of None \<Rightarrow> None | Some z \<Rightarrow> look p z)"
    using look_append [of "[y]" p v] by simp
  show ?case
  proof (cases "look [y] v")
    case None
    then have "look (y # p) v = None" "visible u (y # p) v = None" by (simp add: step, cases y, auto)
    then show ?thesis by simp
  next
    case (Some z)
    then have look: "look (y # p) v = look p z" by (simp add: step)
    show ?thesis
    proof (cases "cuts u y")
      case True
      then obtain k where k: "y = At_Key k" "is_body u k \<or> is_sensitive u k" by (cases y) auto
      with Some have "visible u (y # p) v = (if p = [] \<and> \<not> is_body u k then Some Filtered else None)" by auto
      then show ?thesis using k look Some by (cases p) auto
    next
      case False
      with Some have "visible u (y # p) v = visible u p z" by (cases y) auto
      then show ?thesis using False Cons.IH [of z] look by (cases p) auto
    qed
  qed
qed

section \<open>Properties\<close>

text \<open>
  C28. What leaves for Sentry is exactly what the keys allow.  A value that is no container is found at a
  place of the filtered event precisely when it is the value at this place of the event itself and
  no key on the way is sensitive or names a body, or when it is the mark \<open>[Filtered]\<close> and stands for
  whatever the event has under a sensitive key.  Filtering again changes nothing.
\<close>

theorem before_send_exact:
  "(\<forall>p x. is_leaf x \<longrightarrow>
     (look p (before_send u event) = Some x \<longleftrightarrow>
      (if list_ex (cuts u) p
       then x = Filtered \<and> look p event \<noteq> None \<and> \<not> list_ex (cuts u) (butlast p) \<and>
         (\<exists>k. last p = At_Key k \<and> is_sensitive u k \<and> \<not> is_body u k)
       else look p event = Some x))) \<and>
   before_send u (before_send u event) = before_send u event"
proof -
  have "sanitize u (sanitize u v) = sanitize u v" for v
  proof (induction u v rule: sanitize.induct)
    case (1 u items)
    have *: "filter (\<lambda>(k, v). \<not> is_body u k) (map (\<lambda>(k, v). (k, f k v)) xs) =
        map (\<lambda>(k, v). (k, f k v)) (filter (\<lambda>(k, v). \<not> is_body u k) xs)" for f and xs :: "(py_key \<times> py_value) list"
      by (induction xs) auto
    show ?case using 1 by (auto simp: * Filtered_def)
  qed auto
  then show ?thesis by (simp add: before_send_def look_sanitize visible_leaf)
qed

text \<open>
  A tuple is not looked into: what it holds under a sensitive key leaves as it is.
\<close>

lemma tuples_are_passed_on:
  "before_send u (Py_Tuple [Py_Dict [(Key_Str (lit ''password''), x)]]) = Py_Tuple [Py_Dict [(Key_Str (lit ''password''), x)]]"
  by (simp add: before_send_def)

end
