(* ===== verification/Schema.thy ===== *)
theory Schema
  imports Prelude
begin

text \<open>
  The schema of the database: the tables as \<open>models/\<close> declares them and the migrations of
  \<open>migration/versions\<close> that create them.

  A table is its columns, constraints and indexes; the conditions the source writes as SQL text
  (\<open>deleted_at IS NULL\<close>, \<open>status IN (...)\<close>) are small expressions.  A migration operation is checked
  as PostgreSQL checks it: a table that exists is not created again, an index name is used once, a
  foreign key needs the table it points to, and a table others point to is not dropped.
\<close>

section \<open>Tables\<close>

datatype sql_type = T_UUID | T_BigInteger | T_Integer | T_String nat | T_DateTime | T_JSONB

datatype sql_default = D_Random_Uuid | D_Now | D_Str string | D_Int int

datatype sql_expr =
    E_Is_Null string | E_Is_Not_Null string | E_And sql_expr sql_expr | E_In string "string list" | E_At_Least string int

record column =
  co_name :: string
  co_type :: sql_type
  co_primary_key :: bool
  co_nullable :: bool
  co_default :: "sql_default option"

datatype table_constraint =
    Foreign_Key string string string | Unique "string list" | Check sql_expr

record table_index =
  ix_name :: string
  ix_columns :: "string list"
  ix_unique :: bool
  ix_where :: "sql_expr option"

record table =
  tb_name :: string
  tb_columns :: "column list"
  tb_constraints :: "(string \<times> table_constraint) list"
  tb_indexes :: "table_index list"

type_synonym schema = "table list"

definition id_column :: column where
  "id_column =
     \<lparr>co_name = ''id'', co_type = T_UUID, co_primary_key = True, co_nullable = False, co_default = Some D_Random_Uuid\<rparr>"

definition plain_column :: "string \<Rightarrow> sql_type \<Rightarrow> bool \<Rightarrow> column" where
  "plain_column n t nullable =
     \<lparr>co_name = n, co_type = t, co_primary_key = False, co_nullable = nullable, co_default = None\<rparr>"

definition defaulted_column :: "string \<Rightarrow> sql_type \<Rightarrow> sql_default \<Rightarrow> column" where
  "defaulted_column n t d =
     \<lparr>co_name = n, co_type = t, co_primary_key = False, co_nullable = False, co_default = Some d\<rparr>"

definition make_index :: "string \<Rightarrow> string list \<Rightarrow> bool \<Rightarrow> sql_expr option \<Rightarrow> table_index" where
  "make_index n cs u p = \<lparr>ix_name = n, ix_columns = cs, ix_unique = u, ix_where = p\<rparr>"

section \<open>The models\<close>

text \<open>
  The arguments of \<open>Table\<close> in the source mix columns, constraints and indexes; a foreign key is an
  argument of its column.  An unnamed constraint has the empty name.
\<close>

datatype table_item =
    Column column | Column_Ref column string string | Constraint string table_constraint | Index table_index

fun item_columns :: "table_item \<Rightarrow> column list" where
  "item_columns (Column c) = [c]"
| "item_columns (Column_Ref c t d) = [c]"
| "item_columns _ = []"

fun item_constraints :: "table_item \<Rightarrow> (string \<times> table_constraint) list" where
  "item_constraints (Column_Ref c t d) = [('''', Foreign_Key (co_name c) t d)]"
| "item_constraints (Constraint n k) = [(n, k)]"
| "item_constraints _ = []"

fun item_indexes :: "table_item \<Rightarrow> table_index list" where
  "item_indexes (Index i) = [i]"
| "item_indexes _ = []"

definition Table :: "string \<Rightarrow> table_item list \<Rightarrow> table" where
  "Table n items =
     \<lparr>tb_name = n, tb_columns = concat (map item_columns items),
      tb_constraints = concat (map item_constraints items), tb_indexes = concat (map item_indexes items)\<rparr>"

definition user_vks_table :: table where
  "user_vks_table =
     Table ''user_vks''
       [Column id_column,
        Column (plain_column ''user_id'' T_UUID False),
        Column (plain_column ''vk_peer_id'' T_BigInteger True),
        Column (defaulted_column ''state'' (T_String 16) (D_Str ''PENDING'')),
        Column (plain_column ''vk_screen_name'' (T_String 64) True),
        Column (plain_column ''vk_display_name'' (T_String 255) True),
        Column (plain_column ''deleted_at'' T_DateTime True),
        Column (defaulted_column ''created_at'' T_DateTime D_Now),
        Column (defaulted_column ''updated_at'' T_DateTime D_Now),
        Index (make_index ''uq_user_vks_user_id_active'' [''user_id''] True (Some (E_Is_Null ''deleted_at''))),
        Index (make_index ''uq_user_vks_peer_id_active'' [''vk_peer_id''] True
          (Some (E_And (E_Is_Null ''deleted_at'') (E_Is_Not_Null ''vk_peer_id'')))),
        Index (make_index ''ix_user_vks_state'' [''state''] False None)]"

definition vk_confirmations_table :: table where
  "vk_confirmations_table =
     Table ''vk_confirmations''
       [Column id_column,
        Column_Ref (plain_column ''user_vk_id'' T_UUID False) ''user_vks'' ''id'',
        Column (plain_column ''code'' (T_String 16) False),
        Column (plain_column ''expires_at'' T_DateTime False),
        Column (defaulted_column ''created_at'' T_DateTime D_Now),
        Column (plain_column ''used_at'' T_DateTime True),
        Index (make_index ''ix_vk_confirmations_code'' [''code''] True None),
        Index (make_index ''ix_vk_confirmations_user_vk_id'' [''user_vk_id''] False None)]"

definition vk_logs_table :: table where
  "vk_logs_table =
     Table ''vk_logs''
       [Column id_column,
        Column (plain_column ''event_uuid'' T_UUID False),
        Column (plain_column ''action'' (T_String 64) False),
        Column (plain_column ''status'' (T_String 32) False),
        Column (plain_column ''details'' T_JSONB True),
        Column (defaulted_column ''created_at'' T_DateTime D_Now),
        Index (make_index ''ix_vk_logs_event_uuid'' [''event_uuid''] True None),
        Index (make_index ''ix_vk_logs_action'' [''action''] False None),
        Index (make_index ''ix_vk_logs_created_at'' [''created_at''] False None)]"

definition vk_notification_deliveries_table :: table where
  "vk_notification_deliveries_table =
     Table ''vk_notification_deliveries''
       [Column id_column,
        Column (plain_column ''event_uuid'' T_UUID False),
        Column (plain_column ''user_id'' T_UUID False),
        Column (plain_column ''vk_peer_id'' T_BigInteger False),
        Column (defaulted_column ''status'' (T_String 16) (D_Str ''PENDING'')),
        Column (defaulted_column ''attempts'' T_Integer (D_Int 0)),
        Column (plain_column ''last_error'' (T_String 64) True),
        Column (defaulted_column ''created_at'' T_DateTime D_Now),
        Column (defaulted_column ''updated_at'' T_DateTime D_Now),
        Column (plain_column ''sent_at'' T_DateTime True),
        Constraint ''uq_vk_notification_deliveries_event_user'' (Unique [''event_uuid'', ''user_id'']),
        Constraint ''ck_vk_notification_deliveries_status'' (Check (E_In ''status'' [''PENDING'', ''SENT'', ''FAILED''])),
        Constraint ''ck_vk_notification_deliveries_attempts'' (Check (E_At_Least ''attempts'' 0)),
        Index (make_index ''ix_vk_notification_deliveries_status'' [''status''] False None)]"

text \<open>\<open>metadata\<close>: every table of the models.\<close>

definition models_schema :: schema where
  "models_schema = [user_vks_table, vk_confirmations_table, vk_logs_table, vk_notification_deliveries_table]"

section \<open>Migration operations\<close>

datatype migration_op =
    Create_Table string "column list" "(string \<times> table_constraint) list"
  | Create_Index string string "string list" bool "sql_expr option"
  | Drop_Index string string
  | Drop_Table string

definition index_names :: "schema \<Rightarrow> string list" where
  "index_names s = concat (map (\<lambda>t. map ix_name (tb_indexes t)) s)"

fun points_to :: "string \<times> table_constraint \<Rightarrow> string option" where
  "points_to (n, Foreign_Key c t d) = Some t"
| "points_to _ = None"

definition references :: "table \<Rightarrow> string list" where
  "references t = List.map_filter points_to (tb_constraints t)"

text \<open>Changing the indexes of one table; \<open>None\<close> when there is no such table.\<close>

fun with_table :: "string \<Rightarrow> (table \<Rightarrow> table option) \<Rightarrow> schema \<Rightarrow> schema option" where
  "with_table n f [] = None"
| "with_table n f (t # s) =
     (if tb_name t = n then map_option (\<lambda>t'. t' # s) (f t) else map_option (Cons t) (with_table n f s))"

definition run_op :: "migration_op \<Rightarrow> schema \<Rightarrow> schema option" where
  "run_op op s =
     (case op of
        Create_Table n cs ks \<Rightarrow>
          (let t = \<lparr>tb_name = n, tb_columns = cs, tb_constraints = ks, tb_indexes = []\<rparr> in
           if n \<in> set (map tb_name s) \<or> \<not> set (references t) \<subseteq> set (map tb_name s) then None else Some (s @ [t]))
      | Create_Index i n cs u p \<Rightarrow>
          if i \<in> set (index_names s) then None
          else with_table n (\<lambda>t. Some (t\<lparr>tb_indexes := tb_indexes t @ [make_index i cs u p]\<rparr>)) s
      | Drop_Index i n \<Rightarrow>
          with_table n (\<lambda>t.
            if i \<in> set (map ix_name (tb_indexes t))
            then Some (t\<lparr>tb_indexes := filter (\<lambda>x. ix_name x \<noteq> i) (tb_indexes t)\<rparr>) else None) s
      | Drop_Table n \<Rightarrow>
          if n \<notin> set (map tb_name s) \<or> n \<in> set (concat (map references (filter (\<lambda>t. tb_name t \<noteq> n) s))) then None
          else Some (filter (\<lambda>t. tb_name t \<noteq> n) s))"

fun run_ops :: "migration_op list \<Rightarrow> schema \<Rightarrow> schema option" where
  "run_ops [] s = Some s"
| "run_ops (op # ops) s = (case run_op op s of None \<Rightarrow> None | Some s' \<Rightarrow> run_ops ops s')"

record migration =
  mg_revision :: string
  mg_down_revision :: "string option"
  mg_upgrade :: "migration_op list"
  mg_downgrade :: "migration_op list"

section \<open>The migrations\<close>

definition migration_0001_initial :: migration where
  "migration_0001_initial =
     \<lparr>mg_revision = ''20260710_0001'', mg_down_revision = None, mg_upgrade = [], mg_downgrade = []\<rparr>"

definition upgrade_0002 :: "migration_op list" where
  "upgrade_0002 =
     [Create_Table ''user_vks''
        [id_column,
         plain_column ''user_id'' T_UUID False,
         plain_column ''vk_peer_id'' T_BigInteger True,
         defaulted_column ''state'' (T_String 16) (D_Str ''PENDING''),
         plain_column ''vk_screen_name'' (T_String 64) True,
         plain_column ''vk_display_name'' (T_String 255) True,
         plain_column ''deleted_at'' T_DateTime True,
         defaulted_column ''created_at'' T_DateTime D_Now,
         defaulted_column ''updated_at'' T_DateTime D_Now] [],
      Create_Index ''uq_user_vks_user_id_active'' ''user_vks'' [''user_id''] True (Some (E_Is_Null ''deleted_at'')),
      Create_Index ''uq_user_vks_peer_id_active'' ''user_vks'' [''vk_peer_id''] True
        (Some (E_And (E_Is_Null ''deleted_at'') (E_Is_Not_Null ''vk_peer_id''))),
      Create_Index ''ix_user_vks_state'' ''user_vks'' [''state''] False None,
      Create_Table ''vk_confirmations''
        [id_column,
         plain_column ''user_vk_id'' T_UUID False,
         plain_column ''code'' (T_String 16) False,
         plain_column ''expires_at'' T_DateTime False,
         defaulted_column ''created_at'' T_DateTime D_Now,
         plain_column ''used_at'' T_DateTime True]
        [('''', Foreign_Key ''user_vk_id'' ''user_vks'' ''id'')],
      Create_Index ''ix_vk_confirmations_code'' ''vk_confirmations'' [''code''] True None,
      Create_Index ''ix_vk_confirmations_user_vk_id'' ''vk_confirmations'' [''user_vk_id''] False None,
      Create_Table ''vk_logs''
        [id_column,
         plain_column ''event_uuid'' T_UUID False,
         plain_column ''action'' (T_String 64) False,
         plain_column ''status'' (T_String 32) False,
         plain_column ''details'' T_JSONB True,
         defaulted_column ''created_at'' T_DateTime D_Now] [],
      Create_Index ''ix_vk_logs_event_uuid'' ''vk_logs'' [''event_uuid''] True None,
      Create_Index ''ix_vk_logs_action'' ''vk_logs'' [''action''] False None,
      Create_Index ''ix_vk_logs_created_at'' ''vk_logs'' [''created_at''] False None]"

definition downgrade_0002 :: "migration_op list" where
  "downgrade_0002 =
     [Drop_Index ''ix_vk_logs_created_at'' ''vk_logs'',
      Drop_Index ''ix_vk_logs_action'' ''vk_logs'',
      Drop_Index ''ix_vk_logs_event_uuid'' ''vk_logs'',
      Drop_Table ''vk_logs'',
      Drop_Index ''ix_vk_confirmations_user_vk_id'' ''vk_confirmations'',
      Drop_Index ''ix_vk_confirmations_code'' ''vk_confirmations'',
      Drop_Table ''vk_confirmations'',
      Drop_Index ''ix_user_vks_state'' ''user_vks'',
      Drop_Index ''uq_user_vks_peer_id_active'' ''user_vks'',
      Drop_Index ''uq_user_vks_user_id_active'' ''user_vks'',
      Drop_Table ''user_vks'']"

definition migration_0002_add_vk_domain :: migration where
  "migration_0002_add_vk_domain =
     \<lparr>mg_revision = ''20260827_0002'', mg_down_revision = Some ''20260710_0001'',
      mg_upgrade = upgrade_0002, mg_downgrade = downgrade_0002\<rparr>"

definition upgrade_0003 :: "migration_op list" where
  "upgrade_0003 =
     [Create_Table ''vk_notification_deliveries''
        [id_column,
         plain_column ''event_uuid'' T_UUID False,
         plain_column ''user_id'' T_UUID False,
         plain_column ''vk_peer_id'' T_BigInteger False,
         defaulted_column ''status'' (T_String 16) (D_Str ''PENDING''),
         defaulted_column ''attempts'' T_Integer (D_Int 0),
         plain_column ''last_error'' (T_String 64) True,
         defaulted_column ''created_at'' T_DateTime D_Now,
         defaulted_column ''updated_at'' T_DateTime D_Now,
         plain_column ''sent_at'' T_DateTime True]
        [(''uq_vk_notification_deliveries_event_user'', Unique [''event_uuid'', ''user_id'']),
         (''ck_vk_notification_deliveries_status'', Check (E_In ''status'' [''PENDING'', ''SENT'', ''FAILED''])),
         (''ck_vk_notification_deliveries_attempts'', Check (E_At_Least ''attempts'' 0))],
      Create_Index ''ix_vk_notification_deliveries_status'' ''vk_notification_deliveries'' [''status''] False None]"

definition downgrade_0003 :: "migration_op list" where
  "downgrade_0003 =
     [Drop_Index ''ix_vk_notification_deliveries_status'' ''vk_notification_deliveries'',
      Drop_Table ''vk_notification_deliveries'']"

definition migration_0003_add_vk_notification_deliveries :: migration where
  "migration_0003_add_vk_notification_deliveries =
     \<lparr>mg_revision = ''20260827_0003'', mg_down_revision = Some ''20260827_0002'',
      mg_upgrade = upgrade_0003, mg_downgrade = downgrade_0003\<rparr>"

definition migrations :: "migration list" where
  "migrations =
     [migration_0001_initial, migration_0002_add_vk_domain, migration_0003_add_vk_notification_deliveries]"

text \<open>The tool follows \<open>down_revision\<close> from one revision to the next.\<close>

fun chained :: "string option \<Rightarrow> migration list \<Rightarrow> bool" where
  "chained r [] \<longleftrightarrow> True"
| "chained r (m # ms) \<longleftrightarrow> mg_down_revision m = r \<and> chained (Some (mg_revision m)) ms"

definition upgrade_all :: "migration list \<Rightarrow> schema \<Rightarrow> schema option" where
  "upgrade_all ms s = run_ops (concat (map mg_upgrade ms)) s"

definition downgrade_all :: "migration list \<Rightarrow> schema \<Rightarrow> schema option" where
  "downgrade_all ms s = run_ops (concat (map mg_downgrade (rev ms))) s"

section \<open>Undoing\<close>

fun undo :: "migration_op \<Rightarrow> migration_op" where
  "undo (Create_Table n cs ks) = Drop_Table n"
| "undo (Create_Index i n cs u p) = Drop_Index i n"
| "undo op = op"

fun creates :: "migration_op \<Rightarrow> bool" where
  "creates (Create_Table n cs ks) \<longleftrightarrow> n \<notin> set (List.map_filter points_to ks)"
| "creates (Create_Index i n cs u p) \<longleftrightarrow> True"
| "creates _ \<longleftrightarrow> False"

text \<open>A schema that stands by itself: names once, and no foreign key into nowhere.\<close>

definition schema_ok :: "schema \<Rightarrow> bool" where
  "schema_ok s \<longleftrightarrow> distinct (map tb_name s) \<and> distinct (index_names s) \<and>
     (\<forall>t \<in> set s. set (references t) \<subseteq> set (map tb_name s))"

lemma run_ops_append: "run_ops (a @ b) s = (case run_ops a s of None \<Rightarrow> None | Some s' \<Rightarrow> run_ops b s')"
  by (induction a arbitrary: s) (auto split: option.split)

lemma index_names_append [simp]: "index_names (s @ t) = index_names s @ index_names t"
  by (simp add: index_names_def)

lemma with_table_Some:
  "with_table n f s = Some s' \<longleftrightarrow>
    (\<exists>a t b t'. s = a @ t # b \<and> n \<notin> set (map tb_name a) \<and> tb_name t = n \<and> f t = Some t' \<and> s' = a @ t' # b)"
  (is "_ = ?R s s'")
proof
  show "with_table n f s = Some s' \<Longrightarrow> ?R s s'"
  proof (induction s arbitrary: s')
    case (Cons t s)
    show ?case
    proof (cases "tb_name t = n")
      case True
      with Cons.prems obtain t' where "f t = Some t'" "s' = t' # s" by auto
      with True show ?thesis by (intro exI [of _ "[]"] exI [of _ t] exI [of _ s] exI [of _ t']) simp
    next
      case False
      with Cons.prems obtain s1 where s1: "with_table n f s = Some s1" "s' = t # s1" by auto
      from Cons.IH [OF s1(1)] obtain a t1 b t' where
        "s = a @ t1 # b" "n \<notin> set (map tb_name a)" "tb_name t1 = n" "f t1 = Some t'" "s1 = a @ t' # b" by blast
      with False s1(2) show ?thesis
        by (intro exI [of _ "t # a"] exI [of _ t1] exI [of _ b] exI [of _ t']) auto
    qed
  qed simp
next
  have "with_table n f (a @ t # b) = Some (a @ t' # b)"
    if "n \<notin> set (map tb_name a)" "tb_name t = n" "f t = Some t'" for a b t t'
    using that by (induction a) auto
  then show "?R s s' \<Longrightarrow> with_table n f s = Some s'" by blast
qed

lemma undo_create_table:
  assumes "schema_ok s" "run_op (Create_Table n cs ks) s = Some s'" "n \<notin> set (List.map_filter points_to ks)"
  shows "schema_ok s' \<and> run_op (Drop_Table n) s' = Some s"
proof -
  let ?t = "\<lparr>tb_name = n, tb_columns = cs, tb_constraints = ks, tb_indexes = []\<rparr>"
  have new: "n \<notin> set (map tb_name s)" and refs: "set (references ?t) \<subseteq> set (map tb_name s)" and s': "s' = s @ [?t]"
    using assms(2) by (auto simp: run_op_def Let_def split: if_splits)
  have keep: "filter (\<lambda>t. tb_name t \<noteq> n) s = s" using new by (auto simp: filter_id_conv)
  have "n \<notin> set (references t)" if "t \<in> set s" for t using assms(1) new that by (auto simp: schema_ok_def)
  then have "run_op (Drop_Table n) s' = Some s" by (simp add: run_op_def s' keep)
  moreover have "schema_ok s'"
    using assms(1) new refs by (auto simp: schema_ok_def s' index_names_def)
  ultimately show ?thesis by simp
qed

lemma undo_create_index:
  assumes "schema_ok s" "run_op (Create_Index i n cs u p) s = Some s'"
  shows "schema_ok s' \<and> run_op (Drop_Index i n) s' = Some s"
proof -
  have new: "i \<notin> set (index_names s)" using assms(2) by (auto simp: run_op_def split: if_splits)
  obtain a t b where s: "s = a @ t # b" "n \<notin> set (map tb_name a)" "tb_name t = n"
    and s': "s' = a @ t\<lparr>tb_indexes := tb_indexes t @ [make_index i cs u p]\<rparr> # b"
    using assms(2) new by (auto simp: run_op_def with_table_Some)
  have i: "i \<notin> set (map ix_name (tb_indexes t))" "i \<notin> set (index_names a)" "i \<notin> set (index_names b)"
    using new by (auto simp: s index_names_def)
  have keep: "filter (\<lambda>x. ix_name x \<noteq> i) (tb_indexes t) = tb_indexes t" using i(1) by (auto simp: filter_id_conv)
  have "schema_ok s'"
    using assms(1) i unfolding schema_ok_def s s' references_def
    by (auto simp: index_names_def make_index_def)
  moreover have "run_op (Drop_Index i n) s' = Some s"
    unfolding run_op_def migration_op.case with_table_Some s s'
    by (rule exI [of _ a], rule exI [of _ "t\<lparr>tb_indexes := tb_indexes t @ [make_index i cs u p]\<rparr>"],
        rule exI [of _ b], rule exI [of _ t]) (use s(2,3) keep in \<open>simp add: make_index_def\<close>)
  ultimately show ?thesis by simp
qed

lemma undo_op:
  assumes "creates op" "schema_ok s" "run_op op s = Some s'"
  shows "schema_ok s' \<and> run_op (undo op) s' = Some s"
proof (cases op)
  case (Create_Table n cs ks)
  then show ?thesis using undo_create_table [OF assms(2)] assms(1,3) by simp
next
  case (Create_Index i n cs u p)
  then show ?thesis using undo_create_index [OF assms(2)] assms(3) by simp
qed (use assms(1) in simp_all)

lemma undo_ops:
  assumes "list_all creates ops" "schema_ok s" "run_ops ops s = Some s'"
  shows "schema_ok s' \<and> run_ops (rev (map undo ops)) s' = Some s"
  using assms
proof (induction ops arbitrary: s)
  case (Cons op ops)
  then obtain s1 where s1: "run_op op s = Some s1" "run_ops ops s1 = Some s'" by (auto split: option.splits)
  from undo_op [OF _ Cons.prems(2) s1(1)] Cons.prems(1) have "schema_ok s1" "run_op (undo op) s1 = Some s" by auto
  with Cons.IH [OF _ this(1) s1(2)] Cons.prems(1) show ?case by (simp add: run_ops_append)
qed simp

lemma downgrade_undoes:
  "m \<in> set migrations \<Longrightarrow> mg_downgrade m = rev (map undo (mg_upgrade m)) \<and> list_all creates (mg_upgrade m)"
  by (auto simp: migrations_def migration_0001_initial_def migration_0002_add_vk_domain_def
      migration_0003_add_vk_notification_deliveries_def upgrade_0002_def downgrade_0002_def upgrade_0003_def
      downgrade_0003_def List.map_filter_simps)

lemma downgrades_undo:
  "set ms \<subseteq> set migrations \<Longrightarrow>
     concat (map mg_downgrade (rev ms)) = rev (map undo (concat (map mg_upgrade ms))) \<and>
     list_all creates (concat (map mg_upgrade ms))"
proof (induction ms)
  case (Cons m ms)
  then show ?case using downgrade_undoes [of m] by simp
qed simp

lemma migrations_upgrade: "upgrade_all migrations [] = Some models_schema"
  by code_simp

section \<open>Properties\<close>

text \<open>
  C32. The migrations make the tables of the models, and can be taken back.  The revisions form one chain;
  applied to an empty database they give exactly the tables, columns, defaults, constraints and
  indexes the models declare; and on any database they apply to, part of them or all, undoing them in
  reverse gives back the schema there was before.
\<close>

theorem migrations_make_models:
  "chained None migrations \<and> upgrade_all migrations [] = Some models_schema \<and>
   (\<forall>n s s'. schema_ok s \<longrightarrow> upgrade_all (take n migrations) s = Some s' \<longrightarrow>
      downgrade_all (take n migrations) s' = Some s)"
proof (intro conjI allI impI)
  show "chained None migrations"
    by (simp add: migrations_def migration_0001_initial_def migration_0002_add_vk_domain_def
        migration_0003_add_vk_notification_deliveries_def)
  show "upgrade_all migrations [] = Some models_schema" by (rule migrations_upgrade)
next
  fix n s s'
  assume "schema_ok s" "upgrade_all (take n migrations) s = Some s'"
  moreover have "set (take n migrations) \<subseteq> set migrations" by (rule set_take_subset)
  ultimately show "downgrade_all (take n migrations) s' = Some s"
    using downgrades_undo [of "take n migrations"] undo_ops [of "concat (map mg_upgrade (take n migrations))" s s']
    by (simp add: upgrade_all_def downgrade_all_def)
qed

end
