(* ===== verification/Schema_Enforced.thy ===== *)
theory Schema_Enforced
  imports Schema Database
begin

text \<open>
  What a schema enforces, and that it is what the tables of \<open>Database\<close> are held to.

  A row is the value of each of its columns.  \<open>admits\<close> is the meaning of the declarations: values fit
  their column types, null where the column allows it; keys and unique indexes tell rows apart, null
  never equal to anything, and a partial index looks at the rows its condition holds for; a check
  passes unless it is false; a foreign key is null or found.
\<close>

section \<open>Values and rows\<close>

datatype sql_value = V_Null | V_Uuid uuid | V_Int int | V_Str pystr | V_Time datetime | V_Json details

type_synonym sql_row = "string \<Rightarrow> sql_value"

definition row_of :: "(string \<times> sql_value) list \<Rightarrow> sql_row" where
  "row_of cells = (\<lambda>c. case map_of cells c of None \<Rightarrow> V_Null | Some v \<Rightarrow> v)"

definition nullable :: "('a \<Rightarrow> sql_value) \<Rightarrow> 'a option \<Rightarrow> sql_value" where
  "nullable f x = (case x of None \<Rightarrow> V_Null | Some y \<Rightarrow> f y)"

definition user_vk_row :: "user_vk \<Rightarrow> sql_row" where
  "user_vk_row r = row_of
     [(''id'', V_Uuid (uv_id r)), (''user_id'', V_Uuid (uv_user_id r)), (''vk_peer_id'', nullable V_Int (uv_peer_id r)),
      (''state'', V_Str (uv_state r)), (''vk_screen_name'', nullable V_Str (uv_screen_name r)),
      (''vk_display_name'', nullable V_Str (uv_display_name r)), (''deleted_at'', nullable V_Time (uv_deleted_at r)),
      (''created_at'', V_Time (uv_created_at r)), (''updated_at'', V_Time (uv_updated_at r))]"

definition vk_confirmation_row :: "vk_confirmation \<Rightarrow> sql_row" where
  "vk_confirmation_row r = row_of
     [(''id'', V_Uuid (cf_id r)), (''user_vk_id'', V_Uuid (cf_user_vk_id r)), (''code'', V_Str (cf_code r)),
      (''expires_at'', V_Time (cf_expires_at r)), (''created_at'', V_Time (cf_created_at r)),
      (''used_at'', nullable V_Time (cf_used_at r))]"

definition vk_log_row :: "vk_log \<Rightarrow> sql_row" where
  "vk_log_row r = row_of
     [(''id'', V_Uuid (lg_id r)), (''event_uuid'', V_Uuid (lg_event_uuid r)), (''action'', V_Str (lg_action r)),
      (''status'', V_Str (lg_status r)), (''details'', V_Json (lg_details r)), (''created_at'', V_Time (lg_created_at r))]"

definition vk_delivery_row :: "vk_delivery \<Rightarrow> sql_row" where
  "vk_delivery_row r = row_of
     [(''id'', V_Uuid (dl_id r)), (''event_uuid'', V_Uuid (dl_event_uuid r)), (''user_id'', V_Uuid (dl_user_id r)),
      (''vk_peer_id'', V_Int (dl_peer_id r)), (''status'', V_Str (dl_status r)), (''attempts'', V_Int (dl_attempts r)),
      (''last_error'', nullable V_Str (dl_last_error r)), (''created_at'', V_Time (dl_created_at r)),
      (''updated_at'', V_Time (dl_updated_at r)), (''sent_at'', nullable V_Time (dl_sent_at r))]"

type_synonym sql_data = "string \<Rightarrow> sql_row list"

definition data_of :: "db \<Rightarrow> sql_data" where
  "data_of d = (\<lambda>t.
     if t = ''user_vks'' then map user_vk_row (user_vks d)
     else if t = ''vk_confirmations'' then map vk_confirmation_row (vk_confirmations d)
     else if t = ''vk_logs'' then map vk_log_row (vk_logs d)
     else if t = ''vk_notification_deliveries'' then map vk_delivery_row (vk_deliveries d)
     else [])"

section \<open>What a schema admits\<close>

fun type_admits :: "sql_type \<Rightarrow> sql_value \<Rightarrow> bool" where
  "type_admits T_UUID (V_Uuid x) \<longleftrightarrow> True"
| "type_admits T_BigInteger (V_Int i) \<longleftrightarrow> fits_bigint i"
| "type_admits T_Integer (V_Int i) \<longleftrightarrow> fits_integer i"
| "type_admits (T_String n) (V_Str s) \<longleftrightarrow> fits_varchar n s"
| "type_admits T_DateTime (V_Time t) \<longleftrightarrow> True"
| "type_admits T_JSONB (V_Json j) \<longleftrightarrow> True"
| "type_admits _ _ \<longleftrightarrow> False"

definition column_admits :: "column \<Rightarrow> sql_row \<Rightarrow> bool" where
  "column_admits c r \<longleftrightarrow>
     (if r (co_name c) = V_Null then co_nullable c \<and> \<not> co_primary_key c else type_admits (co_type c) (r (co_name c)))"

text \<open>Conditions have three truth values; \<open>None\<close> is unknown.\<close>

fun holds :: "sql_expr \<Rightarrow> sql_row \<Rightarrow> bool option" where
  "holds (E_Is_Null c) r = Some (r c = V_Null)"
| "holds (E_Is_Not_Null c) r = Some (r c \<noteq> V_Null)"
| "holds (E_And a b) r =
     (case (holds a r, holds b r) of
        (Some False, _) \<Rightarrow> Some False | (_, Some False) \<Rightarrow> Some False
      | (Some True, Some True) \<Rightarrow> Some True | _ \<Rightarrow> None)"
| "holds (E_In c xs) r = (case r c of V_Null \<Rightarrow> None | V_Str s \<Rightarrow> Some (s \<in> set (map lit xs)) | _ \<Rightarrow> Some False)"
| "holds (E_At_Least c n) r = (case r c of V_Null \<Rightarrow> None | V_Int i \<Rightarrow> Some (n \<le> i) | _ \<Rightarrow> Some False)"

definition tells_apart :: "string list \<Rightarrow> sql_expr option \<Rightarrow> sql_row list \<Rightarrow> bool" where
  "tells_apart cs p rows \<longleftrightarrow>
     distinct (map (\<lambda>r. map r cs)
       (filter (\<lambda>r. (case p of None \<Rightarrow> True | Some e \<Rightarrow> holds e r = Some True) \<and> list_all (\<lambda>c. r c \<noteq> V_Null) cs) rows))"

fun constraint_admits :: "sql_data \<Rightarrow> sql_row list \<Rightarrow> table_constraint \<Rightarrow> bool" where
  "constraint_admits data rows (Foreign_Key c t d) \<longleftrightarrow>
     list_all (\<lambda>r. r c = V_Null \<or> r c \<in> set (map (\<lambda>r'. r' d) (data t))) rows"
| "constraint_admits data rows (Unique cs) \<longleftrightarrow> tells_apart cs None rows"
| "constraint_admits data rows (Check e) \<longleftrightarrow> list_all (\<lambda>r. holds e r \<noteq> Some False) rows"

definition table_admits :: "sql_data \<Rightarrow> table \<Rightarrow> bool" where
  "table_admits data t \<longleftrightarrow>
     (let rows = data (tb_name t) in
      list_all (\<lambda>r. list_all (\<lambda>c. column_admits c r) (tb_columns t)) rows \<and>
      tells_apart (map co_name (filter co_primary_key (tb_columns t))) None rows \<and>
      list_all (\<lambda>(n, k). constraint_admits data rows k) (tb_constraints t) \<and>
      list_all (\<lambda>i. ix_unique i \<longrightarrow> tells_apart (ix_columns i) (ix_where i) rows) (tb_indexes t))"

definition schema_admits :: "schema \<Rightarrow> sql_data \<Rightarrow> bool" where
  "schema_admits s data \<longleftrightarrow> list_all (table_admits data) s"

section \<open>Reading rows\<close>

lemma nullable_simps [simp]:
  "nullable f None = V_Null" "nullable f (Some x) = f x"
  by (simp_all add: nullable_def)

lemma nullable_null:
  "nullable V_Int x = V_Null \<longleftrightarrow> x = None" "nullable V_Str y = V_Null \<longleftrightarrow> y = None" "nullable V_Time z = V_Null \<longleftrightarrow> z = None"
  by (cases x; cases y; cases z; simp)+

lemma distinct_map_inj: "inj f \<Longrightarrow> distinct (map (\<lambda>x. f (g x)) xs) = distinct (map g xs)"
  using distinct_map [of f "map g xs"] inj_on_subset [of f UNIV "g ` set xs"] by (simp add: comp_def)

lemma tells_apart_map:
  assumes "inj f" "\<And>x. map (row x) cs = f (key x)"
    and "\<And>x. q x \<longleftrightarrow> (case p of None \<Rightarrow> True | Some e \<Rightarrow> holds e (row x) = Some True) \<and> list_all (\<lambda>c. row x c \<noteq> V_Null) cs"
  shows "tells_apart cs p (map row xs) \<longleftrightarrow> distinct (map key (filter q xs))"
proof -
  have "filter (\<lambda>r. (case p of None \<Rightarrow> True | Some e \<Rightarrow> holds e r = Some True) \<and> list_all (\<lambda>c. r c \<noteq> V_Null) cs) (map row xs) =
      map row (filter q xs)" unfolding filter_map comp_def assms(3) [symmetric] ..
  then have "tells_apart cs p (map row xs) \<longleftrightarrow> distinct (map (\<lambda>x. f (key x)) (filter q xs))"
    unfolding tells_apart_def by (simp add: comp_def assms(2))
  then show ?thesis by (simp add: distinct_map_inj [OF assms(1)])
qed

lemma cell_simps:
  "user_vk_row r ''id'' = V_Uuid (uv_id r)" "user_vk_row r ''user_id'' = V_Uuid (uv_user_id r)"
  "user_vk_row r ''vk_peer_id'' = nullable V_Int (uv_peer_id r)" "user_vk_row r ''state'' = V_Str (uv_state r)"
  "user_vk_row r ''vk_screen_name'' = nullable V_Str (uv_screen_name r)"
  "user_vk_row r ''vk_display_name'' = nullable V_Str (uv_display_name r)"
  "user_vk_row r ''deleted_at'' = nullable V_Time (uv_deleted_at r)"
  "user_vk_row r ''created_at'' = V_Time (uv_created_at r)" "user_vk_row r ''updated_at'' = V_Time (uv_updated_at r)"
  "vk_confirmation_row c ''id'' = V_Uuid (cf_id c)" "vk_confirmation_row c ''user_vk_id'' = V_Uuid (cf_user_vk_id c)"
  "vk_confirmation_row c ''code'' = V_Str (cf_code c)" "vk_confirmation_row c ''expires_at'' = V_Time (cf_expires_at c)"
  "vk_confirmation_row c ''created_at'' = V_Time (cf_created_at c)"
  "vk_confirmation_row c ''used_at'' = nullable V_Time (cf_used_at c)"
  "vk_log_row l ''id'' = V_Uuid (lg_id l)" "vk_log_row l ''event_uuid'' = V_Uuid (lg_event_uuid l)"
  "vk_log_row l ''action'' = V_Str (lg_action l)" "vk_log_row l ''status'' = V_Str (lg_status l)"
  "vk_log_row l ''details'' = V_Json (lg_details l)" "vk_log_row l ''created_at'' = V_Time (lg_created_at l)"
  "vk_delivery_row d ''id'' = V_Uuid (dl_id d)" "vk_delivery_row d ''event_uuid'' = V_Uuid (dl_event_uuid d)"
  "vk_delivery_row d ''user_id'' = V_Uuid (dl_user_id d)" "vk_delivery_row d ''vk_peer_id'' = V_Int (dl_peer_id d)"
  "vk_delivery_row d ''status'' = V_Str (dl_status d)" "vk_delivery_row d ''attempts'' = V_Int (dl_attempts d)"
  "vk_delivery_row d ''last_error'' = nullable V_Str (dl_last_error d)"
  "vk_delivery_row d ''created_at'' = V_Time (dl_created_at d)" "vk_delivery_row d ''updated_at'' = V_Time (dl_updated_at d)"
  "vk_delivery_row d ''sent_at'' = nullable V_Time (dl_sent_at d)"
  by (simp_all add: user_vk_row_def vk_confirmation_row_def vk_log_row_def vk_delivery_row_def row_of_def)

lemma data_simps:
  "data_of d ''user_vks'' = map user_vk_row (user_vks d)"
  "data_of d ''vk_confirmations'' = map vk_confirmation_row (vk_confirmations d)"
  "data_of d ''vk_logs'' = map vk_log_row (vk_logs d)"
  "data_of d ''vk_notification_deliveries'' = map vk_delivery_row (vk_deliveries d)"
  by (simp_all add: data_of_def)

text \<open>A column by the cell it meets.\<close>

lemma column_simps:
  "column_admits id_column r \<longleftrightarrow> type_admits T_UUID (r ''id'')"
  "column_admits (plain_column n t False) r \<longleftrightarrow> type_admits t (r n)"
  "column_admits (plain_column n t True) r \<longleftrightarrow> r n = V_Null \<or> type_admits t (r n)"
  "column_admits (defaulted_column n t e) r \<longleftrightarrow> type_admits t (r n)"
  by (cases t; auto simp: column_admits_def id_column_def plain_column_def defaulted_column_def)+

lemma nullable_admits:
  "nullable V_Int x = V_Null \<or> type_admits t (nullable V_Int x) \<longleftrightarrow> opt_fits (\<lambda>i. type_admits t (V_Int i)) x"
  "nullable V_Str y = V_Null \<or> type_admits t (nullable V_Str y) \<longleftrightarrow> opt_fits (\<lambda>s. type_admits t (V_Str s)) y"
  "nullable V_Time z = V_Null \<or> type_admits T_DateTime (nullable V_Time z)"
  by (cases x; simp add: opt_fits_def) ((cases y; simp add: opt_fits_def), (cases z; simp))

lemma table_simps:
  "co_name id_column = ''id''" "co_primary_key id_column" "co_name (plain_column n t b) = n"
  "\<not> co_primary_key (plain_column n t b)" "co_name (defaulted_column n t e) = n" "\<not> co_primary_key (defaulted_column n t e)"
  "ix_name (make_index i cs u p) = i" "ix_columns (make_index i cs u p) = cs" "ix_unique (make_index i cs u p) = u"
  "ix_where (make_index i cs u p) = p"
  "tb_name (Table n items) = n" "tb_columns (Table n items) = concat (map item_columns items)"
  "tb_constraints (Table n items) = concat (map item_constraints items)"
  "tb_indexes (Table n items) = concat (map item_indexes items)"
  by (simp_all add: id_column_def plain_column_def defaulted_column_def make_index_def Table_def)

lemmas admits_simps = table_simps column_simps nullable_admits cell_simps

lemma inj_key:
  "inj (\<lambda>x. [V_Uuid x])" "inj (\<lambda>x. [V_Str x])" "inj (\<lambda>x. [nullable V_Int x])" "inj (\<lambda>(x, y). [V_Uuid x, V_Uuid y])"
  by (auto simp: inj_def nullable_def split: option.splits)

lemma user_vks_admits:
  "table_admits (data_of d) user_vks_table \<longleftrightarrow> list_all user_vk_fits (user_vks d) \<and> user_vks_ok (user_vks d)"
proof -
  have pk: "tells_apart [''id''] None (map user_vk_row rs) \<longleftrightarrow> distinct (map uv_id (filter (\<lambda>_. True) rs))" for rs
    by (rule tells_apart_map [OF inj_key(1)]) (simp_all add: cell_simps)
  have owner: "tells_apart [''user_id''] (Some (E_Is_Null ''deleted_at'')) (map user_vk_row rs) \<longleftrightarrow>
      distinct (map uv_user_id (filter live rs))" for rs
    by (rule tells_apart_map [OF inj_key(1)]) (simp_all add: cell_simps nullable_null)
  have peer: "tells_apart [''vk_peer_id''] (Some (E_And (E_Is_Null ''deleted_at'') (E_Is_Not_Null ''vk_peer_id''))) (map user_vk_row rs) \<longleftrightarrow>
      distinct (map uv_peer_id (filter (\<lambda>r. live r \<and> uv_peer_id r \<noteq> None) rs))" for rs
    by (rule tells_apart_map [OF inj_key(3)]) (auto simp: cell_simps nullable_null split: bool.splits)
  have cols: "list_all (\<lambda>c. column_admits c (user_vk_row r)) (tb_columns user_vks_table) \<longleftrightarrow> user_vk_fits r" for r
    by (simp add: user_vks_table_def admits_simps user_vk_fits_def)
  have rows: "tb_name user_vks_table = ''user_vks''" by (simp add: user_vks_table_def table_simps)
  show ?thesis
    by (simp add: table_admits_def Let_def rows data_simps list.pred_map comp_def cols user_vks_ok_def)
      (simp add: user_vks_table_def table_simps pk owner peer)
qed

lemma vk_confirmations_admits:
  "table_admits (data_of d) vk_confirmations_table \<longleftrightarrow>
    list_all vk_confirmation_fits (vk_confirmations d) \<and> vk_confirmations_ok (user_vks d) (vk_confirmations d)"
proof -
  have pk: "tells_apart [''id''] None (map vk_confirmation_row rs) \<longleftrightarrow> distinct (map cf_id (filter (\<lambda>_. True) rs))" for rs
    by (rule tells_apart_map [OF inj_key(1)]) (simp_all add: cell_simps)
  have once: "tells_apart [''code''] None (map vk_confirmation_row rs) \<longleftrightarrow> distinct (map cf_code (filter (\<lambda>_. True) rs))" for rs
    by (rule tells_apart_map [OF inj_key(2)]) (simp_all add: cell_simps)
  have cols: "list_all (\<lambda>c. column_admits c (vk_confirmation_row r)) (tb_columns vk_confirmations_table) \<longleftrightarrow> vk_confirmation_fits r" for r
    by (simp add: vk_confirmations_table_def admits_simps vk_confirmation_fits_def)
  have fk: "constraint_admits (data_of d) (map vk_confirmation_row rs) (Foreign_Key ''user_vk_id'' ''user_vks'' ''id'') \<longleftrightarrow>
      (\<forall>c \<in> set rs. cf_user_vk_id c \<in> set (map uv_id (user_vks d)))" for rs
    by (auto simp: list_all_iff cell_simps data_simps)
  have rows: "tb_name vk_confirmations_table = ''vk_confirmations''" by (simp add: vk_confirmations_table_def table_simps)
  show ?thesis
    by (simp add: table_admits_def Let_def rows data_simps list.pred_map comp_def cols vk_confirmations_ok_def)
      (auto simp: vk_confirmations_table_def table_simps pk once fk simp del: constraint_admits.simps)
qed

lemma vk_logs_admits:
  "table_admits (data_of d) vk_logs_table \<longleftrightarrow> list_all vk_log_fits (vk_logs d) \<and> vk_logs_ok (vk_logs d)"
proof -
  have pk: "tells_apart [''id''] None (map vk_log_row rs) \<longleftrightarrow> distinct (map lg_id (filter (\<lambda>_. True) rs))" for rs
    by (rule tells_apart_map [OF inj_key(1)]) (simp_all add: cell_simps)
  have once: "tells_apart [''event_uuid''] None (map vk_log_row rs) \<longleftrightarrow> distinct (map lg_event_uuid (filter (\<lambda>_. True) rs))" for rs
    by (rule tells_apart_map [OF inj_key(1)]) (simp_all add: cell_simps)
  have cols: "list_all (\<lambda>c. column_admits c (vk_log_row r)) (tb_columns vk_logs_table) \<longleftrightarrow> vk_log_fits r" for r
    by (simp add: vk_logs_table_def admits_simps vk_log_fits_def)
  have rows: "tb_name vk_logs_table = ''vk_logs''" by (simp add: vk_logs_table_def table_simps)
  show ?thesis
    by (simp add: table_admits_def Let_def rows data_simps list.pred_map comp_def cols vk_logs_ok_def)
      (simp add: vk_logs_table_def table_simps pk once)
qed

lemma vk_deliveries_admits:
  "table_admits (data_of d) vk_notification_deliveries_table \<longleftrightarrow>
    list_all vk_delivery_fits (vk_deliveries d) \<and> vk_deliveries_ok (vk_deliveries d)"
proof -
  have pk: "tells_apart [''id''] None (map vk_delivery_row rs) \<longleftrightarrow> distinct (map dl_id (filter (\<lambda>_. True) rs))" for rs
    by (rule tells_apart_map [OF inj_key(1)]) (simp_all add: cell_simps)
  have pair: "tells_apart [''event_uuid'', ''user_id''] None (map vk_delivery_row rs) \<longleftrightarrow>
      distinct (map (\<lambda>r. (dl_event_uuid r, dl_user_id r)) (filter (\<lambda>_. True) rs))" for rs
    by (rule tells_apart_map [OF inj_key(4)]) (simp_all add: cell_simps)
  have cols: "list_all (\<lambda>c. column_admits c (vk_delivery_row r)) (tb_columns vk_notification_deliveries_table) \<longleftrightarrow> vk_delivery_fits r" for r
    by (simp add: vk_notification_deliveries_table_def admits_simps vk_delivery_fits_def)
  have status: "constraint_admits (data_of d) (map vk_delivery_row rs) (Check (E_In ''status'' [''PENDING'', ''SENT'', ''FAILED''])) \<longleftrightarrow>
      (\<forall>r \<in> set rs. dl_status r \<in> set delivery_statuses)" for rs
    by (auto simp: list_all_iff cell_simps delivery_statuses_def)
  have attempts: "constraint_admits (data_of d) (map vk_delivery_row rs) (Check (E_At_Least ''attempts'' 0)) \<longleftrightarrow>
      (\<forall>r \<in> set rs. 0 \<le> dl_attempts r)" for rs
    by (auto simp: list_all_iff cell_simps)
  have unique: "constraint_admits (data_of d) rows (Unique cs) \<longleftrightarrow> tells_apart cs None rows" for rows cs by simp
  have rows: "tb_name vk_notification_deliveries_table = ''vk_notification_deliveries''"
    by (simp add: vk_notification_deliveries_table_def table_simps)
  show ?thesis
    by (simp add: table_admits_def Let_def rows data_simps list.pred_map comp_def cols vk_deliveries_ok_def)
      (auto simp: vk_notification_deliveries_table_def table_simps pk pair unique status attempts simp del: constraint_admits.simps)
qed

lemma models_schema_admits: "schema_admits models_schema (data_of d) \<longleftrightarrow> db_ok d"
  by (auto simp: schema_admits_def models_schema_def user_vks_admits vk_confirmations_admits vk_logs_admits
      vk_deliveries_admits db_ok_def columns_ok_def constraints_ok_def)

section \<open>Properties\<close>

text \<open>
  C18. The constraints this library reasons with are the ones the database is created with.  The
  migrations apply to an empty database, and the schema they make admits the rows of a database
  exactly when \<open>db_ok\<close> holds of it: types and lengths of columns, nulls, keys, unique and partial
  unique indexes, checks and the foreign key.
\<close>

theorem migrated_schema_enforces_db_ok:
  "case upgrade_all migrations [] of
     None \<Rightarrow> False
   | Some s \<Rightarrow> schema_admits s (data_of d) \<longleftrightarrow> db_ok d"
  using migrations_upgrade by (simp add: models_schema_admits)

end
