(* ===== verification/Smoke_Config.thy ===== *)
theory Smoke_Config
  imports Program
begin

text \<open>
  The smoke harness is a program of its own that runs one command through the real consumer, handler
  and ledger of a local deployment, with a scripted messenger in place of the VK API.  This theory
  holds what guards it: the names of its topology (\<open>smoke_harness/topology.py\<close>), the scripted plans
  (\<open>ScriptedPlan\<close> of \<open>smoke_harness/messenger.py\<close>) and the configuration it accepts from the
  environment (\<open>smoke_harness/config.py\<close>).

  The environment is a map; \<open>loads\<close> is the JSON parser of the library (\<open>None\<close> for a text it refuses).
\<close>

section \<open>Topology\<close>

record smoke_topology =
  tp_stream :: pystr
  tp_subject :: pystr
  tp_durable :: pystr

definition SmokeTopology_for_run :: "ucd \<Rightarrow> uuid \<Rightarrow> smoke_topology" where
  "SmokeTopology_for_run u run_id =
     (let suffix = uuid_hex run_id in
      \<lparr>tp_stream = lit ''EQSITECMS_SMOKE_VK_'' @ py_upper u suffix,
       tp_subject = lit ''smoke.eqsitecms.vk.'' @ suffix @ lit ''.send'',
       tp_durable = lit ''eqsitecms-smoke-vk-'' @ suffix\<rparr>)"

definition SmokeTopology_assert_isolated :: "smoke_topology \<Rightarrow> ('w, unit) prog" where
  "SmokeTopology_assert_isolated t =
     (if tp_stream t = lit ''NOTIFICATION_COMMANDS''
      then raiseM ValueError (lit ''production stream is forbidden'')
      else if tp_subject t = lit ''commands.notification.vk.send'' \<or>
              \<not> py_startswith (tp_subject t) (lit ''smoke.eqsitecms.vk.'')
      then raiseM ValueError (lit ''production subject is forbidden'')
      else if tp_durable t = lit ''vk-service-commands-send-vk'' \<or>
              \<not> py_startswith (tp_durable t) (lit ''eqsitecms-smoke-vk-'')
      then raiseM ValueError (lit ''production durable is forbidden'')
      else retM ())"

section \<open>Scripted plans\<close>

text \<open>The members of a \<open>StrEnum\<close> are ordered as their values are: the order of the constructors here.\<close>

datatype scripted_plan = Fail_Always | Fail_First_Then_Success | Success

definition plan_value :: "scripted_plan \<Rightarrow> pystr" where
  "plan_value p =
     (case p of
        Success \<Rightarrow> lit ''success'' | Fail_Always \<Rightarrow> lit ''fail-always''
      | Fail_First_Then_Success \<Rightarrow> lit ''fail-first-then-success'')"

definition scripted_plans :: "scripted_plan list" where
  "scripted_plans = [Success, Fail_Always, Fail_First_Then_Success]"

fun plan_rank :: "scripted_plan \<Rightarrow> nat" where
  "plan_rank Fail_Always = 0"
| "plan_rank Fail_First_Then_Success = 1"
| "plan_rank Success = 2"

lemma plan_rank_inject [simp]: "plan_rank p = plan_rank q \<longleftrightarrow> p = q"
  by (cases p; cases q) auto

instantiation scripted_plan :: linorder
begin

definition less_eq_scripted_plan :: "scripted_plan \<Rightarrow> scripted_plan \<Rightarrow> bool" where
  "p \<le> q \<longleftrightarrow> plan_rank p \<le> plan_rank q"

definition less_scripted_plan :: "scripted_plan \<Rightarrow> scripted_plan \<Rightarrow> bool" where
  "p < q \<longleftrightarrow> plan_rank p < plan_rank q"

instance
  by standard (auto simp: less_eq_scripted_plan_def less_scripted_plan_def)

end

section \<open>Scenarios and configuration\<close>

datatype smoke_scenario =
    Malformed | Unknown_User | Pending_Binding | Blocked_Binding | Soft_Deleted_Binding | Repeated_Event
  | Concurrent_Duplicate | Delivery_Failure | Partial_Retry

definition scenario_value :: "smoke_scenario \<Rightarrow> pystr" where
  "scenario_value s =
     (case s of
        Malformed \<Rightarrow> lit ''malformed'' | Unknown_User \<Rightarrow> lit ''unknown-user''
      | Pending_Binding \<Rightarrow> lit ''pending-binding'' | Blocked_Binding \<Rightarrow> lit ''blocked-binding''
      | Soft_Deleted_Binding \<Rightarrow> lit ''soft-deleted-binding'' | Repeated_Event \<Rightarrow> lit ''repeated-event''
      | Concurrent_Duplicate \<Rightarrow> lit ''concurrent-duplicate'' | Delivery_Failure \<Rightarrow> lit ''delivery-failure''
      | Partial_Retry \<Rightarrow> lit ''partial-retry'')"

definition scenarios :: "smoke_scenario list" where
  "scenarios =
     [Malformed, Unknown_User, Pending_Binding, Blocked_Binding, Soft_Deleted_Binding, Repeated_Event,
      Concurrent_Duplicate, Delivery_Failure, Partial_Retry]"

record smoke_config =
  sk_scenario :: smoke_scenario
  sk_run_id :: uuid
  sk_target_user_ids :: "uuid list"
  sk_plans :: "(uuid \<times> scripted_plan) list"
  sk_event_uuid :: uuid
  sk_callback_request_id :: uuid

definition smoke_config_topology :: "ucd \<Rightarrow> smoke_config \<Rightarrow> smoke_topology" where
  "smoke_config_topology u c = SmokeTopology_for_run u (sk_run_id c)"

text \<open>The constructor of an enumeration: the member with this value, or \<open>ValueError\<close>.\<close>

definition enum_of :: "('a \<Rightarrow> pystr) \<Rightarrow> 'a list \<Rightarrow> pystr \<Rightarrow> 'a option" where
  "enum_of value members s = find (\<lambda>m. value m = s) members"

abbreviation guard_error :: "string \<Rightarrow> ('w, 'a) prog" where
  "guard_error m \<equiv> raiseM SmokeHarnessGuardError (lit m)"

definition env_get :: "(pystr \<rightharpoonup> pystr) \<Rightarrow> string \<Rightarrow> pystr" where
  "env_get values name = (case values (lit name) of None \<Rightarrow> [] | Some v \<Rightarrow> v)"

definition required_uuid :: "ucd \<Rightarrow> (pystr \<rightharpoonup> pystr) \<Rightarrow> string \<Rightarrow> ('w, uuid) prog" where
  "required_uuid u values name =
     (case uuid_of_str u (py_strip (env_get values name)) of
        None \<Rightarrow> raiseM SmokeHarnessGuardError (lit name @ lit '' must be an exact UUID'')
      | Some value \<Rightarrow>
          if value = 0 then raiseM SmokeHarnessGuardError (lit name @ lit '' must not be nil'')
          else retM value)"

definition uuid_list :: "ucd \<Rightarrow> pystr \<Rightarrow> ('w, uuid list) prog" where
  "uuid_list u raw =
     (if py_strip raw = [] \<or> list_ex (\<lambda>marker. py_contains marker raw) [lit ''*'', lit ''>''] then retM []
      else
        (case those (map (\<lambda>item. uuid_of_str u (py_strip item)) (py_split_on 44 raw)) of
           None \<Rightarrow> guard_error ''synthetic targets must be exact UUIDs''
         | Some values \<Rightarrow>
             if list_ex (\<lambda>value. value = 0) values \<or> card (set values) \<noteq> length values
             then guard_error ''synthetic targets must be unique non-nil UUIDs''
             else retM values))"

definition validate_scenario_plan ::
    "smoke_scenario \<Rightarrow> uuid list \<Rightarrow> (uuid \<times> scripted_plan) list \<Rightarrow> ('w, unit) prog" where
  "validate_scenario_plan scenario targets plans =
     (if scenario = Partial_Retry
      then
        if length targets \<noteq> 2 \<or> sort (map snd plans) \<noteq> sort [Success, Fail_First_Then_Success]
        then guard_error ''partial-retry requires one success and one fail-first target''
        else retM ()
      else if scenario = Delivery_Failure
      then
        if length targets \<noteq> 1 then guard_error ''delivery-failure requires one fail-always target''
        else
          (case map_of plans (hd targets) of
             None \<Rightarrow> raiseM KeyError (uuid_str (hd targets))
           | Some plan \<Rightarrow>
               if plan \<noteq> Fail_Always then guard_error ''delivery-failure requires one fail-always target''
               else retM ())
      else if list_ex (\<lambda>plan. plan \<noteq> Success) (map snd plans)
      then guard_error ''this scenario permits only success scripted plans''
      else retM ())"

text \<open>What the parser gives; a key occurs once in an object.\<close>

datatype json = J_Object "(pystr \<times> json) list" | J_Array "json list" | J_Str pystr | J_Int int | J_Other

fun plan_entry :: "ucd \<Rightarrow> pystr \<times> json \<Rightarrow> (uuid \<times> scripted_plan) option" where
  "plan_entry u (user_id, J_Str plan) =
     (case (uuid_of_str u user_id, enum_of plan_value scripted_plans plan) of
        (Some i, Some p) \<Rightarrow> Some (i, p) | _ \<Rightarrow> None)"
| "plan_entry u (user_id, _) = None"

definition decode_plans :: "ucd \<Rightarrow> (pystr \<Rightarrow> json option) \<Rightarrow> pystr \<Rightarrow> uuid list \<Rightarrow> ('w, (uuid \<times> scripted_plan) list) prog" where
  "decode_plans u loads raw_plans targets =
     (case loads raw_plans of
        None \<Rightarrow> guard_error ''scripted plans must be a JSON object''
      | Some decoded \<Rightarrow>
          (case decoded of
             J_Object entries \<Rightarrow>
               if set (map fst entries) \<noteq> set (map uuid_str targets)
               then guard_error ''scripted plans must exactly match synthetic targets''
               else
                 (case those (map (plan_entry u) entries) of
                    None \<Rightarrow> guard_error ''scripted plans contain an invalid target or outcome''
                  | Some plans \<Rightarrow> retM (dict_merge [] plans))
           | _ \<Rightarrow> guard_error ''scripted plans must exactly match synthetic targets''))"

definition SmokeHarnessConfig_from_environment ::
    "ucd \<Rightarrow> (pystr \<Rightarrow> json option) \<Rightarrow> (pystr \<rightharpoonup> pystr) \<Rightarrow> ('w, smoke_config) prog" where
  "SmokeHarnessConfig_from_environment u loads values =
     (if values (lit ''EQSITECMS_SMOKE_HARNESS'') \<noteq> Some (lit ''1'') then guard_error ''smoke harness is disabled''
      else if py_lower u (py_strip (env_get values ''EQSITECMS_ENVIRONMENT'')) \<noteq> lit ''local''
      then guard_error ''smoke harness requires local environment''
      else
        bindM (required_uuid u values ''EQSITECMS_SMOKE_RUN_ID'') (\<lambda>run_id.
        bindM (required_uuid u values ''EQSITECMS_SMOKE_EVENT_ID'') (\<lambda>event_uuid.
        bindM (required_uuid u values ''EQSITECMS_SMOKE_CALLBACK_REQUEST_ID'') (\<lambda>callback_request_id.
          case enum_of scenario_value scenarios (env_get values ''EQSITECMS_SMOKE_SCENARIO'') of
            None \<Rightarrow> guard_error ''a supported exact smoke scenario is required''
          | Some scenario \<Rightarrow>
              bindM (uuid_list u (env_get values ''EQSITECMS_SMOKE_SYNTHETIC_TARGETS'')) (\<lambda>targets.
              if targets = [] then guard_error ''at least one exact synthetic target is required''
              else
                bindM (decode_plans u loads (env_get values ''EQSITECMS_SMOKE_SCRIPTED_PLANS'') targets) (\<lambda>plans.
                thenM (validate_scenario_plan scenario targets plans)
                  (retM
                    \<lparr>sk_scenario = scenario, sk_run_id = run_id, sk_target_user_ids = targets, sk_plans = plans,
                     sk_event_uuid = event_uuid, sk_callback_request_id = callback_request_id\<rparr>)))))))"

section \<open>The guard\<close>

lemma plan_order: "p < q \<longleftrightarrow> (plan_value p, plan_value q) \<in> lexord {(a, b). a < b}"
  by (cases p; cases q) (simp_all add: less_scripted_plan_def plan_value_def lit_def)

lemma enum_ofD:
  assumes "enum_of value members s = Some m"
  shows "m \<in> set members \<and> value m = s"
  using assms by (auto simp: enum_of_def find_Some_iff)

lemma dict_merge_keys:
  "distinct (map fst d1) \<Longrightarrow> distinct (map fst (dict_merge d1 d2)) \<and> fst ` set (dict_merge d1 d2) = fst ` set d1 \<union> fst ` set d2"
proof (induction d2 arbitrary: d1)
  case (Cons x d2)
  let ?d = "AList.update (fst x) (snd x) d1"
  have "distinct (map fst ?d)" "fst ` set ?d = insert (fst x) (fst ` set d1)"
    using Cons.prems by (simp_all add: distinct_update dom_update)
  with Cons.IH [of ?d] show ?case by (simp add: dict_merge_def split_beta)
qed (simp add: dict_merge_def)

lemma those_Some: "those xs = Some ys \<longleftrightarrow> xs = map Some ys"
  by (induction xs arbitrary: ys) (auto split: option.splits)

lemma plan_entry_Some: "plan_entry u x = Some (i, p) \<Longrightarrow> uuid_of_str u (fst x) = Some i"
  by (cases x; cases "snd x") (auto split: option.splits)

lemma plan_entries:
  assumes "map (plan_entry u) entries = map Some plans" "set (map fst entries) = set (map uuid_str targets)"
  shows "fst ` set plans = set targets"
proof
  show "fst ` set plans \<subseteq> set targets"
  proof
    fix i assume "i \<in> fst ` set plans"
    then obtain p where "(i, p) \<in> set plans" by auto
    then have "Some (i, p) \<in> set (map (plan_entry u) entries)" by (simp add: assms(1))
    then obtain x where x: "x \<in> set entries" "plan_entry u x = Some (i, p)" by auto
    then obtain t where "t \<in> set targets" "fst x = uuid_str t" using assms(2) by auto
    with plan_entry_Some [OF x(2)] show "i \<in> set targets" by (simp add: uuid_of_str_str)
  qed
next
  show "set targets \<subseteq> fst ` set plans"
  proof
    fix t assume "t \<in> set targets"
    then have "uuid_str t \<in> set (map fst entries)" using assms(2) by auto
    then obtain x where x: "x \<in> set entries" "fst x = uuid_str t" by auto
    then have "plan_entry u x \<in> set (map Some plans)" using assms(1) by (metis imageI list.set_map)
    then obtain i p where e: "plan_entry u x = Some (i, p)" "(i, p) \<in> set plans" by auto
    with plan_entry_Some [OF e(1)] x(2) have "i = t" by (simp add: uuid_of_str_str)
    with e(2) show "t \<in> fst ` set plans" by force
  qed
qed

lemma required_uuid_wp: "wp (required_uuid u values name) (\<lambda>i w'. w' = w \<and> i \<noteq> 0) (\<lambda>e w'. w' = w \<and> exn_class e = SmokeHarnessGuardError) w"
  by (auto simp: required_uuid_def wp_def prog_simps split: option.split)

lemma uuid_list_wp:
  "wp (uuid_list u raw) (\<lambda>us w'. w' = w \<and> distinct us \<and> 0 \<notin> set us) (\<lambda>e w'. w' = w \<and> exn_class e = SmokeHarnessGuardError) w"
  by (auto simp: uuid_list_def wp_def prog_simps list_ex_iff card_distinct split: option.split)

lemma decode_plans_wp:
  "wp (decode_plans u loads raw targets)
    (\<lambda>plans w'. w' = w \<and> distinct (map fst plans) \<and> fst ` set plans = set targets)
    (\<lambda>e w'. w' = w \<and> exn_class e = SmokeHarnessGuardError) w"
proof -
  have keys: "distinct (map fst (dict_merge [] plans))" "fst ` set (dict_merge [] plans) = fst ` set plans"
    for plans :: "(uuid \<times> scripted_plan) list"
    using dict_merge_keys [of "[]" plans] by simp_all
  show ?thesis
    using plan_entries [of u]
    by (simp add: decode_plans_def wp_def prog_simps those_Some keys split: option.split json.split)
qed

text \<open>What a scenario permits its targets to do.\<close>

definition permitted :: "smoke_scenario \<Rightarrow> uuid list \<Rightarrow> (uuid \<times> scripted_plan) list \<Rightarrow> bool" where
  "permitted scenario targets plans \<longleftrightarrow>
     (case scenario of
        Partial_Retry \<Rightarrow>
          (\<exists>a b. a \<noteq> b \<and> set targets = {a, b} \<and> map_of plans a = Some Success \<and> map_of plans b = Some Fail_First_Then_Success)
      | Delivery_Failure \<Rightarrow> (\<exists>t. targets = [t] \<and> map_of plans t = Some Fail_Always)
      | _ \<Rightarrow> \<forall>t \<in> set targets. map_of plans t = Some Success)"

lemma two_plans:
  assumes "sort (map snd plans) = sort [Success, Fail_First_Then_Success]" "distinct (map fst plans)"
    and "fst ` set plans = set targets"
  shows "\<exists>a b. a \<noteq> b \<and> set targets = {a, b} \<and> map_of plans a = Some Success \<and> map_of plans b = Some Fail_First_Then_Success"
proof -
  have "length (sort (map snd plans)) = 2" by (simp add: assms(1))
  then obtain x y where xy: "plans = [x, y]"
    by (auto simp: numeral_2_eq_2 length_Suc_conv)
  have "set (sort (map snd plans)) = set (sort [Success, Fail_First_Then_Success])" by (simp only: assms(1))
  then have vals: "{snd x, snd y} = {Success, Fail_First_Then_Success}" by (simp add: xy del: sort_key_simps)
  have "fst x \<noteq> fst y" using assms(2) by (simp add: xy)
  moreover have "set targets = {fst x, fst y}" using assms(3) by (auto simp: xy)
  ultimately show ?thesis
    using vals by (cases x; cases y) (auto simp: xy doubleton_eq_iff)
qed

lemma validate_wp:
  assumes "distinct (map fst plans)" "fst ` set plans = set targets" "targets \<noteq> []"
  shows "wp (validate_scenario_plan scenario targets plans)
    (\<lambda>_ w'. w' = w \<and> permitted scenario targets plans) (\<lambda>e w'. w' = w \<and> exn_class e = SmokeHarnessGuardError) w"
proof -
  have all: "map_of plans t = Some Success"
    if succ: "list_all (\<lambda>p. p = Success) (map snd plans)" and t: "t \<in> set targets" for t
  proof -
    obtain p where p: "(t, p) \<in> set plans" using t assms(2) by force
    with succ have "p = Success" by (auto simp: list_all_iff)
    with p assms(1) show ?thesis by simp
  qed
  have found: "map_of plans (hd targets) \<noteq> None"
    using assms(2,3) by (simp add: map_of_eq_None_iff)
  have notex: "\<not> list_ex (\<lambda>p. p \<noteq> Success) ps \<longleftrightarrow> list_all (\<lambda>p. p = Success) ps" for ps
    by (induction ps) auto
  show ?thesis
  proof (cases scenario)
    case Partial_Retry
    then show ?thesis
      using two_plans [OF _ assms(1,2)]
      by (auto simp: validate_scenario_plan_def wp_def prog_simps permitted_def simp del: sort_key_simps)
  next
    case Delivery_Failure
    then show ?thesis
      using found by (cases targets) (auto simp: validate_scenario_plan_def wp_def prog_simps permitted_def split: option.split)
  qed (use all notex [of "map snd plans"] in \<open>auto simp: validate_scenario_plan_def wp_def prog_simps permitted_def\<close>)
qed

section \<open>Isolation\<close>

lemma upper_hex_inject:
  assumes "\<forall>c \<in> set a. is_lower_hex c" "\<forall>c \<in> set b. is_lower_hex c" "py_upper u a = py_upper u b"
  shows "a = b"
proof -
  have one: "\<exists>d. upper_cp u c = [d]" if "is_lower_hex c" for c
    using that by (auto simp: is_lower_hex_def upper_cp_def)
  have inj: "c = d" if "is_lower_hex c" "is_lower_hex d" "upper_cp u c = upper_cp u d" for c d
    using that by (auto simp: is_lower_hex_def upper_cp_def split: if_splits)
  show ?thesis
    using assms
  proof (induction a arbitrary: b)
    case Nil
    then show ?case using one by (cases b) (fastforce simp: py_upper_def)+
  next
    case (Cons c cs)
    obtain d ds where b: "b = d # ds" using Cons.prems one by (cases b) (fastforce simp: py_upper_def)+
    obtain x y where xy: "upper_cp u c = [x]" "upper_cp u d = [y]"
      using one [of c] one [of d] Cons.prems(1,2) by (auto simp: b)
    have "x = y" "py_upper u cs = py_upper u ds" using Cons.prems(3) by (auto simp: b py_upper_def xy)
    with Cons.IH [of ds] inj [of c d] xy Cons.prems(1,2) show ?case by (simp add: b)
  qed
qed

lemma uuid_hex_lower: "\<forall>c \<in> set (uuid_hex i). is_lower_hex c"
  by (auto simp: uuid_hex_def dest: hex_fixed_lower)

lemma uuid_hex_inject: "uuid_hex i = uuid_hex j \<longleftrightarrow> i = j"
  by (metis uuid_hex_parts(1) uuid_of_str_str uuid_str_def option.inject)

lemma lit_prefix: "lit (a @ b) = lit a @ lit b"
  by (simp add: lit_def)

text \<open>No run touches the names of the service, and two runs share none.\<close>

lemma run_isolated: "SmokeTopology_assert_isolated (SmokeTopology_for_run u i) w = (Inr (), w)"
  by (simp add: SmokeTopology_assert_isolated_def SmokeTopology_for_run_def Let_def prog_simps)
    (simp add: lit_def)

lemma run_names:
  "tp_stream (SmokeTopology_for_run u i) \<noteq> lit ''NOTIFICATION_COMMANDS''"
  "tp_subject (SmokeTopology_for_run u i) \<noteq> lit ''commands.notification.vk.send''"
  "tp_durable (SmokeTopology_for_run u i) \<noteq> lit ''vk-service-commands-send-vk''"
  by (simp_all add: SmokeTopology_for_run_def Let_def lit_def)

lemma runs_disjoint:
  assumes "i \<noteq> j"
  shows "tp_stream (SmokeTopology_for_run u i) \<noteq> tp_stream (SmokeTopology_for_run u j)"
    "tp_subject (SmokeTopology_for_run u i) \<noteq> tp_subject (SmokeTopology_for_run u j)"
    "tp_durable (SmokeTopology_for_run u i) \<noteq> tp_durable (SmokeTopology_for_run u j)"
  using assms upper_hex_inject [OF uuid_hex_lower uuid_hex_lower, of u i j]
  by (auto simp: SmokeTopology_for_run_def Let_def uuid_hex_inject)

lemma wp_step: "wp m P E w \<Longrightarrow> (\<And>x v. P x v \<Longrightarrow> wp (f x) Q E v) \<Longrightarrow> wp (bindM m f) Q E w"
  by (auto elim: wp_mono)

lemma wp_if_split: "wp (if b then m else n) Q E w \<longleftrightarrow> (b \<longrightarrow> wp m Q E w) \<and> (\<not> b \<longrightarrow> wp n Q E w)"
  by simp

section \<open>Properties\<close>


end
