(* ===== verification/Smoke_Messenger.thy ===== *)
theory Smoke_Messenger
  imports Smoke_Config Nats_Client Notification_Handler
begin

text \<open>
  \<open>ScriptedVkMessenger\<close> of \<open>smoke_harness/messenger.py\<close>, and the delivery service and the command
  handler over it.  It calls nobody: it counts its attempts by account and answers as the plan of the
  account says, so a delivery over it is determined completely.  It keeps the contract of a messenger
  (\<open>scripted\<close>), the same the VK messenger keeps.
\<close>

section \<open>The messenger\<close>

text \<open>A \<open>defaultdict\<close> in insertion order; an absent key counts as zero.\<close>

record smoke_world = nats_world +
  scripted_attempts :: "(int \<times> int) list"

definition attempts_at :: "(int \<times> int) list \<Rightarrow> int \<Rightarrow> int" where
  "attempts_at d peer_id = (case map_of d peer_id of None \<Rightarrow> 0 | Some n \<Rightarrow> n)"

definition ScriptedVkMessenger_attempts_for :: "int \<Rightarrow> ('x smoke_world_scheme, int) prog" where
  "ScriptedVkMessenger_attempts_for peer_id =
     thenM
       (modifyM (\<lambda>w. w\<lparr>scripted_attempts :=
          AList.update peer_id (attempts_at (scripted_attempts w) peer_id) (scripted_attempts w)\<rparr>))
       (getsM (\<lambda>w. attempts_at (scripted_attempts w) peer_id))"

definition ScriptedVkMessenger_total_attempts :: "'x smoke_world_scheme \<Rightarrow> int" where
  "ScriptedVkMessenger_total_attempts w = sum_list (map snd (scripted_attempts w))"

definition ScriptedVkMessenger_send_message ::
    "(int \<times> scripted_plan) list \<Rightarrow> int \<Rightarrow> pystr \<Rightarrow> ('x smoke_world_scheme, bool) prog" where
  "ScriptedVkMessenger_send_message plans peer_id text =
     (case map_of plans peer_id of
        None \<Rightarrow> retM False
      | Some plan \<Rightarrow>
          thenM
            (modifyM (\<lambda>w. w\<lparr>scripted_attempts :=
               AList.update peer_id (attempts_at (scripted_attempts w) peer_id + 1) (scripted_attempts w)\<rparr>))
            (if plan = Success then retM True
             else if plan = Fail_First_Then_Success
             then getsM (\<lambda>w. 1 < attempts_at (scripted_attempts w) peer_id)
             else retM False))"

definition ScriptedVkMessenger_get_profile :: "int \<Rightarrow> ('w, vk_user_profile option) prog" where
  "ScriptedVkMessenger_get_profile peer_id = retM None"

definition ScriptedVkMessenger :: "(int \<times> scripted_plan) list \<Rightarrow> ('x smoke_world_scheme) vk_messenger" where
  "ScriptedVkMessenger plans =
     \<lparr>ms_send_message = ScriptedVkMessenger_send_message plans, ms_get_profile = ScriptedVkMessenger_get_profile\<rparr>"

lemma scripted_sel [simp]:
  "ms_send_message (ScriptedVkMessenger plans) = ScriptedVkMessenger_send_message plans"
  "ms_get_profile (ScriptedVkMessenger plans) = ScriptedVkMessenger_get_profile"
  by (simp_all add: ScriptedVkMessenger_def)

section \<open>Its contract\<close>

definition only_attempts :: "'x smoke_world_scheme \<Rightarrow> 'x smoke_world_scheme \<Rightarrow> bool" where
  "only_attempts w w' \<longleftrightarrow> (\<exists>d. w' = w\<lparr>scripted_attempts := d\<rparr>)"

definition answers_true :: "scripted_plan \<Rightarrow> int \<Rightarrow> bool" where
  "answers_true plan n \<longleftrightarrow> plan = Success \<or> plan = Fail_First_Then_Success \<and> 1 < n"

definition attempts :: "'x smoke_world_scheme \<Rightarrow> int \<Rightarrow> int" where
  "attempts w = attempts_at (scripted_attempts w)"

lemma attempts_update:
  "attempts_at (AList.update p n d) q = (if q = p then n else attempts_at d q)"
  by (simp add: attempts_at_def update_conv')

text \<open>A planned account: one attempt more, and the answer its plan has for it.\<close>

lemma scripted_send_run:
  assumes "map_of plans p = Some plan"
  shows "\<exists>w'. ScriptedVkMessenger_send_message plans p t w = (Inr (answers_true plan (attempts w p + 1)), w') \<and>
    only_attempts w w' \<and> attempts w' = (attempts w)(p := attempts w p + 1)"
proof -
  have "attempts (w\<lparr>scripted_attempts := AList.update p (attempts w p + 1) (scripted_attempts w)\<rparr>) =
      (attempts w)(p := attempts w p + 1)"
    by (auto simp: attempts_def attempts_update fun_eq_iff)
  then show ?thesis
    by (cases plan)
      (auto simp: ScriptedVkMessenger_send_message_def assms prog_simps answers_true_def only_attempts_def attempts_def
        attempts_update)
qed

lemma scripted_send_unplanned:
  "map_of plans p = None \<Longrightarrow> ScriptedVkMessenger_send_message plans p t w = (Inr False, w)"
  by (simp add: ScriptedVkMessenger_send_message_def prog_simps)

interpretation scripted: messenger "ScriptedVkMessenger plans" only_attempts
proof (unfold_locales, goal_cases)
  case (1 p t w)
  show ?case
  proof (cases "map_of plans p")
    case None
    then have "only_attempts w w" by (auto simp: only_attempts_def intro: exI [of _ "scripted_attempts w"])
    with None show ?thesis by (simp add: wp_def scripted_send_unplanned)
  next
    case (Some plan)
    then show ?thesis using scripted_send_run [OF Some, of t w] by (auto simp: wp_def)
  qed
next
  case (2 p w)
  show ?case by (auto simp: ScriptedVkMessenger_get_profile_def only_attempts_def intro: exI [of _ "scripted_attempts w"])
qed

section \<open>A delivery over it\<close>

lemma only_attemptsD:
  assumes "only_attempts w w'"
  shows "db w' = db w" "committed w' = committed w" "drawn w' = drawn w" "uuids w' = uuids w"
    "store_ok w' = store_ok w" "uuids_left w' = uuids_left w" "beside_ledger w' = beside_ledger w"
  using assms
  by (auto simp: only_attempts_def store_ok_def fresh_supply_def undrawn_def uuids_left_def beside_ledger_def)

lemma beside_deliveries_attempts:
  fixes w :: "'x smoke_world_scheme"
  assumes "beside_deliveries w' = beside_deliveries w"
  shows "attempts w' = attempts w"
  using arg_cong [OF assms, of scripted_attempts] by (simp add: beside_deliveries_def attempts_def)

lemma beside_deliveries_frame:
  fixes w w' :: "'x smoke_world_scheme"
  shows "beside_deliveries w' = beside_deliveries w \<Longrightarrow> beside_ledger w' = beside_ledger w \<and> attempts w' = attempts w"
  by (blast intro: beside_deliveriesD(2) beside_deliveries_attempts)

text \<open>Whether the next message to an account is taken.\<close>

definition taken :: "(int \<times> scripted_plan) list \<Rightarrow> 'x smoke_world_scheme \<Rightarrow> int \<Rightarrow> bool" where
  "taken plans w p \<longleftrightarrow> (case map_of plans p of None \<Rightarrow> False | Some plan \<Rightarrow> answers_true plan (attempts w p + 1))"

text \<open>The attempts after one message to each of some accounts.\<close>

definition attempted_at :: "int set \<Rightarrow> (int \<Rightarrow> int) \<Rightarrow> int \<Rightarrow> int" where
  "attempted_at ps f q = (if q \<in> ps then f q + 1 else f q)"

abbreviation refused :: "(int \<times> scripted_plan) list \<Rightarrow> 'x smoke_world_scheme \<Rightarrow> (uuid \<Rightarrow> int option) \<Rightarrow> uuid list \<Rightarrow> uuid list" where
  "refused plans w active us \<equiv> filter (\<lambda>v. \<not> taken plans w (the (active v))) us"

definition scripted_pass ::
    "(int \<times> scripted_plan) list \<Rightarrow> uuid \<Rightarrow> (uuid \<Rightarrow> int option) \<Rightarrow> uuid list \<Rightarrow>
       'x smoke_world_scheme \<Rightarrow> 'x smoke_world_scheme \<Rightarrow> bool" where
  "scripted_pass plans e active us w w' \<longleftrightarrow>
     store_ok w' \<and> beside_ledger w' = beside_ledger w \<and> uuids_left w \<le> length us + uuids_left w' \<and>
     processed (ledger_in w) e (due (ledger_in w) e active us) (refused plans w active (due (ledger_in w) e active us)) (ledger_in w') \<and>
     attempts w' = attempted_at (the ` active ` set (due (ledger_in w) e active us)) (attempts w)"

lemma attempted_at_insert:
  "p \<notin> ps \<Longrightarrow> attempted_at (insert p ps) f = attempted_at ps (f(p := f p + 1))"
  by (auto simp: attempted_at_def fun_eq_iff)

lemma taken_cong:
  fixes w w' :: "'x smoke_world_scheme"
  shows "attempts w' p = attempts w p \<Longrightarrow> taken plans w' p = taken plans w p"
  by (simp add: taken_def split: option.split)

lemma refused_cong:
  fixes w w' :: "'x smoke_world_scheme"
  shows "(\<And>v. v \<in> set us \<Longrightarrow> attempts w' (the (active v)) = attempts w (the (active v))) \<Longrightarrow> refused plans w' active us = refused plans w active us"
  by (rule filter_cong [OF refl]) (simp add: taken_cong [of w' _ w])

text \<open>A pass that met a recipient who was not due, and one that wrote to the recipient.\<close>

lemma scripted_skip:
  fixes w w1 w' :: "'x smoke_world_scheme"
  assumes "active u = None \<or> is_sent (ledger_in w (e, u))" "store_ok w1" "ledger_in w1 = ledger_in w"
    and "beside_ledger w1 = beside_ledger w" "attempts w1 = attempts w" "uuids_left w1 = uuids_left w"
    and "scripted_pass plans e active us w1 w'"
  shows "scripted_pass plans e active (u # us) w w'"
    "refused plans w active (due (ledger_in w) e active (u # us)) = refused plans w1 active (due (ledger_in w1) e active us)"
proof -
  have d: "due (ledger_in w) e active (u # us) = due (ledger_in w1) e active us"
    using assms(1,3) by (auto simp: due_def)
  have r: "refused plans w active vs = refused plans w1 active vs" for vs
    by (rule refused_cong) (simp add: assms(5))
  show "refused plans w active (due (ledger_in w) e active (u # us)) = refused plans w1 active (due (ledger_in w1) e active us)"
    by (simp only: d r)
  then show "scripted_pass plans e active (u # us) w w'"
    using assms(3-7) unfolding scripted_pass_def d r by simp
qed

lemma scripted_write:
  fixes w w3 w' :: "'x smoke_world_scheme"
  assumes u: "active u = Some p" "\<not> is_sent (ledger_in w (e, u))" "u \<notin> set us"
    and inj: "inj_on (the \<circ> active) (set (due (ledger_in w) e active (u # us)))"
    and w3: "ledger_in w3 = (ledger_in w)((e, u) \<mapsto> attempted (ledger_in w) e u (if taken plans w p then STATUS_SENT else STATUS_FAILED))"
      "beside_ledger w3 = beside_ledger w" "attempts w3 = (attempts w)(p := attempts w p + 1)"
      "uuids_left w \<le> Suc (uuids_left w3)"
    and pass: "scripted_pass plans e active us w3 w'"
  shows "scripted_pass plans e active (u # us) w w'"
    "refused plans w active (due (ledger_in w) e active (u # us)) =
      (if taken plans w p then [] else [u]) @ refused plans w3 active (due (ledger_in w3) e active us)"
proof -
  let ?D = "due (ledger_in w) e active us"
  have d: "due (ledger_in w) e active (u # us) = u # ?D" by (rule due_step [where active = active and l = "ledger_in w", OF u(1,2)])
  have d3: "due (ledger_in w3) e active us = ?D" unfolding w3(1) by (rule due_update [OF u(3)])
  have uD: "u \<notin> set ?D" using u(3) by (simp add: due_def)
  have "the (active v) \<noteq> p" if "v \<in> set ?D" for v
    using inj that uD u(1) by (auto simp: d inj_on_def)
  then have r: "refused plans w3 active ?D = refused plans w active ?D"
    by (intro refused_cong) (simp add: w3(3))
  show ref: "refused plans w active (due (ledger_in w) e active (u # us)) =
      (if taken plans w p then [] else [u]) @ refused plans w3 active (due (ledger_in w3) e active us)"
    by (simp add: d d3 r u(1))
  let ?b = "\<not> taken plans w p"
  have stat: "(if taken plans w p then STATUS_SENT else STATUS_FAILED) = (if ?b then STATUS_FAILED else STATUS_SENT)" by simp
  have p3: "processed (ledger_in w3) e ?D (refused plans w active ?D) (ledger_in w')" "store_ok w'"
    "beside_ledger w' = beside_ledger w" "attempts w' = attempted_at (the ` active ` set ?D) (attempts w3)"
    "uuids_left w \<le> length (u # us) + uuids_left w'"
    using pass w3(2,4) by (simp_all add: scripted_pass_def d3 r)
  have "processed (ledger_in w) e (u # ?D) (if ?b then u # refused plans w active ?D else refused plans w active ?D) (ledger_in w')"
    by (rule processed_Cons [OF p3(1) [unfolded w3(1) stat] uD refl])
  then have proc: "processed (ledger_in w) e (u # ?D) (refused plans w active (u # ?D)) (ledger_in w')"
    using u(1) by (simp split: if_splits)
  have "p \<notin> the ` active ` set ?D" using \<open>\<And>v. v \<in> set ?D \<Longrightarrow> the (active v) \<noteq> p\<close> by auto
  then have "attempts w' = attempted_at (the ` active ` set (u # ?D)) (attempts w)"
    using p3(4) u(1) by (simp add: w3(3) attempted_at_insert)
  with proc p3 show "scripted_pass plans e active (u # us) w w'"
    unfolding scripted_pass_def d by simp
qed

lemma scripted_each_wp:
  fixes w :: "'x smoke_world_scheme"
  assumes "store_ok w" "distinct us" "length us \<le> uuids_left w"
    and "\<forall>v \<in> set (due (ledger_in w) (cm_event_uuid c) active us).
      map_of plans (the (active v)) \<noteq> None \<and> claimable (ledger_in w) (cm_event_uuid c) v (the (active v))"
    and "inj_on (the \<circ> active) (set (due (ledger_in w) (cm_event_uuid c) active us))"
  shows "wp (deliver_each (delivery_service_over (ScriptedVkMessenger plans)) c active failed us)
    (\<lambda>r w'. scripted_pass plans (cm_event_uuid c) active us w w' \<and>
       r = (failed \<or> refused plans w active (due (ledger_in w) (cm_event_uuid c) active us) \<noteq> []))
    (\<lambda>x w'. False) w"
  using assms
proof (induction us arbitrary: w failed)
  case Nil
  then show ?case by (simp add: scripted_pass_def due_def attempted_at_def fun_eq_iff)
next
  case (Cons u us)
  let ?e = "cm_event_uuid c" and ?S = "delivery_service_over (ScriptedVkMessenger plans) :: ('x smoke_world_scheme) vk_notification_delivery_service"
  note sel = vk_delivery_repository_sel
  note claim_sent = sql_ledger.claim_sent [unfolded sel] and claim_open = sql_ledger.claim_open [unfolded sel]
    and mark_sent = sql_ledger.mark_sent [unfolded sel] and mark_failed = sql_ledger.mark_failed [unfolded sel]
  let ?Q = "\<lambda>r w'. scripted_pass plans ?e active (u # us) w w' \<and>
       r = (failed \<or> refused plans w active (due (ledger_in w) ?e active (u # us)) \<noteq> [])"
  have u: "u \<notin> set us" "distinct us" "length us \<le> uuids_left w" "0 < uuids_left w" using Cons.prems(2,3) by simp_all
  show ?case
  proof (cases "active u = None \<or> is_sent (ledger_in w (?e, u))")
    case True
    have d: "due (ledger_in w) ?e active (u # us) = due (ledger_in w) ?e active us" using True by (auto simp: due_def)
    have skip: "wp (deliver_each ?S c active failed us) ?Q (\<lambda>x w'. False) w1"
      if w1: "store_ok w1" "ledger_in w1 = ledger_in w" "beside_ledger w1 = beside_ledger w" "attempts w1 = attempts w"
        "uuids_left w1 = uuids_left w" for w1
    proof (rule wp_mono [OF Cons.IH [OF w1(1) u(2)]])
      show "length us \<le> uuids_left w1" using u(3) w1(5) by simp
      show "\<forall>v \<in> set (due (ledger_in w1) ?e active us).
          map_of plans (the (active v)) \<noteq> None \<and> claimable (ledger_in w1) ?e v (the (active v))"
        "inj_on (the \<circ> active) (set (due (ledger_in w1) ?e active us))"
        using Cons.prems(4,5) by (simp_all only: d w1(2))
      fix r w'
      assume "scripted_pass plans ?e active us w1 w' \<and> r = (failed \<or> refused plans w1 active (due (ledger_in w1) ?e active us) \<noteq> [])"
      then show "?Q r w'"
        using scripted_skip [where active = active and us = us and w = w and ?w1.0 = w1 and plans = plans and w' = w', OF True w1]
        by simp
    qed
    show ?thesis
    proof (cases "active u")
      case None
      then show ?thesis using skip [OF Cons.prems(1)] by simp
    next
      case (Some p)
      then have "is_sent (ledger_in w (?e, u))" using True by simp
      from claim_sent [OF Cons.prems(1) this]
      have "wp (VkNotificationDeliveryRepository_claim_attempt ?e u p)
          (\<lambda>r. upon (r = None) (wp (deliver_each ?S c active failed us) ?Q (\<lambda>x w'. False)) X) (\<lambda>x w'. False) w" for X
        by (rule wp_mono) (use skip in \<open>auto dest: beside_deliveries_frame\<close>)
      then show ?thesis by (simp add: Some delivery_service_over_def)
    qed
  next
    case False
    then obtain p where p: "active u = Some p" and open': "\<not> is_sent (ledger_in w (?e, u))" by auto
    let ?l = "ledger_in w"
    have d: "due ?l ?e active (u # us) = u # due ?l ?e active us" by (rule due_step [where active = active and l = ?l, OF p open'])
    obtain plan where plan: "map_of plans p = Some plan" and clm: "claimable ?l ?e u p"
      using Cons.prems(4) by (auto simp: d p)
    have tk: "taken plans w p = answers_true plan (attempts w p + 1)" by (simp add: taken_def plan)
    let ?st = "if taken plans w p then STATUS_SENT else STATUS_FAILED"
    have rest: "wp (deliver_each ?S c active (failed \<or> \<not> taken plans w p) us) ?Q (\<lambda>x w'. False) w3"
      if w3: "store_ok w3" "ledger_in w3 = ?l((?e, u) \<mapsto> attempted ?l ?e u ?st)" "beside_ledger w3 = beside_ledger w"
        "attempts w3 = (attempts w)(p := attempts w p + 1)" "uuids_left w \<le> Suc (uuids_left w3)" for w3
    proof (rule wp_mono [OF Cons.IH [OF w3(1) u(2)]])
      show "length us \<le> uuids_left w3" using w3(5) Cons.prems(3) by simp
      have d3: "due (ledger_in w3) ?e active us = due ?l ?e active us" unfolding w3(2) by (rule due_update [OF u(1)])
      have "claimable (ledger_in w3) ?e v q = claimable ?l ?e v q" if "v \<noteq> u" for v q
        using that by (simp add: claimable_def w3(2))
      moreover have "v \<noteq> u" if "v \<in> set (due ?l ?e active us)" for v using that u(1) by (auto simp: due_def)
      ultimately show "\<forall>v \<in> set (due (ledger_in w3) ?e active us).
          map_of plans (the (active v)) \<noteq> None \<and> claimable (ledger_in w3) ?e v (the (active v))"
        using Cons.prems(4) by (simp add: d3 d)
      show "inj_on (the \<circ> active) (set (due (ledger_in w3) ?e active us))"
        using Cons.prems(5) by (simp only: d3 d) (erule inj_on_subset, auto)
      fix r w'
      assume "scripted_pass plans ?e active us w3 w' \<and>
        r = ((failed \<or> \<not> taken plans w p) \<or> refused plans w3 active (due (ledger_in w3) ?e active us) \<noteq> [])"
      then show "?Q r w'"
        using scripted_write [where active = active and us = us and w = w and plans = plans and w' = w', OF p open' u(1) Cons.prems(5) w3(2-5)] by auto
    qed
    have mark: "wp (if taken plans w p
          then thenM (VkNotificationDeliveryRepository_mark_sent ?e u) (deliver_each ?S c active failed us)
          else thenM (VkNotificationDeliveryRepository_mark_failed ?e u VK_API_SEND_FAILED) (deliver_each ?S c active True us))
        ?Q (\<lambda>x w'. False) w2"
      if w2: "store_ok w2" "ledger_in w2 = ?l((?e, u) \<mapsto> attempted ?l ?e u STATUS_PENDING)" "beside_ledger w2 = beside_ledger w"
        "attempts w2 = (attempts w)(p := attempts w p + 1)" "uuids_left w \<le> Suc (uuids_left w2)" for w2
    proof -
      have l: "ledger_in w2 (?e, u) = Some (STATUS_PENDING, attempts_of (?l (?e, u)) + 1)"
        using w2(2) by (simp add: attempted_def)
      show ?thesis
      proof (cases "taken plans w p")
        case True
        have "wp (VkNotificationDeliveryRepository_mark_sent ?e u)
            (\<lambda>_. wp (deliver_each ?S c active failed us) ?Q (\<lambda>x w'. False)) (\<lambda>x w'. False) w2"
          by (rule wp_mono [OF mark_sent [OF w2(1) l]])
            (use rest True w2 in \<open>auto simp: attempted_def dest: beside_deliveries_frame\<close>)
        with True show ?thesis by simp
      next
        case False
        have "wp (VkNotificationDeliveryRepository_mark_failed ?e u VK_API_SEND_FAILED)
            (\<lambda>_. wp (deliver_each ?S c active True us) ?Q (\<lambda>x w'. False)) (\<lambda>x w'. False) w2"
          by (rule wp_mono [OF mark_failed [OF w2(1) l]])
            (use rest False w2 in \<open>auto simp: attempted_def dest: beside_deliveries_frame\<close>)
        with False show ?thesis by simp
      qed
    qed
    let ?mark = "\<lambda>sent. if sent
          then thenM (VkNotificationDeliveryRepository_mark_sent ?e u) (deliver_each ?S c active failed us)
          else thenM (VkNotificationDeliveryRepository_mark_failed ?e u VK_API_SEND_FAILED) (deliver_each ?S c active True us)"
    have send: "wp (bindM (ScriptedVkMessenger_send_message plans p (cm_text c)) ?mark) ?Q (\<lambda>x w'. False) w1"
      if w1: "store_ok w1" "ledger_in w1 = ?l((?e, u) \<mapsto> attempted ?l ?e u STATUS_PENDING)" "beside_ledger w1 = beside_ledger w"
        "attempts w1 = attempts w" "uuids_left w \<le> Suc (uuids_left w1)" for w1
    proof -
      obtain w2 where w2: "ScriptedVkMessenger_send_message plans p (cm_text c) w1 = (Inr (taken plans w p), w2)"
        "only_attempts w1 w2" "attempts w2 = (attempts w1)(p := attempts w1 p + 1)"
        using scripted_send_run [OF plan, of "cm_text c" w1] by (auto simp: tk w1(4))
      have "wp (?mark (taken plans w p)) ?Q (\<lambda>x w'. False) w2"
        by (rule mark) (use only_attemptsD [OF w2(2)] w1 w2(3) in simp_all)
      then show ?thesis
        unfolding wp_bind
        by (rule wp_runI [where m = "ScriptedVkMessenger_send_message plans p (cm_text c)" and w = w1 and x = "taken plans w p" and w' = w2, OF w2(1)])
    qed
    have "wp (bindM (VkNotificationDeliveryRepository_claim_attempt ?e u p)
        (\<lambda>claimed. if claimed = None then deliver_each ?S c active failed us
           else bindM (ScriptedVkMessenger_send_message plans p (cm_text c)) ?mark)) ?Q (\<lambda>x w'. False) w"
      unfolding wp_bind
    proof (rule wp_mono [OF claim_open [OF Cons.prems(1) open' u(4)]], goal_cases)
      case (1 r w1)
      have "wp (bindM (ScriptedVkMessenger_send_message plans p (cm_text c)) ?mark) ?Q (\<lambda>x w'. False) w1"
        by (rule send) (use 1 Cons.prems(3) in \<open>auto simp: attempted_def dest: beside_deliveries_frame\<close>)
      moreover have "r \<noteq> None" using 1 by auto
      ultimately show ?case by (auto simp del: wp_bind)
    next
      case (2 x w1)
      then show ?case using clm by simp
    qed
    then show ?thesis by (simp add: p delivery_service_over_def)
  qed
qed

end
