(* ===== verification/Smoke_Delivery.thy ===== *)
theory Smoke_Delivery
  imports Smoke_Messenger
begin

text \<open>
  The command handler over the scripted messenger of the smoke harness: what one delivery of a command
  does, and what any number of deliveries by the broker leaves in the ledger.
\<close>

section \<open>Reachable accounts\<close>

lemma reachable_binding:
  assumes "reachable_at d u = Some p"
  obtains b where "b \<in> set (user_vks d)" "uv_user_id b = u" "live b" "uv_peer_id b = Some p"
proof -
  obtain b where "find (owned_by u) (user_vks d) = Some b" "uv_peer_id b = Some p"
    using assms by (auto simp: reachable_at_def split: option.splits if_splits)
  then show ?thesis by (intro that [of b]) (auto simp: find_Some_iff owned_by_def)
qed

lemma reachable_inj:
  assumes "db_ok d" "reachable_at d u = Some p" "reachable_at d v = Some p"
  shows "u = v"
proof -
  obtain b where b: "b \<in> set (user_vks d)" "uv_user_id b = u" "live b" "uv_peer_id b = Some p"
    by (rule reachable_binding [OF assms(2)])
  obtain b' where b': "b' \<in> set (user_vks d)" "uv_user_id b' = v" "live b'" "uv_peer_id b' = Some p"
    by (rule reachable_binding [OF assms(3)])
  have "inj_on uv_peer_id {r \<in> set (user_vks d). live r \<and> uv_peer_id r \<noteq> None}"
    using assms(1) by (auto simp: db_ok_def constraints_ok_def user_vks_ok_def distinct_map)
  then have "b = b'" by (rule inj_onD) (use b b' in auto)
  with b b' show ?thesis by simp
qed

lemma reachable_fits:
  assumes "db_ok d" "reachable_at d u = Some p"
  shows "fits_bigint p"
proof -
  obtain b where "b \<in> set (user_vks d)" "uv_peer_id b = Some p" by (rule reachable_binding [OF assms(2)])
  then show ?thesis
    using assms(1) by (auto simp: db_ok_def columns_ok_def list_all_iff user_vk_fits_def opt_fits_def split: option.splits)
qed

section \<open>One delivery\<close>

abbreviation peer_of :: "'x world_scheme \<Rightarrow> uuid \<Rightarrow> int" where
  "peer_of w r \<equiv> the (reachable_at (committed w) r)"

text \<open>What a delivery of an accepted command leaves: nothing else of the world has moved.\<close>

definition scripted_outcome ::
    "(int \<times> scripted_plan) list \<Rightarrow> notification_command \<Rightarrow> uuid list \<Rightarrow> 'x smoke_world_scheme \<Rightarrow> 'x smoke_world_scheme \<Rightarrow> bool" where
  "scripted_outcome plans c bad w w' \<longleftrightarrow>
     domain_ok w' \<and> user_vks (committed w') = user_vks (committed w) \<and>
     uuids_left w \<le> length (cm_user_ids c) + uuids_left w' \<and>
     processed (ledger_in (opened w)) (cm_event_uuid c) (due_recipients (opened w) c) bad (ledger_in (opened w')) \<and>
     attempts w' = attempted_at (peer_of w ` set (due_recipients (opened w) c)) (attempts w)"

abbreviation unanswered :: "(int \<times> scripted_plan) list \<Rightarrow> notification_command \<Rightarrow> 'x smoke_world_scheme \<Rightarrow> uuid list" where
  "unanswered plans c w \<equiv> filter (\<lambda>r. \<not> taken plans w (peer_of w r)) (due_recipients (opened w) c)"

text \<open>Every recipient who is due has a plan and room for one attempt more.\<close>

definition foreseen :: "(int \<times> scripted_plan) list \<Rightarrow> notification_command \<Rightarrow> 'x smoke_world_scheme \<Rightarrow> bool" where
  "foreseen plans c w \<longleftrightarrow>
     (\<forall>r \<in> set (due_recipients (opened w) c).
        map_of plans (peer_of w r) \<noteq> None \<and>
        claimable (ledger_in (opened w)) (cm_event_uuid c) r (peer_of w r))"

lemma attempts_session [simp]:
  fixes w :: "'x smoke_world_scheme"
  shows "attempts (opened w) = attempts w" "attempts (kept w) = attempts w"
  by (simp_all add: attempts_def opened_def kept_def)

lemma taken_session [simp]:
  fixes w :: "'x smoke_world_scheme"
  shows "taken plans (opened w) p = taken plans w p"
  by (simp add: taken_def split: option.split)

lemma uuids_left_session [simp]: "uuids_left (opened w) = uuids_left w" "uuids_left (kept w) = uuids_left w"
  by (simp_all add: uuids_left_def)

lemma scripted_deliver_wp:
  fixes w :: "'x smoke_world_scheme"
  assumes ok: "domain_ok w" and dist: "distinct (cm_user_ids c)" and space: "length (cm_user_ids c) \<le> uuids_left w"
    and plan: "foreseen plans c w"
  shows "wp (VkNotificationDeliveryService_deliver (delivery_service_over (ScriptedVkMessenger plans)) c)
    (\<lambda>_ w'. unanswered plans c w = [] \<and> scripted_outcome plans c [] w (kept w'))
    (\<lambda>x w'. unanswered plans c w \<noteq> [] \<and> x = Exn VkDeliveryRetryableError (lit ''VK delivery has retryable recipient failures'') \<and>
       scripted_outcome plans c (unanswered plans c w) w (kept w')) (opened w)"
    (is "wp _ ?Q ?E _")
proof -
  let ?us = "cm_user_ids c" and ?e = "cm_event_uuid c" and ?w = "opened w"
  let ?act = "active_peers (filter (matches_ids ?us (Some STATE_ACTIVE)) (user_vks (db ?w)))"
  have okw: "domain_ok ?w" by (rule domain_ok_opened [OF ok])
  have due: "due (ledger_in ?w) ?e ?act ?us = due_recipients ?w c"
    by (rule due_recipients_eq(1) [OF domain_okD(1) [OF okw]])
  have act: "?act r = reachable_at (committed w) r" if "r \<in> set (due_recipients ?w c)" for r
    using active_peers_reachable [OF domain_okD(1) [OF okw], of r ?us] that by (simp add: due_recipients_def)
  have inj: "inj_on (the \<circ> ?act) (set (due_recipients ?w c))"
  proof (rule inj_onI)
    fix r s assume rs: "r \<in> set (due_recipients ?w c)" "s \<in> set (due_recipients ?w c)" "(the \<circ> ?act) r = (the \<circ> ?act) s"
    then show "r = s"
      using act [OF rs(1)] act [OF rs(2)] reachable_inj [OF domain_okD(2) [OF ok], of r _ s]
      by (auto simp: due_recipients_def)
  qed
  have bad: "refused plans ?w ?act (due_recipients ?w c) = unanswered plans c w"
    by (rule filter_cong [OF refl]) (use act in simp)
  have peers: "the ` ?act ` set (due_recipients ?w c) = peer_of w ` set (due_recipients ?w c)"
    using act by (auto simp: image_iff)
  have state: "lit ''ACTIVE'' = STATE_ACTIVE" by (simp add: STATE_ACTIVE_def)
  have get: "wp (UserVkRepository_get_by_user_ids ?us (Some STATE_ACTIVE)) Q E ?w =
      Q (filter (matches_ids ?us (Some STATE_ACTIVE)) (user_vks (db ?w))) ?w" for Q E
    by (rule wp_Inr) (rule get_by_user_ids_run)
  have out: "scripted_outcome plans c (unanswered plans c w) w (kept w')" if "scripted_pass plans ?e ?act ?us ?w w'" for w'
  proof -
    have "domain_ok w'" by (rule domain_ok_ledger [OF okw]) (use that in \<open>simp_all only: scripted_pass_def\<close>)
    then have "domain_ok (kept w')" by (rule domain_ok_kept)
    then show ?thesis
      using that unfolding scripted_pass_def scripted_outcome_def due bad peers by (simp add: beside_ledger_def)
  qed
  have "wp (deliver_each (delivery_service_over (ScriptedVkMessenger plans)) c ?act False ?us)
      (\<lambda>r. upon r (?E (Exn VkDeliveryRetryableError (lit ''VK delivery has retryable recipient failures'')))
         (?Q ())) ?E ?w"
  proof (rule wp_mono [OF scripted_each_wp [where failed = False and plans = plans and active = ?act and c = c and us = ?us and w = ?w,
        OF domain_okD(6) [OF okw] dist]], goal_cases)
    case 2
    then show ?case unfolding due using plan act by (simp add: foreseen_def)
  next
    case 3
    then show ?case using inj by (simp only: due)
  next
    case (4 r w')
    then have "scripted_pass plans ?e ?act ?us ?w w'" "r = (unanswered plans c w \<noteq> [])"
      unfolding due bad by simp_all
    with out [of w'] show ?case by auto
  qed (use space in simp_all)
  then show ?thesis
    unfolding VkNotificationDeliveryService_deliver_def state user_vk_repository_sel
      wp_bind wp_if wp_throw wp_ret delivery_service_over_def vk_notification_delivery_service.simps get .
qed

lemma scripted_outcome_opened: "scripted_outcome plans c bad w w' \<Longrightarrow> scripted_outcome plans c bad w (opened w')"
  by (simp add: scripted_outcome_def domain_ok_opened)

text \<open>One delivery of an accepted command: its answer, and what it leaves.\<close>

lemma scripted_handle_run:
  fixes w :: "'x smoke_world_scheme"
  assumes acc: "accepted u decode payload headers = Some c" and ok: "domain_ok w"
    and space: "length (cm_user_ids c) \<le> uuids_left w" and plan: "foreseen plans c w"
  shows "\<exists>w'. NotificationCommandsSendVkHandler_handle (ScriptedVkMessenger plans) u decode payload headers w =
      (if unanswered plans c w = [] then Inr ()
       else Inl (Exn VkDeliveryRetryableError (lit ''VK delivery has retryable recipient failures'')), w') \<and>
    scripted_outcome plans c (unanswered plans c w) w w'"
proof -
  obtain r w1 where run: "VkNotificationDeliveryService_deliver (delivery_service_over (ScriptedVkMessenger plans)) c (opened w) = (r, w1)"
    by (cases "VkNotificationDeliveryService_deliver (delivery_service_over (ScriptedVkMessenger plans)) c (opened w)")
  note wp = scripted_deliver_wp [OF ok accepted_distinct [OF acc] space plan, unfolded wp_def run prod.case]
  show ?thesis
  proof (cases r)
    case (Inl x)
    then show ?thesis using wp
      by (intro exI [of _ "opened (kept w1)"]) (simp add: accepted_run_over [OF acc] run scripted_outcome_opened)
  next
    case (Inr y)
    then show ?thesis using wp
      by (intro exI [of _ "opened (kept w1)"]) (simp add: accepted_run_over [OF acc] run scripted_outcome_opened)
  qed
qed

section \<open>Many deliveries\<close>

text \<open>The world after a message has been delivered some number of times, whatever the handler answered.\<close>

definition delivered :: "nat \<Rightarrow> ('w, 'a) prog \<Rightarrow> 'w \<Rightarrow> 'w" where
  "delivered n m w = ((\<lambda>v. snd (m v)) ^^ n) w"

lemma delivered_simps [simp]: "delivered 0 m w = w" "delivered (Suc n) m w = snd (m (delivered n m w))"
  by (simp_all add: delivered_def)

text \<open>How many messages an account has been written after so many deliveries, and its row in the ledger.\<close>

fun tries :: "scripted_plan \<Rightarrow> nat \<Rightarrow> nat" where
  "tries Success n = min n 1"
| "tries Fail_First_Then_Success n = min n 2"
| "tries Fail_Always n = n"

fun settled :: "scripted_plan \<Rightarrow> nat \<Rightarrow> bool" where
  "settled Success n \<longleftrightarrow> 1 \<le> n"
| "settled Fail_First_Then_Success n \<longleftrightarrow> 2 \<le> n"
| "settled Fail_Always n \<longleftrightarrow> False"

definition planned_row :: "scripted_plan \<Rightarrow> nat \<Rightarrow> (pystr \<times> int) option" where
  "planned_row plan n =
     (if n = 0 then None else Some (if settled plan n then STATUS_SENT else STATUS_FAILED, int (tries plan n)))"

lemma planned_row_sel [simp]:
  "is_sent (planned_row plan n) \<longleftrightarrow> settled plan n" "attempts_of (planned_row plan n) = int (tries plan n)"
  by (cases plan; auto simp: planned_row_def)+

lemma planned_step:
  "settled plan n \<Longrightarrow> planned_row plan (Suc n) = planned_row plan n \<and> tries plan (Suc n) = tries plan n"
  "\<not> settled plan n \<Longrightarrow> planned_row plan (Suc n) =
     Some (if answers_true plan (int (tries plan n) + 1) then STATUS_SENT else STATUS_FAILED, int (tries plan n) + 1) \<and>
     tries plan (Suc n) = Suc (tries plan n)"
  "\<not> settled plan n \<Longrightarrow> answers_true plan (int (tries plan n) + 1) = settled plan (Suc n)"
  by (cases plan; auto simp: planned_row_def answers_true_def)+

lemma tries_le: "tries plan n \<le> n"
  by (cases plan) auto

text \<open>The state after some deliveries, seen from the state before the first.\<close>

definition after ::
    "(int \<times> scripted_plan) list \<Rightarrow> notification_command \<Rightarrow> nat \<Rightarrow> 'x smoke_world_scheme \<Rightarrow> 'x smoke_world_scheme \<Rightarrow> bool" where
  "after plans c n w v \<longleftrightarrow>
     domain_ok v \<and> user_vks (committed v) = user_vks (committed w) \<and>
     uuids_left w \<le> n * length (cm_user_ids c) + uuids_left v \<and>
     (\<forall>r \<in> set (cm_user_ids c).
        case reachable_at (committed w) r of
          None \<Rightarrow> ledger_in (opened v) (cm_event_uuid c, r) = None
        | Some p \<Rightarrow>
            ledger_in (opened v) (cm_event_uuid c, r) = planned_row (the (map_of plans p)) n \<and>
            attempts v p = int (tries (the (map_of plans p)) n))"

text \<open>Before the first delivery: every reachable recipient has a plan and nobody has been written to.\<close>

definition unwritten :: "(int \<times> scripted_plan) list \<Rightarrow> notification_command \<Rightarrow> 'x smoke_world_scheme \<Rightarrow> bool" where
  "unwritten plans c w \<longleftrightarrow>
     (\<forall>r \<in> set (cm_user_ids c).
        ledger_in (opened w) (cm_event_uuid c, r) = None \<and>
        (case reachable_at (committed w) r of None \<Rightarrow> True | Some p \<Rightarrow> map_of plans p \<noteq> None \<and> attempts w p = 0))"

lemma after_0: "domain_ok w \<Longrightarrow> unwritten plans c w \<Longrightarrow> after plans c 0 w w"
  by (auto simp: after_def unwritten_def planned_row_def split: option.splits)
    (metis tries_le le_zero_eq of_nat_0)

text \<open>Who is due after some deliveries, and that it is foreseen.\<close>

lemma after_reachable: "after plans c n w v \<Longrightarrow> reachable_at (committed v) = reachable_at (committed w)"
  by (auto simp: after_def intro: reachable_same)

lemma after_due:
  assumes "after plans c n w v"
  shows "due_recipients (opened v) c =
    filter (\<lambda>r. reachable_at (committed w) r \<noteq> None \<and> \<not> settled (the (map_of plans (peer_of w r))) n) (cm_user_ids c)"
  unfolding due_recipients_def
  by (rule filter_cong [OF refl])
    (use assms in \<open>force simp: after_def after_reachable [OF assms] split: option.splits\<close>)

lemma after_foreseen:
  assumes "after plans c n w v" "unwritten plans c w" "domain_ok w" "int n + 1 < 2 ^ 31"
  shows "foreseen plans c v"
  unfolding foreseen_def after_due [OF assms(1)] after_reachable [OF assms(1)]
proof
  fix r assume "r \<in> set (filter (\<lambda>r. reachable_at (committed w) r \<noteq> None \<and> \<not> settled (the (map_of plans (peer_of w r))) n) (cm_user_ids c))"
  then obtain p where r: "r \<in> set (cm_user_ids c)" and p: "reachable_at (committed w) r = Some p" by auto
  have "ledger_in (opened v) (cm_event_uuid c, r) = planned_row (the (map_of plans p)) n"
    using assms(1) r p by (force simp: after_def split: option.splits)
  moreover have "map_of plans p \<noteq> None" using assms(2) r p by (force simp: unwritten_def split: option.splits)
  moreover have "fits_bigint p" by (rule reachable_fits [OF domain_okD(2) [OF assms(3)] p])
  ultimately show "map_of plans (peer_of w r) \<noteq> None \<and>
      claimable (ledger_in (opened v)) (cm_event_uuid c) r (peer_of w r)"
    using tries_le [of "the (map_of plans p)" n] assms(4)
    by (simp add: claimable_def p fits_integer_def)
qed

lemma peer_image:
  assumes "db_ok (committed w)" "reachable_at (committed w) r = Some p"
    and "\<And>s. s \<in> ss \<Longrightarrow> reachable_at (committed w) s \<noteq> None"
  shows "p \<in> peer_of w ` ss \<longleftrightarrow> r \<in> ss"
proof
  assume "p \<in> peer_of w ` ss"
  then obtain s where "s \<in> ss" "p = peer_of w s" by auto
  with assms(3) [of s] reachable_inj [OF assms(1,2), of s] show "r \<in> ss" by auto
next
  assume "r \<in> ss"
  then show "p \<in> peer_of w ` ss" using assms(2) by (force simp: image_iff)
qed

lemma after_step:
  fixes w v v' :: "'x smoke_world_scheme"
  assumes v: "after plans c n w v" and w: "unwritten plans c w" "domain_ok w"
    and out: "scripted_outcome plans c (unanswered plans c v) v v'"
  shows "after plans c (Suc n) w v'"
proof -
  let ?e = "cm_event_uuid c" and ?plan = "\<lambda>p. the (map_of plans p)" and ?D = "set (due_recipients (opened v) c)"
  note reach = after_reachable [OF v]
  have rows: "\<forall>r \<in> set (cm_user_ids c).
        case reachable_at (committed w) r of
          None \<Rightarrow> ledger_in (opened v) (?e, r) = None
        | Some p \<Rightarrow> ledger_in (opened v) (?e, r) = planned_row (?plan p) n \<and> attempts v p = int (tries (?plan p) n)"
    using v unfolding after_def by (elim conjE)
  have due: "r \<in> ?D \<longleftrightarrow> \<not> settled (?plan p) n" if "r \<in> set (cm_user_ids c)" "reachable_at (committed w) r = Some p" for r p
    using that by (simp add: after_due [OF v])
  have proc: "processed (ledger_in (opened v)) ?e (due_recipients (opened v) c) (unanswered plans c v) (ledger_in (opened v'))"
    and att: "attempts v' = attempted_at (peer_of w ` ?D) (attempts v)"
    using out by (simp_all add: scripted_outcome_def reach)
  have same: "ledger_in (opened v') (?e, r) = ledger_in (opened v) (?e, r)" if "r \<notin> ?D" for r
    using proc that by (auto simp: processed_def)
  have row: "case reachable_at (committed w) r of
      None \<Rightarrow> ledger_in (opened v') (?e, r) = None
    | Some p \<Rightarrow> ledger_in (opened v') (?e, r) = planned_row (?plan p) (Suc n) \<and> attempts v' p = int (tries (?plan p) (Suc n))"
    if r: "r \<in> set (cm_user_ids c)" for r
  proof (cases "reachable_at (committed w) r")
    case None
    then have "r \<notin> ?D" by (simp add: after_due [OF v])
    moreover have "ledger_in (opened v) (?e, r) = None" using bspec [OF rows r] None by simp
    ultimately show ?thesis using None same [of r] by simp
  next
    case (Some p)
    have now: "ledger_in (opened v) (?e, r) = planned_row (?plan p) n" "attempts v p = int (tries (?plan p) n)"
      using bspec [OF rows r] Some by simp_all
    have "\<exists>plan. map_of plans p = Some plan" using w(1) r Some by (force simp: unwritten_def split: option.splits)
    then obtain plan where plan: "map_of plans p = Some plan" by blast
    have p_D: "p \<in> peer_of w ` ?D \<longleftrightarrow> r \<in> ?D"
      by (rule peer_image [OF domain_okD(2) [OF w(2)] Some]) (simp add: after_due [OF v])
    show ?thesis
    proof (cases "settled plan n")
      case True
      then have "r \<notin> ?D" using due [OF r Some] plan by simp
      with same [of r] now p_D True planned_step(1) [of plan n] show ?thesis
        by (simp add: Some plan att attempted_at_def)
    next
      case False
      then have rD: "r \<in> ?D" using due [OF r Some] plan by simp
      have tk: "taken plans v (peer_of v r) = answers_true plan (int (tries plan n) + 1)"
        using now(2) by (simp add: taken_def reach Some plan)
      have "ledger_in (opened v') (?e, r) = Some (attempted (ledger_in (opened v)) ?e r
          (if r \<in> set (unanswered plans c v) then STATUS_FAILED else STATUS_SENT))"
        using proc rD by (simp only: processed_def)
      then show ?thesis
        using rD tk now p_D planned_step(2) [OF False]
        by (simp add: Some plan att attempted_at_def attempted_def)
    qed
  qed
  have "uuids_left w \<le> Suc n * length (cm_user_ids c) + uuids_left v'"
    using v out by (simp add: after_def scripted_outcome_def)
  then show ?thesis
    using v out row by (simp add: after_def scripted_outcome_def)
qed

section \<open>Properties\<close>

lemma after_next:
  fixes w v :: "'x smoke_world_scheme"
  assumes acc: "accepted u decode payload headers = Some c" and v: "after plans c n w v"
    and w: "unwritten plans c w" "domain_ok w" and space: "Suc n * length (cm_user_ids c) \<le> uuids_left w"
    and bound: "int n + 1 < 2 ^ 31"
  shows "\<exists>v'. NotificationCommandsSendVkHandler_handle (ScriptedVkMessenger plans) u decode payload headers v =
      (if \<forall>r \<in> set (cm_user_ids c). reachable_at (committed w) r = None \<or> settled (the (map_of plans (peer_of w r))) (Suc n)
       then Inr ()
       else Inl (Exn VkDeliveryRetryableError (lit ''VK delivery has retryable recipient failures'')), v') \<and>
    after plans c (Suc n) w v'"
proof -
  have ok: "domain_ok v" "length (cm_user_ids c) \<le> uuids_left v" using v space by (simp_all add: after_def)
  have foreseen: "foreseen plans c v" by (rule after_foreseen [OF v w bound])
  have tk: "taken plans v (peer_of v r) = settled (the (map_of plans (peer_of w r))) (Suc n)"
    if "r \<in> set (due_recipients (opened v) c)" for r
  proof -
    have "r \<in> set (cm_user_ids c)" "reachable_at (committed w) r \<noteq> None" "\<not> settled (the (map_of plans (peer_of w r))) n"
      using that by (simp_all add: after_due [OF v])
    then obtain p where p: "r \<in> set (cm_user_ids c)" "reachable_at (committed w) r = Some p" "\<not> settled (the (map_of plans p)) n"
      by auto
    then have "\<exists>plan. map_of plans p = Some plan" using w(1) by (force simp: unwritten_def split: option.splits)
    then obtain plan where plan: "map_of plans p = Some plan" by blast
    have "attempts v p = int (tries plan n)" using v p(1,2) plan by (force simp: after_def split: option.splits)
    then show ?thesis
      using planned_step(3) [of plan n] p plan by (simp add: taken_def after_reachable [OF v])
  qed
  have done': "settled plan n \<Longrightarrow> settled plan (Suc n)" for plan by (cases plan) auto
  have "unanswered plans c v = [] \<longleftrightarrow> (\<forall>r \<in> set (due_recipients (opened v) c). settled (the (map_of plans (peer_of w r))) (Suc n))"
    using tk by (simp add: filter_empty_conv)
  also have "\<dots> \<longleftrightarrow> (\<forall>r \<in> set (cm_user_ids c).
      reachable_at (committed w) r = None \<or> settled (the (map_of plans (peer_of w r))) (Suc n))"
    using done' by (auto simp: after_due [OF v])
  finally have settled: "unanswered plans c v = [] \<longleftrightarrow> (\<forall>r \<in> set (cm_user_ids c).
      reachable_at (committed w) r = None \<or> settled (the (map_of plans (peer_of w r))) (Suc n))" .
  show ?thesis
    using scripted_handle_run [OF acc ok foreseen] after_step [OF v w] unfolding settled by blast
qed

lemma after_delivered:
  fixes w :: "'x smoke_world_scheme"
  assumes "accepted u decode payload headers = Some c" "unwritten plans c w" "domain_ok w"
    and "n * length (cm_user_ids c) \<le> uuids_left w" "int n < 2 ^ 31"
  shows "after plans c n w
    (delivered n (NotificationCommandsSendVkHandler_handle (ScriptedVkMessenger plans) u decode payload headers) w)"
  using assms(4,5)
proof (induction n)
  case 0
  then show ?case using after_0 [OF assms(3,2)] by simp
next
  case (Suc n)
  then show ?case using after_next [OF assms(1) Suc.IH assms(2,3)] by auto
qed

text \<open>
  C14. The deliveries of a command follow the plans of its recipients.  However often the broker delivers
  an accepted command about which nobody had been written to before, the committed ledger of every
  reachable recipient is what the recipient's plan says: \<open>SENT\<close> after one attempt, or after two, with
  no attempt afterwards, or \<open>FAILED\<close> with one attempt for each delivery; the messenger has counted the
  same attempts, recipients who cannot be reached have no row, and the next delivery is answered
  exactly when it leaves nobody unsettled, and is retryable otherwise.
\<close>

theorem redeliveries_follow_plan:
  fixes w :: "'x smoke_world_scheme"
  assumes "accepted u decode payload headers = Some c" "unwritten plans c w" "domain_ok w"
    and "room (Suc n * length (cm_user_ids c)) w" "int n + 1 < 2 ^ 31"
  defines "handle \<equiv> NotificationCommandsSendVkHandler_handle (ScriptedVkMessenger plans) u decode payload headers"
  shows "(\<forall>r \<in> set (cm_user_ids c).
      case reachable_at (committed w) r of
        None \<Rightarrow> ledger_of (vk_deliveries (committed (delivered n handle w))) (cm_event_uuid c, r) = None
      | Some p \<Rightarrow>
          ledger_of (vk_deliveries (committed (delivered n handle w))) (cm_event_uuid c, r) =
            planned_row (the (map_of plans p)) n \<and>
          attempts_at (scripted_attempts (delivered n handle w)) p = int (tries (the (map_of plans p)) n)) \<and>
    fst (handle (delivered n handle w)) =
      (if \<forall>r \<in> set (cm_user_ids c).
            reachable_at (committed w) r = None \<or> settled (the (map_of plans (peer_of w r))) (Suc n)
       then Inr ()
       else Inl (Exn VkDeliveryRetryableError (lit ''VK delivery has retryable recipient failures'')))"
proof -
  have space: "Suc n * length (cm_user_ids c) \<le> uuids_left w" using assms(4) by (simp add: room_def uuids_left_def)
  then have now: "after plans c n w (delivered n handle w)"
    unfolding handle_def using assms(5) by (intro after_delivered [OF assms(1-3)]) simp_all
  obtain v' where "handle (delivered n handle w) =
      (if \<forall>r \<in> set (cm_user_ids c).
            reachable_at (committed w) r = None \<or> settled (the (map_of plans (peer_of w r))) (Suc n)
       then Inr ()
       else Inl (Exn VkDeliveryRetryableError (lit ''VK delivery has retryable recipient failures'')), v')"
    using after_next [OF assms(1) now assms(2,3) space assms(5)] unfolding handle_def by blast
  moreover have "\<forall>r \<in> set (cm_user_ids c).
      case reachable_at (committed w) r of
        None \<Rightarrow> ledger_in (opened (delivered n handle w)) (cm_event_uuid c, r) = None
      | Some p \<Rightarrow>
          ledger_in (opened (delivered n handle w)) (cm_event_uuid c, r) = planned_row (the (map_of plans p)) n \<and>
          attempts (delivered n handle w) p = int (tries (the (map_of plans p)) n)"
    using now unfolding after_def by (elim conjE)
  ultimately show ?thesis unfolding attempts_def opened_sel(1) by (simp only: fst_conv)
qed

end
