(* ===== verification/Smoke_Runner.thy ===== *)
theory Smoke_Runner
  imports Smoke_Delivery Notification_Consumer
begin

text \<open>
  \<open>smoke_harness/runner.py\<close> and \<open>smoke_harness/__main__.py\<close>: one run of the harness.  It checks the
  fixtures, builds the handler over the scripted messenger, publishes one command on a topology of
  its own, waits for the ledger, and cleans up whatever happened.

  The local variables of \<open>run\<close> the clean-up reads are fields of \<open>harness_world\<close>.  What the other tasks of the
  event loop do while the harness sleeps is a parameter, \<open>event_loop\<close>, a function of the handler the consumer
  was given, of the time slept and of the world; \<open>encode\<close> and \<open>decode\<close> are the JSON codec of the schema
  library.  An exception that leaves \<open>run\<close> is one exception or a group of them (\<open>raised\<close>).
\<close>

section \<open>Results and the world\<close>

record recipient_evidence =
  re_recipient :: int
  re_status :: pystr
  re_attempts :: int

record smoke_result =
  sr_scenario :: pystr
  sr_recipients :: "recipient_evidence list"
  sr_redeliveries :: int

record harness_world = smoke_world +
  stream_created :: bool
  harness_consumer :: bool
  harness_disposed :: bool
  num_redelivered :: "nat \<Rightarrow> int option"

type_synonym 'w event_loop = "'w command_handler \<Rightarrow> rat \<Rightarrow> 'w \<Rightarrow> 'w"

definition SMOKE_MAX_DELIVER :: int where
  "SMOKE_MAX_DELIVER = 3"

text \<open>\<open>asyncio.sleep\<close>, while the other tasks run.\<close>

definition asyncio_sleep :: "(rat \<Rightarrow> 'x nats_world_scheme \<Rightarrow> 'x nats_world_scheme) \<Rightarrow> rat \<Rightarrow> ('x nats_world_scheme, unit) prog" where
  "asyncio_sleep pause t = thenM (sleep (Finite t)) (modifyM (pause t))"

section \<open>Fixtures\<close>

definition fixture_rows :: "uuid list \<Rightarrow> ('x world_scheme, user_vk list) prog" where
  "fixture_rows target_user_ids =
     with_session (getsM (\<lambda>w. filter (\<lambda>r. uv_user_id r \<in> set target_user_ids) (user_vks (db w))))"

definition expected_state :: "smoke_scenario \<Rightarrow> pystr option" where
  "expected_state s =
     (case s of
        Unknown_User \<Rightarrow> None | Pending_Binding \<Rightarrow> Some (lit ''PENDING'') | Blocked_Binding \<Rightarrow> Some (lit ''BLOCKED'')
      | Soft_Deleted_Binding \<Rightarrow> Some (lit ''DELETED'') | _ \<Rightarrow> Some (lit ''ACTIVE''))"

definition fixtures_match :: "smoke_config \<Rightarrow> user_vk list \<Rightarrow> bool" where
  "fixtures_match config rows \<longleftrightarrow>
     (case expected_state (sk_scenario config) of
        None \<Rightarrow> rows = []
      | Some state \<Rightarrow>
          if state = lit ''DELETED''
          then length rows = length (sk_target_user_ids config) \<and> list_all (\<lambda>r. uv_deleted_at r \<noteq> None) rows
          else length rows = length (sk_target_user_ids config) \<and>
            list_all (\<lambda>r. uv_state r = state \<and> uv_deleted_at r = None) rows)"

definition validate_fixture_state :: "smoke_config \<Rightarrow> user_vk list \<Rightarrow> ('w, unit) prog" where
  "validate_fixture_state config rows =
     (if sk_scenario config = Malformed then retM ()
      else if \<not> fixtures_match config rows
      then raiseM RuntimeError (lit ''synthetic fixtures do not match the guarded scenario'')
      else retM ())"

text \<open>The comprehensions over the rows; a later row replaces an earlier one of the same key.\<close>

definition peer_by_user :: "user_vk list \<Rightarrow> (uuid \<times> int) list" where
  "peer_by_user rows =
     dict_merge [] (map (\<lambda>r. (uv_user_id r, the (uv_peer_id r)))
       (filter (\<lambda>r. uv_state r = lit ''ACTIVE'' \<and> uv_deleted_at r = None \<and> uv_peer_id r \<noteq> None) rows))"

definition peer_plans :: "smoke_config \<Rightarrow> (uuid \<times> int) list \<Rightarrow> ('w, (int \<times> scripted_plan) list) prog" where
  "peer_plans config peers =
     (case those (map (\<lambda>(user_id, peer_id). map_option (Pair peer_id) (map_of (sk_plans config) user_id)) peers) of
        None \<Rightarrow> raiseM KeyError (lit ''user_id'')
      | Some plans \<Rightarrow> retM (dict_merge [] plans))"

section \<open>The ledger of the run\<close>

definition run_deliveries :: "smoke_config \<Rightarrow> ('x world_scheme, vk_delivery list) prog" where
  "run_deliveries config =
     with_session (getsM (\<lambda>w. filter
       (\<lambda>r. dl_event_uuid r = sk_event_uuid config \<and> dl_user_id r \<in> set (sk_target_user_ids config)) (vk_deliveries (db w))))"

fun wait_for_sent_rows ::
    "(rat \<Rightarrow> 'x nats_world_scheme \<Rightarrow> 'x nats_world_scheme) \<Rightarrow> smoke_config \<Rightarrow> nat \<Rightarrow> ('x nats_world_scheme, unit) prog" where
  "wait_for_sent_rows pause config 0 =
     raiseM PyTimeoutError (lit ''smoke harness did not reach a bounded terminal state'')"
| "wait_for_sent_rows pause config (Suc n) =
     bindM (run_deliveries config) (\<lambda>deliveries.
       let rows = map dl_status deliveries in
       if length rows = length (sk_target_user_ids config) \<and> count_list rows (lit ''SENT'') = length rows then retM ()
       else thenM (asyncio_sleep pause (1 / 10)) (wait_for_sent_rows pause config n))"

definition failed_row :: "smoke_config \<Rightarrow> uuid \<Rightarrow> ('x world_scheme, vk_delivery option) prog" where
  "failed_row config user_id =
     with_session (bindM
       (getsM (\<lambda>w. filter (\<lambda>r. dl_event_uuid r = sk_event_uuid config \<and> dl_user_id r = user_id) (vk_deliveries (db w))))
       one_or_none)"

text \<open>\<open>row is not None and all((...))\<close>: the tuple is built, so the attempts are read, when there is a row.\<close>

definition exhausted :: "int \<Rightarrow> int \<Rightarrow> vk_delivery option \<Rightarrow> ('x smoke_world_scheme, bool) prog" where
  "exhausted peer_id max_deliver row =
     (case row of
        None \<Rightarrow> retM False
      | Some r \<Rightarrow>
          bindM (ScriptedVkMessenger_attempts_for peer_id) (\<lambda>n.
            retM (dl_status r = lit ''FAILED'' \<and> dl_attempts r = max_deliver \<and> n = max_deliver)))"

fun poll_exhaustion ::
    "(rat \<Rightarrow> 'x smoke_world_scheme \<Rightarrow> 'x smoke_world_scheme) \<Rightarrow> smoke_config \<Rightarrow> uuid \<Rightarrow> int \<Rightarrow> int \<Rightarrow> rat \<Rightarrow> nat \<Rightarrow>
       ('x smoke_world_scheme, unit) prog" where
  "poll_exhaustion pause config user_id peer_id max_deliver ack_wait_seconds 0 =
     raiseM PyTimeoutError (lit ''smoke harness did not exhaust bounded failed redelivery'')"
| "poll_exhaustion pause config user_id peer_id max_deliver ack_wait_seconds (Suc n) =
     bindM (failed_row config user_id) (\<lambda>row.
     bindM (exhausted peer_id max_deliver row) (\<lambda>all_failed.
       if all_failed
       then
         thenM (asyncio_sleep pause (ack_wait_seconds + 1 / 4))
         (bindM (ScriptedVkMessenger_attempts_for peer_id) (\<lambda>n.
            if n \<noteq> max_deliver then raiseM RuntimeError (lit ''smoke harness exceeded bounded max-deliver'') else retM ()))
       else
         thenM (asyncio_sleep pause (1 / 10))
           (poll_exhaustion pause config user_id peer_id max_deliver ack_wait_seconds n)))"

definition wait_for_failed_redelivery_exhaustion ::
    "(rat \<Rightarrow> 'x smoke_world_scheme \<Rightarrow> 'x smoke_world_scheme) \<Rightarrow> smoke_config \<Rightarrow> (uuid \<times> int) list \<Rightarrow> int \<Rightarrow> rat \<Rightarrow>
       ('x smoke_world_scheme, unit) prog" where
  "wait_for_failed_redelivery_exhaustion pause config peers max_deliver ack_wait_seconds =
     (case sk_target_user_ids config of
        [] \<Rightarrow> raiseM IndexError (lit ''tuple index out of range'')
      | user_id # _ \<Rightarrow>
          (case map_of peers user_id of
             None \<Rightarrow> raiseM KeyError (uuid_str user_id)
           | Some peer_id \<Rightarrow> poll_exhaustion pause config user_id peer_id max_deliver ack_wait_seconds 80))"

section \<open>Evidence\<close>

text \<open>The dictionary of rows by user; the attempts of a user who has no account are not read.\<close>

fun evidence ::
    "(uuid \<Rightarrow> vk_delivery option) \<Rightarrow> (uuid \<times> int) list \<Rightarrow> int \<Rightarrow> uuid list \<Rightarrow> ('x smoke_world_scheme, recipient_evidence list) prog" where
  "evidence ledger peers index [] = retM []"
| "evidence ledger peers index (user_id # users) =
     bindM (case map_of peers user_id of None \<Rightarrow> retM 0 | Some peer_id \<Rightarrow> ScriptedVkMessenger_attempts_for peer_id) (\<lambda>n.
     bindM (evidence ledger peers (index + 1) users) (\<lambda>rest.
       retM
         (\<lparr>re_recipient = index,
           re_status = (case ledger user_id of None \<Rightarrow> lit ''SKIPPED'' | Some r \<Rightarrow> dl_status r), re_attempts = n\<rparr> # rest)))"

definition consumer_info :: "pystr \<Rightarrow> pystr \<Rightarrow> ('x harness_world_scheme, int) prog" where
  "consumer_info stream durable =
     bindM (getsM (\<lambda>w. num_redelivered w (nats_tick w))) (\<lambda>n.
     thenM get_jetstream
     (thenM (nats_call (Call_Consumer_Info stream durable))
       (retM (case n of None \<Rightarrow> 0 | Some k \<Rightarrow> k))))"

definition collect_result :: "ucd \<Rightarrow> smoke_config \<Rightarrow> (uuid \<times> int) list \<Rightarrow> ('x harness_world_scheme, smoke_result) prog" where
  "collect_result u config peers =
     bindM (run_deliveries config) (\<lambda>rows.
     bindM (evidence (map_of (rev (map (\<lambda>r. (dl_user_id r, r)) rows))) peers 1 (sk_target_user_ids config)) (\<lambda>recipients.
     bindM (consumer_info (tp_stream (smoke_config_topology u config)) (tp_durable (smoke_config_topology u config))) (\<lambda>n.
       retM \<lparr>sr_scenario = scenario_value (sk_scenario config), sr_recipients = recipients, sr_redeliveries = n\<rparr>)))"

section \<open>The body\<close>

text \<open>The settings of the run: keyword arguments before the values of the environment (\<open>base\<close>).\<close>

definition harness_nats_settings :: "nats_settings \<Rightarrow> smoke_topology \<Rightarrow> nats_settings" where
  "harness_nats_settings base t =
     base\<lparr>nats_stream_notification_commands := tp_stream t,
       nats_subject_notification_commands_send_vk := tp_subject t,
       nats_consumer_notification_commands_send_vk := tp_durable t,
       nats_consumer_ack_wait_seconds := 1, nats_consumer_max_deliver := SMOKE_MAX_DELIVER,
       nats_consumer_fetch_batch_size := 10, nats_consumer_fetch_timeout_seconds := Finite (1 / 4)\<rparr>"

definition connect_topology :: "nats_settings \<Rightarrow> smoke_topology \<Rightarrow> ('x harness_world_scheme, unit) prog" where
  "connect_topology s t =
     thenM (nats_connect s)
     (thenM get_jetstream
     (thenM
       (nats_call (Call_Add_Stream
         \<lparr>st_name = tp_stream t, st_subjects = [tp_subject t], st_retention = Retention_Work_Queue,
          st_storage = Storage_Memory, st_max_age = 300\<rparr>))
     (thenM (modifyM (\<lambda>w. w\<lparr>stream_created := True\<rparr>))
     (thenM (setup_consumers s)
     (thenM (modifyM (\<lambda>w. w\<lparr>harness_consumer := True\<rparr>))
            (consumer_start s))))))"

definition smoke_publish :: "smoke_config \<Rightarrow> smoke_topology \<Rightarrow> byte list \<Rightarrow> ('x nats_world_scheme, unit) prog" where
  "smoke_publish config t payload =
     nats_publish (tp_subject t) payload
       (Some [(lit ''Nats-Msg-Id'', uuid_str (build_command_msg_id (sk_callback_request_id config) VK_CHANNEL_CODE))])"

text \<open>\<open>asyncio.gather\<close>: both are started, in order, and the first exception is raised.\<close>

definition gather :: "('w, unit) prog \<Rightarrow> ('w, unit) prog \<Rightarrow> ('w, unit) prog" where
  "gather m n = (\<lambda>w. case m w of (r, w') \<Rightarrow> (case n w' of (r', w'') \<Rightarrow> (case r of Inl e \<Rightarrow> Inl e | Inr _ \<Rightarrow> r', w'')))"

definition smoke_wait ::
    "(rat \<Rightarrow> 'x harness_world_scheme \<Rightarrow> 'x harness_world_scheme) \<Rightarrow> smoke_config \<Rightarrow> nats_settings \<Rightarrow> (uuid \<times> int) list \<Rightarrow>
       ('x harness_world_scheme, unit) prog" where
  "smoke_wait pause config s peers =
     (if sk_scenario config = Delivery_Failure
      then wait_for_failed_redelivery_exhaustion pause config peers SMOKE_MAX_DELIVER (of_int (nats_consumer_ack_wait_seconds s))
      else if sk_scenario config \<in> {Partial_Retry, Repeated_Event, Concurrent_Duplicate}
      then wait_for_sent_rows pause config 80
      else asyncio_sleep pause (if sk_scenario config = Malformed then 5 / 4 else 1 / 2))"

definition smoke_body ::
    "ucd \<Rightarrow> ('x harness_world_scheme) event_loop \<Rightarrow> (notification_command \<Rightarrow> byte list) \<Rightarrow>
       (byte list \<Rightarrow> notification_command option) \<Rightarrow> smoke_config \<Rightarrow> nats_settings \<Rightarrow> ('x harness_world_scheme, smoke_result) prog" where
  "smoke_body u event_loop encode decode config s =
     (let t = smoke_config_topology u config in
      bindM (fixture_rows (sk_target_user_ids config)) (\<lambda>rows.
      thenM (validate_fixture_state config rows)
      (bindM (peer_plans config (peer_by_user rows)) (\<lambda>plans.
       let peers = peer_by_user rows;
           pause = event_loop (NotificationCommandsSendVkHandler_handle (ScriptedVkMessenger plans) u decode) in
       thenM (modifyM (\<lambda>w. w\<lparr>scripted_attempts := []\<rparr>))
       (thenM (connect_topology s t)
       (bindM now_utc (\<lambda>occurred_at.
        bindM
          (NotificationCommandSendVkData_validate
            \<lparr>cm_event_uuid = sk_event_uuid config, cm_callback_request_id = sk_callback_request_id config,
             cm_user_ids = sk_target_user_ids config, cm_text = lit ''Synthetic local smoke notification''\<rparr>) (\<lambda>command.
        let payload = if sk_scenario config = Malformed then [123] else encode command;
            publish = smoke_publish config t payload in
        thenM (if sk_scenario config = Concurrent_Duplicate then gather publish publish else publish)
        (thenM (smoke_wait pause config s peers)
        (thenM (if sk_scenario config = Repeated_Event then thenM publish (asyncio_sleep pause (1 / 2)) else retM ())
               (collect_result u config peers)))))))))))"

section \<open>The clean-up\<close>

datatype raised = Raised exn | Raised_Group pystr "(exn \<times> pystr list) list"

record 'w cleanup_stage =
  cs_name :: pystr
  cs_action :: "('w, unit) prog"

text \<open>Every stage is run; the exceptions of those that raise, each with its note.\<close>

fun run_stages :: "'w cleanup_stage list \<Rightarrow> 'w \<Rightarrow> (exn \<times> pystr list) list \<times> 'w" where
  "run_stages [] w = ([], w)"
| "run_stages (stage # stages) w =
     (case cs_action stage w of (r, w1) \<Rightarrow>
        case run_stages stages w1 of (es, w2) \<Rightarrow>
          ((case r of Inl e \<Rightarrow> [(e, [lit ''cleanup stage: '' @ cs_name stage])] | Inr _ \<Rightarrow> []) @ es, w2))"

definition finish_with_cleanup :: "exn option \<Rightarrow> 'w cleanup_stage list \<Rightarrow> 'w \<Rightarrow> (raised + unit) \<times> 'w" where
  "finish_with_cleanup primary_error stages w =
     (case run_stages stages w of (cleanup_errors, w') \<Rightarrow>
        (case primary_error of
           Some e \<Rightarrow>
             if cleanup_errors \<noteq> []
             then Inl (Raised_Group (lit ''smoke harness body and cleanup failed'') ((e, []) # cleanup_errors))
             else Inl (Raised e)
         | None \<Rightarrow>
             if cleanup_errors \<noteq> [] then Inl (Raised_Group (lit ''smoke harness cleanup failed'') cleanup_errors)
             else Inr (),
         w'))"

text \<open>\<open>_cleanup_database\<close>: a binding that a confirmation code still references cannot be deleted.\<close>

definition cleanup_database :: "uuid \<Rightarrow> uuid list \<Rightarrow> ('x world_scheme, unit) prog" where
  "cleanup_database event_uuid target_user_ids =
     with_session
       (thenM (exec_write True (\<lambda>d. d\<lparr>vk_deliveries := filter (\<lambda>r. dl_event_uuid r \<noteq> event_uuid) (vk_deliveries d)\<rparr>))
       (thenM (exec_write True (\<lambda>d. d\<lparr>user_vks := filter (\<lambda>r. uv_user_id r \<notin> set target_user_ids) (user_vks d)\<rparr>))
              commit))"

definition delete_run_stream :: "pystr \<Rightarrow> ('x harness_world_scheme, unit) prog" where
  "delete_run_stream stream =
     bindM (getsM stream_created) (\<lambda>created.
       if created then thenM get_jetstream (nats_call (Call_Delete_Stream stream)) else retM ())"

definition stop_harness_consumer :: "('x harness_world_scheme, unit) prog" where
  "stop_harness_consumer =
     bindM (getsM harness_consumer) (\<lambda>built. if built then consumer_stop else retM ())"

definition dispose_engine :: "('x harness_world_scheme, unit) prog" where
  "dispose_engine = modifyM (\<lambda>w. w\<lparr>harness_disposed := True\<rparr>)"

definition cleanup_stages :: "smoke_config \<Rightarrow> smoke_topology \<Rightarrow> ('x harness_world_scheme) cleanup_stage list" where
  "cleanup_stages config t =
     [\<lparr>cs_name = lit ''consumer.stop'', cs_action = stop_harness_consumer\<rparr>,
      \<lparr>cs_name = lit ''jetstream.delete_run_stream'', cs_action = delete_run_stream (tp_stream t)\<rparr>,
      \<lparr>cs_name = lit ''database.delete_exact_fixtures'',
       cs_action = cleanup_database (sk_event_uuid config) (sk_target_user_ids config)\<rparr>,
      \<lparr>cs_name = lit ''nats.close'', cs_action = nats_close\<rparr>,
      \<lparr>cs_name = lit ''database.dispose'', cs_action = dispose_engine\<rparr>]"

section \<open>The run\<close>

text \<open>The objects \<open>run\<close> builds before its \<open>try\<close>: a client that is not connected, no consumer, no stream.\<close>

definition new_run :: "nats_settings \<Rightarrow> 'x harness_world_scheme \<Rightarrow> 'x harness_world_scheme" where
  "new_run s w =
     (new_client s w)\<lparr>stream_created := False, harness_consumer := False, harness_disposed := False,
       consumer_task := None, consumer_subscription := False\<rparr>"

definition run_harness ::
    "ucd \<Rightarrow> ('x harness_world_scheme) event_loop \<Rightarrow> (notification_command \<Rightarrow> byte list) \<Rightarrow>
       (byte list \<Rightarrow> notification_command option) \<Rightarrow> nats_settings \<Rightarrow> smoke_config \<Rightarrow>
       'x harness_world_scheme \<Rightarrow> (raised + smoke_result) \<times> 'x harness_world_scheme" where
  "run_harness u event_loop encode decode base config w =
     (let t = smoke_config_topology u config; s = harness_nats_settings base t in
      case SmokeTopology_assert_isolated t w of
        (Inl e, w1) \<Rightarrow> (Inl (Raised e), w1)
      | (Inr _, w1) \<Rightarrow>
          (case smoke_body u event_loop encode decode config s (new_run s w1) of (result, w2) \<Rightarrow>
             (case finish_with_cleanup (case result of Inl e \<Rightarrow> Some e | Inr _ \<Rightarrow> None) (cleanup_stages config t) w2 of
                (Inl x, w3) \<Rightarrow> (Inl x, w3)
              | (Inr _, w3) \<Rightarrow>
                  (case result of
                     Inl _ \<Rightarrow> Inl (Raised (Exn RuntimeError (lit ''smoke harness completed without a result'')))
                   | Inr res \<Rightarrow> Inr res, w3))))"

section \<open>The command line\<close>

definition sanitized_result :: "smoke_result \<Rightarrow> json" where
  "sanitized_result result =
     J_Object
       [(lit ''scenario'', J_Str (sr_scenario result)),
        (lit ''recipients'', J_Array (map (\<lambda>item.
           J_Object [(lit ''recipient'', J_Int (re_recipient item)), (lit ''status'', J_Str (re_status item)),
             (lit ''attempts'', J_Int (re_attempts item))]) (sr_recipients result))),
        (lit ''redeliveries'', J_Int (sr_redeliveries result))]"

datatype printed = To_Stdout json | To_Stderr pystr

text \<open>A group made of ordinary exceptions is an \<open>ExceptionGroup\<close>, an ordinary exception itself.\<close>

definition caught_by_main :: "raised \<Rightarrow> bool" where
  "caught_by_main x =
     (case x of
        Raised e \<Rightarrow> isinstance e PyException
      | Raised_Group m errors \<Rightarrow> list_all (\<lambda>(e, notes). isinstance e PyException) errors)"

definition smoke_main ::
    "ucd \<Rightarrow> ('x harness_world_scheme) event_loop \<Rightarrow> (notification_command \<Rightarrow> byte list) \<Rightarrow>
       (byte list \<Rightarrow> notification_command option) \<Rightarrow> (pystr \<Rightarrow> json option) \<Rightarrow> (pystr \<rightharpoonup> pystr) \<Rightarrow> nats_settings \<Rightarrow>
       'x harness_world_scheme \<Rightarrow> (raised + int \<times> printed) \<times> 'x harness_world_scheme" where
  "smoke_main u event_loop encode decode loads environ base w =
     (case SmokeHarnessConfig_from_environment u loads environ w of
        (Inl e, w1) \<Rightarrow>
          (if isinstance e SmokeHarnessGuardError
           then Inr (2, To_Stderr (lit ''VK smoke harness guard rejected configuration: '' @ message e))
           else Inl (Raised e), w1)
      | (Inr config, w1) \<Rightarrow>
          (case run_harness u event_loop encode decode base config w1 of
             (Inl x, w2) \<Rightarrow>
               (if caught_by_main x then Inr (1, To_Stderr (lit ''VK smoke harness failed'')) else Inl x, w2)
           | (Inr result, w2) \<Rightarrow> (Inr (0, To_Stdout (sanitized_result result)), w2)))"

section \<open>Reading the ledger while it fills\<close>

lemma asyncio_sleep_run: "asyncio_sleep pause t w = (Inr (), pause t (called [Call_Sleep (Finite t)] 0 w))"
  by (simp add: asyncio_sleep_def sleep_run prog_simps)

text \<open>The world before the k-th poll: each poll is followed by a tenth of a second of the other tasks.\<close>

fun polled :: "(rat \<Rightarrow> 'x nats_world_scheme \<Rightarrow> 'x nats_world_scheme) \<Rightarrow> nat \<Rightarrow> 'x nats_world_scheme \<Rightarrow> 'x nats_world_scheme" where
  "polled pause 0 w = w"
| "polled pause (Suc k) w = polled pause k (pause (1 / 10) (called [Call_Sleep (Finite (1 / 10))] 0 (opened w)))"

definition all_sent :: "smoke_config \<Rightarrow> db \<Rightarrow> bool" where
  "all_sent config d \<longleftrightarrow>
     (let rows = filter (\<lambda>r. dl_event_uuid r = sk_event_uuid config \<and> dl_user_id r \<in> set (sk_target_user_ids config)) (vk_deliveries d) in
      length rows = length (sk_target_user_ids config) \<and> list_all (\<lambda>r. dl_status r = STATUS_SENT) rows)"

lemma count_list_full: "count_list (map f xs) x = length xs \<longleftrightarrow> list_all (\<lambda>y. f y = x) xs"
proof (induction xs)
  case (Cons y ys)
  have "count_list (map f ys) x \<le> length ys" using count_le_length [of "map f ys" x] by simp
  with Cons show ?case by auto
qed simp

lemma run_deliveries_run:
  "run_deliveries config w =
    (Inr (filter (\<lambda>r. dl_event_uuid r = sk_event_uuid config \<and> dl_user_id r \<in> set (sk_target_user_ids config)) (vk_deliveries (committed w))), opened w)"
  by (simp add: run_deliveries_def with_session_reads)

lemma sent_rows_poll:
  "wait_for_sent_rows pause config (Suc n) w =
    (if all_sent config (committed w) then (Inr (), opened w)
     else wait_for_sent_rows pause config n (pause (1 / 10) (called [Call_Sleep (Finite (1 / 10))] 0 (opened w))))"
proof -
  let ?rows = "filter (\<lambda>r. dl_event_uuid r = sk_event_uuid config \<and> dl_user_id r \<in> set (sk_target_user_ids config)) (vk_deliveries (committed w))"
  have "all_sent config (committed w) \<longleftrightarrow>
      length (map dl_status ?rows) = length (sk_target_user_ids config) \<and>
      count_list (map dl_status ?rows) (lit ''SENT'') = length (map dl_status ?rows)"
    unfolding length_map count_list_full by (simp add: all_sent_def STATUS_SENT_def Let_def)
  then show ?thesis
    unfolding wait_for_sent_rows.simps bindM_run run_deliveries_run prod.case sum.case Let_def
    by (simp only: if_distrib [of "\<lambda>m. m (opened w)"] thenM_run asyncio_sleep_run run_simps prod.case sum.case) 
qed

lemma find_upt_Suc: "find P [0..<Suc n] = (if P 0 then Some 0 else map_option Suc (find (\<lambda>k. P (Suc k)) [0..<n]))"
proof -
  have up: "[0..<Suc n] = 0 # map Suc [0..<n]" by (simp add: map_Suc_upt upt_conv_Cons del: upt_Suc)
  have "find P (map Suc xs) = map_option Suc (find (\<lambda>k. P (Suc k)) xs)" for xs by (induction xs) auto
  then show ?thesis by (simp add: up del: upt_Suc)
qed

text \<open>The wait is the first poll that finds every row sent, or a time-out after the last one allowed.\<close>

lemma wait_for_sent_rows_run:
  "wait_for_sent_rows pause config n w =
    (case find (\<lambda>k. all_sent config (committed (polled pause k w))) [0..<n] of
       Some k \<Rightarrow> (Inr (), opened (polled pause k w))
     | None \<Rightarrow> (Inl (Exn PyTimeoutError (lit ''smoke harness did not reach a bounded terminal state'')), polled pause n w))"
proof (induction n arbitrary: w)
  case (Suc n)
  show ?case
    unfolding sent_rows_poll find_upt_Suc Suc.IH
    by (simp split: option.split)
qed (simp add: prog_simps)

section \<open>The clean-up runs\<close>

lemma run_stages_run:
  "snd (run_stages stages w) = fold (\<lambda>stage v. snd (cs_action stage v)) stages w"
  by (induction stages arbitrary: w) (simp_all add: case_prod_beta)

text \<open>The tables without the fixtures of a run; a fixture can be deleted when no code references it.\<close>

definition without_fixtures :: "uuid \<Rightarrow> uuid list \<Rightarrow> db \<Rightarrow> db" where
  "without_fixtures event_uuid target_user_ids d =
     d\<lparr>user_vks := filter (\<lambda>r. uv_user_id r \<notin> set target_user_ids) (user_vks d),
       vk_deliveries := filter (\<lambda>r. dl_event_uuid r \<noteq> event_uuid) (vk_deliveries d)\<rparr>"

definition unreferenced :: "uuid list \<Rightarrow> db \<Rightarrow> bool" where
  "unreferenced target_user_ids d \<longleftrightarrow>
     (\<forall>c \<in> set (vk_confirmations d). \<forall>r \<in> set (user_vks d). uv_id r = cf_user_vk_id c \<longrightarrow> uv_user_id r \<notin> set target_user_ids)"

lemma distinct_map_filter_both: "distinct (map f (filter Q xs)) \<Longrightarrow> distinct (map f (filter (\<lambda>x. P x \<and> Q x) xs))"
  by (induction xs) (auto split: if_splits)

lemma without_deliveries_ok: "db_ok d \<Longrightarrow> db_ok (d\<lparr>vk_deliveries := filter P (vk_deliveries d)\<rparr>)"
  by (auto simp: db_ok_def columns_ok_def constraints_ok_def vk_deliveries_ok_def list_all_iff intro: distinct_map_filter)

lemma without_users:
  assumes "db_ok d"
  shows "columns_ok (d\<lparr>user_vks := filter P (user_vks d)\<rparr>)"
    and "constraints_ok (d\<lparr>user_vks := filter P (user_vks d)\<rparr>) \<longleftrightarrow>
      (\<forall>c \<in> set (vk_confirmations d). \<exists>r \<in> set (user_vks d). uv_id r = cf_user_vk_id c \<and> P r)"
proof -
  show "columns_ok (d\<lparr>user_vks := filter P (user_vks d)\<rparr>)"
    using assms by (auto simp: db_ok_def columns_ok_def list_all_iff)
  have "user_vks_ok (filter P (user_vks d))"
    using assms by (auto simp: db_ok_def constraints_ok_def user_vks_ok_def intro: distinct_map_filter distinct_map_filter_both)
  then show "constraints_ok (d\<lparr>user_vks := filter P (user_vks d)\<rparr>) \<longleftrightarrow>
      (\<forall>c \<in> set (vk_confirmations d). \<exists>r \<in> set (user_vks d). uv_id r = cf_user_vk_id c \<and> P r)"
    using assms by (auto simp: db_ok_def constraints_ok_def vk_confirmations_ok_def image_iff) metis+
qed

lemma cleanup_database_run:
  fixes w :: "'x world_scheme"
  assumes "db_ok (committed w)"
  shows "cleanup_database e us w =
    (if unreferenced us (committed w)
     then (Inr (), opened (w\<lparr>committed := without_fixtures e us (committed w)\<rparr>))
     else (Inl (Exn IntegrityError (lit ''constraint violated'')), opened w))"
proof -
  let ?d = "(committed w)\<lparr>vk_deliveries := filter (\<lambda>r. dl_event_uuid r \<noteq> e) (vk_deliveries (committed w))\<rparr>"
  let ?P = "\<lambda>r. uv_user_id r \<notin> set us"
  have ok: "db_ok ?d" by (rule without_deliveries_ok [OF assms])
  have inj: "inj_on uv_id (set (user_vks (committed w)))" "vk_confirmations_ok (user_vks (committed w)) (vk_confirmations (committed w))"
    using assms by (simp_all add: db_ok_def constraints_ok_def user_vks_ok_def distinct_map)
  have "(\<exists>r \<in> set (user_vks (committed w)). uv_id r = cf_user_vk_id c \<and> ?P r) \<longleftrightarrow>
      (\<forall>r \<in> set (user_vks (committed w)). uv_id r = cf_user_vk_id c \<longrightarrow> ?P r)"
    if "c \<in> set (vk_confirmations (committed w))" for c
  proof -
    from inj(2) that obtain r where r: "r \<in> set (user_vks (committed w))" "uv_id r = cf_user_vk_id c"
      by (force simp: vk_confirmations_ok_def)
    have "r' = r" if "r' \<in> set (user_vks (committed w))" "uv_id r' = cf_user_vk_id c" for r'
      by (rule inj_onD [OF inj(1)]) (use r that in auto)
    with r show ?thesis by blast
  qed
  then have "(\<forall>c \<in> set (vk_confirmations ?d). \<exists>r \<in> set (user_vks ?d). uv_id r = cf_user_vk_id c \<and> ?P r) \<longleftrightarrow>
      unreferenced us (committed w)"
    by (simp add: unreferenced_def)
  with without_users [OF ok, of ?P] have
    "columns_ok (?d\<lparr>user_vks := filter ?P (user_vks ?d)\<rparr>)"
    "constraints_ok (?d\<lparr>user_vks := filter ?P (user_vks ?d)\<rparr>) \<longleftrightarrow> unreferenced us (committed w)"
    by simp_all
  then show ?thesis
    using ok
    by (simp add: cleanup_database_def with_session_def finallyM_def close_session_def prog_simps exec_write_def db_ok_def
        opened_def without_fixtures_def)
qed

lemma idle_stages:
  fixes w :: "'x harness_world_scheme"
  shows "\<not> harness_consumer w \<Longrightarrow> stop_harness_consumer w = (Inr (), w)"
    "\<not> stream_created w \<Longrightarrow> delete_run_stream t w = (Inr (), w)"
    "nats_connection w = None \<Longrightarrow> nats_close w = (Inr (), w)"
  by (simp_all add: stop_harness_consumer_def delete_run_stream_def nats_close_def prog_simps)

text \<open>What each stage leaves of what the others look at.\<close>

lemma stop_consumer_frame:
  fixes w :: "'x harness_world_scheme"
  shows "committed (snd (stop_harness_consumer w)) = committed w" "nats_connection (snd (stop_harness_consumer w)) = nats_connection w"
    "harness_consumer w \<Longrightarrow> consumer_task (snd (stop_harness_consumer w)) = None"
    "stream_created (snd (stop_harness_consumer w)) = stream_created w" "nats_calls (snd (stop_harness_consumer w)) = nats_calls w"
    "nats_jetstream (snd (stop_harness_consumer w)) = nats_jetstream w"
  by (auto simp: stop_harness_consumer_def consumer_stop_def finallyM_def prog_simps split: option.split consumer_task.split)

lemma delete_stream_frame:
  fixes w :: "'x harness_world_scheme"
  shows "committed (snd (delete_run_stream t w)) = committed w" "consumer_task (snd (delete_run_stream t w)) = consumer_task w"
    "nats_connection (snd (delete_run_stream t w)) = nats_connection w"
    "nats_calls (snd (delete_run_stream t w)) = nats_calls w @
      (if stream_created w \<and> nats_jetstream w \<and> is_connected w then [Call_Delete_Stream t] else [])"
  by (auto simp: delete_run_stream_def get_jetstream_def prog_simps nats_call_run split: option.split)

lemma cleanup_database_frame:
  fixes w :: "'x harness_world_scheme"
  assumes "db_ok (committed w)"
  shows "consumer_task (snd (cleanup_database e us w)) = consumer_task w"
    "nats_connection (snd (cleanup_database e us w)) = nats_connection w" "nats_calls (snd (cleanup_database e us w)) = nats_calls w"
    "committed (snd (cleanup_database e us w)) =
      (if unreferenced us (committed w) then without_fixtures e us (committed w) else committed w)"
  using assms by (simp_all add: cleanup_database_run opened_def)

text \<open>The calls that close the connection, if there is an open one.\<close>

definition closing :: "'x nats_world_scheme \<Rightarrow> nats_call list \<Rightarrow> bool" where
  "closing w cs \<longleftrightarrow>
     (case nats_connection w of
        None \<Rightarrow> cs = []
      | Some c \<Rightarrow> if nc_is_closed c then cs = [] else cs = [Call_Drain] \<or> cs = [Call_Drain, Call_Close])"

lemma nats_close_frame:
  fixes w :: "'x harness_world_scheme"
  shows "committed (snd (nats_close w)) = committed w" "consumer_task (snd (nats_close w)) = consumer_task w"
    "nats_connection (snd (nats_close w)) = None"
    "\<exists>cs. nats_calls (snd (nats_close w)) = nats_calls w @ cs \<and> closing w cs"
  by (auto simp: nats_close_def prog_simps finallyM_def nats_call_run connection_ended_def closing_def split: option.split)

lemma dispose_engine_run: "dispose_engine w = (Inr (), w\<lparr>harness_disposed := True\<rparr>)"
  by (simp add: dispose_engine_def prog_simps)

text \<open>The clean-up of a run as a whole.\<close>

definition cleaned_up :: "smoke_topology \<Rightarrow> smoke_config \<Rightarrow> 'x harness_world_scheme \<Rightarrow> 'x harness_world_scheme \<Rightarrow> bool" where
  "cleaned_up t config w w' \<longleftrightarrow>
     (\<exists>cs. closing w cs \<and>
        nats_calls w' = nats_calls w @
          (if stream_created w \<and> nats_jetstream w \<and> is_connected w then [Call_Delete_Stream (tp_stream t)] else []) @ cs) \<and>
     harness_disposed w' \<and> nats_connection w' = None \<and> (harness_consumer w \<longrightarrow> consumer_task w' = None) \<and>
     committed w' =
       (if unreferenced (sk_target_user_ids config) (committed w)
        then without_fixtures (sk_event_uuid config) (sk_target_user_ids config) (committed w) else committed w)"

lemma cleanup_stages_clean:
  fixes w :: "'x harness_world_scheme"
  assumes "db_ok (committed w)"
  shows "cleaned_up t config w (snd (run_stages (cleanup_stages config t) w))"
proof -
  let ?w1 = "snd (stop_harness_consumer w)"
  let ?w2 = "snd (delete_run_stream (tp_stream t) ?w1)"
  let ?w3 = "snd (cleanup_database (sk_event_uuid config) (sk_target_user_ids config) ?w2)"
  have "db_ok (committed ?w2)" using assms by (simp add: stop_consumer_frame delete_stream_frame)
  note db = cleanup_database_frame [OF this, of "sk_event_uuid config" "sk_target_user_ids config"]
  have "snd (run_stages (cleanup_stages config t) w) = snd (dispose_engine (snd (nats_close ?w3)))"
    by (simp add: run_stages_run cleanup_stages_def del: run_stages.simps)
  moreover obtain cs where cs: "nats_calls (snd (nats_close ?w3)) = nats_calls ?w3 @ cs" "closing ?w3 cs"
    using nats_close_frame(4) by blast
  moreover have "is_connected ?w1 = is_connected w" by (simp add: is_connected_def stop_consumer_frame)
  moreover have "closing w cs"
    using cs(2) by (simp add: closing_def db delete_stream_frame stop_consumer_frame)
  ultimately show ?thesis
    by (simp add: cleaned_up_def dispose_engine_run nats_close_frame db delete_stream_frame stop_consumer_frame)
qed

text \<open>How an exception of the body and those of the clean-up are raised together.\<close>

definition body_error_kept :: "exn + smoke_result \<Rightarrow> raised + smoke_result \<Rightarrow> bool" where
  "body_error_kept result r \<longleftrightarrow>
     (case result of
        Inl e \<Rightarrow> r = Inl (Raised e) \<or> (\<exists>m es. es \<noteq> [] \<and> r = Inl (Raised_Group m ((e, []) # es)))
      | Inr res \<Rightarrow> r = Inr res \<or> (\<exists>m es. es \<noteq> [] \<and> r = Inl (Raised_Group m es)))"

lemma run_harness_run:
  fixes w :: "'x harness_world_scheme"
  assumes "smoke_body u event_loop encode decode config
    (harness_nats_settings base (smoke_config_topology u config))
    (new_run (harness_nats_settings base (smoke_config_topology u config)) w) = (result, w2)"
  shows "run_harness u event_loop encode decode base config w =
    (case run_stages (cleanup_stages config (smoke_config_topology u config)) w2 of (errors, w3) \<Rightarrow>
       (case result of
          Inl e \<Rightarrow> if errors = [] then Inl (Raised e)
            else Inl (Raised_Group (lit ''smoke harness body and cleanup failed'') ((e, []) # errors))
        | Inr res \<Rightarrow> if errors = [] then Inr res else Inl (Raised_Group (lit ''smoke harness cleanup failed'') errors), w3))"
  using assms
  by (auto simp: run_harness_def Let_def smoke_config_topology_def run_isolated finish_with_cleanup_def split: prod.split sum.split)

section \<open>Properties\<close>


lemma refused_body:
  fixes w :: "'x harness_world_scheme"
  assumes "sk_scenario config \<noteq> Malformed"
    and "\<not> fixtures_match config (filter (\<lambda>r. uv_user_id r \<in> set (sk_target_user_ids config)) (user_vks (committed w)))"
  shows "smoke_body u event_loop encode decode config s (new_run s w) =
    (Inl (Exn RuntimeError (lit ''synthetic fixtures do not match the guarded scenario'')), opened (new_run s w))"
  using assms
  by (simp add: smoke_body_def Let_def fixture_rows_def prog_simps with_session_reads validate_fixture_state_def
      new_run_def new_client_def)

text \<open>
  C31. Fixtures the guard refuses are deleted all the same.  When the stored bindings of the targets are
  not in the state the scenario asks for, the run raises and does nothing with the broker; but when no
  confirmation code references one of these bindings, the clean-up then deletes them and the deliveries
  of the event, as if the run had created them.  When one is referenced, as a binding the service
  linked or issued a code for always is, the clean-up deletes nothing and its failure is raised with
  the refusal.
\<close>

theorem refused_fixtures_are_deleted:
  fixes w :: "'x harness_world_scheme"
  assumes "db_ok (committed w)" "sk_scenario config \<noteq> Malformed"
    and "\<not> fixtures_match config (filter (\<lambda>r. uv_user_id r \<in> set (sk_target_user_ids config)) (user_vks (committed w)))"
  shows "case run_harness u event_loop encode decode base config w of (r, w') \<Rightarrow>
    nats_calls w' = nats_calls w \<and>
    (if unreferenced (sk_target_user_ids config) (committed w)
     then
       r = Inl (Raised (Exn RuntimeError (lit ''synthetic fixtures do not match the guarded scenario''))) \<and>
       committed w' = without_fixtures (sk_event_uuid config) (sk_target_user_ids config) (committed w)
     else
       r = Inl (Raised_Group (lit ''smoke harness body and cleanup failed'')
         [(Exn RuntimeError (lit ''synthetic fixtures do not match the guarded scenario''), []),
          (Exn IntegrityError (lit ''constraint violated''), [lit ''cleanup stage: database.delete_exact_fixtures''])]) \<and>
       committed w' = committed w)"
proof -
  let ?t = "smoke_config_topology u config"
  let ?s = "harness_nats_settings base ?t"
  let ?w = "opened (new_run ?s w)"
  have sel: "committed ?w = committed w" "harness_consumer ?w = False" "stream_created ?w = False" "nats_connection ?w = None"
    "nats_calls ?w = nats_calls w"
    by (simp_all add: new_run_def new_client_def opened_def)
  note body = refused_body [OF assms(2,3), of u event_loop encode decode ?s]
  have idle: "nats_connection (opened (?w\<lparr>committed := d\<rparr>)) = None" "nats_connection (opened ?w) = None" for d
    by (simp_all add: opened_def new_run_def new_client_def)
  have db: "db_ok (committed ?w)" using assms(1) by (simp only: sel)
  note clean = cleanup_database_run [OF db, of "sk_event_uuid config" "sk_target_user_ids config", unfolded sel(1)]
  have name: "lit ''cleanup stage: '' @ lit ''database.delete_exact_fixtures'' = lit ''cleanup stage: database.delete_exact_fixtures''"
    by (simp add: lit_def)
  show ?thesis
  proof (cases "unreferenced (sk_target_user_ids config) (committed w)")
    case True
    have stages: "run_stages (cleanup_stages config ?t) ?w =
        ([], (opened (?w\<lparr>committed := without_fixtures (sk_event_uuid config) (sk_target_user_ids config) (committed w)\<rparr>))
          \<lparr>harness_disposed := True\<rparr>)"
      using sel True by (simp add: cleanup_stages_def idle_stages clean idle dispose_engine_run del: opened_sel)
    show ?thesis
      unfolding run_harness_run [OF body] stages using True by (simp add: opened_def new_run_def new_client_def)
  next
    case False
    have stages: "run_stages (cleanup_stages config ?t) ?w =
        ([(Exn IntegrityError (lit ''constraint violated''), [lit ''cleanup stage: database.delete_exact_fixtures''])],
         (opened ?w)\<lparr>harness_disposed := True\<rparr>)"
      using sel False name by (simp add: cleanup_stages_def idle_stages clean idle dispose_engine_run del: opened_sel)
    show ?thesis
      unfolding run_harness_run [OF body] stages using False by (simp add: opened_def new_run_def new_client_def)
  qed
qed

end
