(* ===== verification/Smoke_Exhaustion.thy ===== *)
theory Smoke_Exhaustion
  imports Smoke_Runner Store_Frame
begin

text \<open>
  The delivery-failure scenario of the smoke harness as a whole: the wait of the runner over the handler,
  the ledger and a broker that delivers the message again.  How many deliveries fall into each of the
  sleeps of the wait is arbitrary: none, one, or several in a row, as when a refused message is
  delivered again at once.
\<close>

section \<open>The handler asks the broker for nothing\<close>

lemma keeps_calls:
  "keeps (\<lambda>v :: 'x smoke_world_scheme. nats_calls v = cs) commit" "keeps (\<lambda>v :: 'x smoke_world_scheme. nats_calls v = cs) rollback"
  "keeps (\<lambda>v :: 'x smoke_world_scheme. nats_calls v = cs) open_session"
  "keeps (\<lambda>v :: 'x smoke_world_scheme. nats_calls v = cs) (tick_read f)"
  "keeps (\<lambda>v :: 'x smoke_world_scheme. nats_calls v = cs) fresh_uuid"
  "keeps (\<lambda>v :: 'x smoke_world_scheme. nats_calls v = cs) (advisory_xact_lock x y)"
  "keeps (\<lambda>v :: 'x smoke_world_scheme. nats_calls v = cs) (exec_write b g)"
  "keeps (\<lambda>v :: 'x smoke_world_scheme. nats_calls v = cs) (ScriptedVkMessenger_send_message plans p text)"
  by (auto simp: keeps_def commit_def rollback_def open_session_def tick_read_def fresh_uuid_def advisory_xact_lock_def
      exec_write_def ScriptedVkMessenger_send_message_def prog_simps Let_def split: option.splits)

lemma handle_keeps_calls:
  "keeps (\<lambda>v :: 'x smoke_world_scheme. nats_calls v = cs)
    (NotificationCommandsSendVkHandler_handle (ScriptedVkMessenger plans) u decode payload headers)"
proof -
  let ?I = "\<lambda>v :: 'x smoke_world_scheme. nats_calls v = cs"
  note kI = keeps_bind keeps_then keeps_catch keeps_ret keeps_throw keeps_gets keeps_rows keeps_calls keeps_finally
  have ledger: "keeps ?I (VkNotificationDeliveryRepository_claim_attempt e i p)"
    "keeps ?I (VkNotificationDeliveryRepository_mark_sent e i)"
    "keeps ?I (VkNotificationDeliveryRepository_mark_failed e i c)" for e i p c
    unfolding VkNotificationDeliveryRepository_claim_attempt_def VkNotificationDeliveryRepository_mark_sent_def
      VkNotificationDeliveryRepository_mark_failed_def upsert_delivery_def update_delivery_def Let_def now_utc_def server_now_def
    by (auto intro!: kI)
  let ?S = "\<lparr>ds_bindings = SQLAlchemyUserVkRepository, ds_deliveries = SQLAlchemyVkNotificationDeliveryRepository,
      ds_messenger = ScriptedVkMessenger plans\<rparr>"
  have each: "keeps ?I (deliver_each ?S c active failed is)" for c active failed "is"
  proof (induction "is" arbitrary: failed)
    case (Cons i "is")
    then show ?case
      by (auto simp: SQLAlchemyVkNotificationDeliveryRepository_def intro!: kI ledger split: option.splits)
  qed (simp add: kI)
  have deliver: "keeps ?I (VkNotificationDeliveryService_deliver ?S c)" for c
    unfolding VkNotificationDeliveryService_deliver_def
    by (auto simp: UserVkRepository_get_by_user_ids_def select_user_vks_def intro!: kI each)
  show ?thesis
    unfolding NotificationCommandsSendVkHandler_handle_def model_validate_json_def message_id_of_def
      NotificationCommandSendVkData_validate_def validate_text_def close_session_def Let_def
    by (auto intro!: kI deliver split: option.splits)
qed

lemma domain_ok_reopened:
  assumes "domain_ok v" "db v' = committed v" "committed v' = committed v" "uuids v' = uuids v" "drawn v' = drawn v"
  shows "domain_ok v'"
  using domain_ok_opened [OF assms(1)] assms(2-5) by (simp add: domain_ok_def fresh_supply_def undrawn_def)

lemma after_same:
  fixes v v' :: "'x smoke_world_scheme"
  assumes "after plans c n w v" "committed v' = committed v" "domain_ok v'" "uuids_left v' = uuids_left v" "attempts v' = attempts v"
  shows "after plans c n w v'"
  using assms(1,3) unfolding after_def opened_sel(1) assms(2,4,5) by (elim conjE) (intro conjI; assumption)

lemma after_reopened:
  fixes v v' :: "'x smoke_world_scheme"
  assumes "after plans c n w v" "db v' = committed v" "committed v' = committed v" "uuids v' = uuids v" "drawn v' = drawn v"
    and "attempts v' = attempts v"
  shows "after plans c n w v'"
proof (rule after_same [OF assms(1,3) _ _ assms(6)])
  show "domain_ok v'" by (rule domain_ok_reopened [OF _ assms(2-5)]) (use assms(1) in \<open>simp add: after_def\<close>)
  show "uuids_left v' = uuids_left v" using assms(5) by (simp add: uuids_left_def)
qed

section \<open>One poll\<close>

lemma failed_row_run:
  fixes w :: "'x world_scheme"
  assumes "db_ok (committed w)"
  shows "failed_row config r w =
    (Inr (find (same_recipient (sk_event_uuid config) r) (vk_deliveries (committed w))), opened w)"
proof -
  have "db_ok (db (opened w))" using assms by simp
  note select = claim_select [OF this, of "sk_event_uuid config" r]
  have "(\<lambda>d. dl_event_uuid d = sk_event_uuid config \<and> dl_user_id d = r) = same_recipient (sk_event_uuid config) r"
    by (simp add: same_recipient_def fun_eq_iff)
  with select show ?thesis
    by (simp add: failed_row_def with_session_def finallyM_def close_session_def prog_simps opened_def)
qed

lemma attempts_for_run:
  fixes w :: "'x smoke_world_scheme"
  shows "\<exists>w'. ScriptedVkMessenger_attempts_for p w = (Inr (attempts w p), w') \<and> only_attempts w w' \<and> attempts w' = attempts w"
  by (auto simp: ScriptedVkMessenger_attempts_for_def prog_simps only_attempts_def attempts_def attempts_update fun_eq_iff)

text \<open>What a poll sees after some deliveries that all failed: the third is the one it waits for.\<close>

lemma exhausted_run:
  fixes w v :: "'x smoke_world_scheme"
  assumes v: "after plans c n w v" and e: "cm_event_uuid c = sk_event_uuid config" and r: "r \<in> set (cm_user_ids c)"
    and p: "reachable_at (committed w) r = Some p" "map_of plans p = Some Fail_Always"
  shows "\<exists>v1. bindM (failed_row config r) (exhausted p 3) v = (Inr (n = 3), v1) \<and> after plans c n w v1 \<and>
    nats_calls v1 = nats_calls v"
proof -
  let ?find = "find (same_recipient (sk_event_uuid config) r) (vk_deliveries (committed v))"
  have now: "ledger_in (opened v) (cm_event_uuid c, r) = planned_row Fail_Always n" "attempts v p = int n"
    using v r p by (force simp: after_def split: option.splits)+
  have row: "map_option (\<lambda>d. (dl_status d, dl_attempts d)) ?find = planned_row Fail_Always n"
    using now(1) by (simp add: ledger_of_def e)
  have o: "after plans c n w (opened v)" by (rule after_reopened [OF v]) simp_all
  have read: "bindM (failed_row config r) (exhausted p 3) v = exhausted p 3 ?find (opened v)"
    using v by (simp add: prog_simps failed_row_run after_def domain_okD(2))
  show ?thesis
  proof (cases ?find)
    case None
    then have "n = 0" using row by (auto simp: planned_row_def split: if_splits)
    with o None show ?thesis unfolding read by (simp add: exhausted_def prog_simps opened_def)
  next
    case (Some d)
    then have d: "dl_status d = STATUS_FAILED" "dl_attempts d = int n" using row by (auto simp: planned_row_def split: if_splits)
    obtain v1 where v1: "ScriptedVkMessenger_attempts_for p (opened v) = (Inr (attempts v p), v1)" "only_attempts (opened v) v1"
      "attempts v1 = attempts v"
      using attempts_for_run [of p "opened v"] by auto
    have "after plans c n w v1"
      by (rule after_reopened [OF v]) (use only_attemptsD [OF v1(2)] v1(3) in simp_all)
    moreover have "nats_calls v1 = nats_calls v" using v1(2) by (auto simp: only_attempts_def opened_def)
    ultimately show ?thesis
      using v1(1) d now(2) Some unfolding read by (auto simp: exhausted_def prog_simps STATUS_FAILED_def)
  qed
qed

section \<open>The wait over a redelivering broker\<close>

text \<open>
  During the i-th sleep of a wait that began in the world \<open>w\<close> the broker delivers the message \<open>ds i\<close> times.
\<close>

fun is_sleep :: "nats_call \<Rightarrow> bool" where
  "is_sleep (Call_Sleep t) \<longleftrightarrow> True"
| "is_sleep _ \<longleftrightarrow> False"

definition slept :: "'x smoke_world_scheme \<Rightarrow> nat" where
  "slept v = length (filter is_sleep (nats_calls v))"

definition redelivering ::
    "(nat \<Rightarrow> nat) \<Rightarrow> 'x smoke_world_scheme \<Rightarrow> ('x smoke_world_scheme, unit) prog \<Rightarrow> rat \<Rightarrow>
       'x smoke_world_scheme \<Rightarrow> 'x smoke_world_scheme" where
  "redelivering ds w handle t v = delivered (ds (slept v - Suc (slept w))) handle v"

text \<open>A run with one recipient, reachable, never written to, and whose messages always fail.\<close>

definition failing_run ::
    "notification_command \<Rightarrow> smoke_config \<Rightarrow> (int \<times> scripted_plan) list \<Rightarrow> 'x smoke_world_scheme \<Rightarrow> uuid \<Rightarrow> int \<Rightarrow> nat \<Rightarrow> bool" where
  "failing_run c config plans w r p k \<longleftrightarrow>
     cm_event_uuid c = sk_event_uuid config \<and> cm_user_ids c = [r] \<and> sk_target_user_ids config = [r] \<and>
     reachable_at (committed w) r = Some p \<and> map_of plans p = Some Fail_Always \<and>
     unwritten plans c w \<and> domain_ok w \<and> room k w \<and> int k < 2 ^ 31"

lemma failing_runD:
  assumes "failing_run c config plans w r p k"
  shows "cm_event_uuid c = sk_event_uuid config" "cm_user_ids c = [r]" "sk_target_user_ids config = [r]"
    "reachable_at (committed w) r = Some p" "map_of plans p = Some Fail_Always"
    "unwritten plans c w" "domain_ok w" "room k w" "int k < 2 ^ 31"
  using assms by (simp_all add: failing_run_def)

lemma attempts_after:
  fixes w v :: "'x smoke_world_scheme"
  assumes "failing_run c config plans w r p k" "after plans c n w v"
  shows "attempts v p = int n"
  using assms(2) failing_runD(2,4,5) [OF assms(1)] by (auto simp: after_def)

lemma after_more:
  fixes w v :: "'x smoke_world_scheme"
  assumes run: "failing_run c config plans w r p k" and acc: "accepted u decode payload headers = Some c"
    and v: "after plans c n w v" and n: "n + d \<le> k"
  defines "handle \<equiv> NotificationCommandsSendVkHandler_handle (ScriptedVkMessenger plans) u decode payload headers"
  shows "after plans c (n + d) w (delivered d handle v) \<and> nats_calls (delivered d handle v) = nats_calls v"
  using n
proof (induction d)
  case 0
  then show ?case using v by simp
next
  case (Suc d)
  then have IH: "after plans c (n + d) w (delivered d handle v)" "nats_calls (delivered d handle v) = nats_calls v" by simp_all
  have "Suc (n + d) * length (cm_user_ids c) \<le> uuids_left w" "int (n + d) + 1 < 2 ^ 31"
    using Suc.prems failing_runD(2,8,9) [OF run] by (simp_all add: room_def uuids_left_def)
  from after_next [OF acc IH(1) failing_runD(6,7) [OF run] this]
  have "after plans c (n + Suc d) w (snd (handle (delivered d handle v)))" by (auto simp: handle_def)
  moreover have "nats_calls (snd (handle (delivered d handle v))) = nats_calls (delivered d handle v)"
    using handle_keeps_calls [of "nats_calls (delivered d handle v)" plans u decode payload headers]
    unfolding keeps_def handle_def by blast
  ultimately show ?case using IH(2) by simp
qed

lemma sleep_step:
  fixes w v :: "'x smoke_world_scheme"
  assumes run: "failing_run c config plans w r p k" and acc: "accepted u decode payload headers = Some c"
    and v: "after plans c n w v" "slept v = slept w + j" and n: "n + ds j \<le> k"
  shows "\<exists>v'. asyncio_sleep
      (redelivering ds w (NotificationCommandsSendVkHandler_handle (ScriptedVkMessenger plans) u decode payload headers)) t v =
      (Inr (), v') \<and> after plans c (n + ds j) w v' \<and> slept v' = slept w + Suc j"
proof -
  let ?v = "called [Call_Sleep (Finite t)] 0 v"
  have v': "after plans c n w ?v"
    by (rule after_same [OF v(1)])
      (use v in \<open>simp_all add: after_def called_def domain_ok_def fresh_supply_def undrawn_def uuids_left_def attempts_def\<close>)
  have s: "slept ?v = slept w + Suc j" using v(2) by (simp add: slept_def)
  then have "redelivering ds w handle t ?v = delivered (ds j) handle ?v" for handle
    by (simp add: redelivering_def)
  moreover note more = after_more [OF run acc v' n]
  ultimately show ?thesis using s by (simp add: asyncio_sleep_run slept_def)
qed

lemma bindM_assoc: "bindM (bindM m f) g = bindM m (\<lambda>x. bindM (f x) g)"
  by (auto simp: bindM_def fun_eq_iff split: prod.split sum.split)

lemma poll_step:
  fixes v :: "'x smoke_world_scheme"
  assumes "bindM (failed_row config r) (exhausted p max_deliver) v = (Inr b, v1)"
  shows "poll_exhaustion pause config r p max_deliver ack (Suc m) v =
    (if b
     then thenM (asyncio_sleep pause (ack + 1 / 4))
       (bindM (ScriptedVkMessenger_attempts_for p) (\<lambda>n.
          if n \<noteq> max_deliver then raiseM RuntimeError (lit ''smoke harness exceeded bounded max-deliver'') else retM ())) v1
     else thenM (asyncio_sleep pause (1 / 10)) (poll_exhaustion pause config r p max_deliver ack m) v1)"
proof -
  have "poll_exhaustion pause config r p max_deliver ack (Suc m) =
      bindM (bindM (failed_row config r) (exhausted p max_deliver)) (\<lambda>all_failed.
        if all_failed
        then thenM (asyncio_sleep pause (ack + 1 / 4))
          (bindM (ScriptedVkMessenger_attempts_for p) (\<lambda>n.
             if n \<noteq> max_deliver then raiseM RuntimeError (lit ''smoke harness exceeded bounded max-deliver'') else retM ()))
        else thenM (asyncio_sleep pause (1 / 10)) (poll_exhaustion pause config r p max_deliver ack m))"
    unfolding poll_exhaustion.simps bindM_assoc ..
  then show ?thesis by (simp only: bindM_run [of "bindM _ _"] assms prod.case sum.case if_distrib [of "\<lambda>g. g v1"])
qed

text \<open>What the wait answers, as the polls from the j-th on see the deliveries.\<close>

definition wait_outcome :: "(nat \<Rightarrow> nat) \<Rightarrow> nat list \<Rightarrow> exn + unit" where
  "wait_outcome ds polls =
     (case find (\<lambda>j. sum ds {..<j} = 3) polls of
        None \<Rightarrow> Inl (Exn PyTimeoutError (lit ''smoke harness did not exhaust bounded failed redelivery''))
      | Some j \<Rightarrow>
          if ds j = 0 then Inr ()
          else Inl (Exn RuntimeError (lit ''smoke harness exceeded bounded max-deliver'')))"

lemma poll_run:
  fixes w v :: "'x smoke_world_scheme"
  assumes run: "failing_run c config plans w r p k" and acc: "accepted u decode payload headers = Some c"
    and "after plans c (sum ds {..<j}) w v" "slept v = slept w + j" "sum ds {..<j + m} \<le> k"
  defines "pause \<equiv> redelivering ds w (NotificationCommandsSendVkHandler_handle (ScriptedVkMessenger plans) u decode payload headers)"
  shows "fst (poll_exhaustion pause config r p 3 ack m v) = wait_outcome ds [j..<j + m]"
  using assms(3-5)
proof (induction m arbitrary: j v)
  case 0
  then show ?case by (simp add: prog_simps wait_outcome_def)
next
  case (Suc m)
  let ?n = "sum ds {..<j}"
  obtain v1 where v1: "bindM (failed_row config r) (exhausted p 3) v = (Inr (?n = 3), v1)" "after plans c ?n w v1"
      "nats_calls v1 = nats_calls v"
    using exhausted_run [OF Suc.prems(1) failing_runD(1) [OF run] _ failing_runD(4,5) [OF run]] failing_runD(2) [OF run] by auto
  have s1: "slept v1 = slept w + j" using v1(3) Suc.prems(2) by (simp add: slept_def)
  have le: "sum ds {..<Suc j} \<le> sum ds {..<j + Suc m}" by (rule sum_mono2) auto
  have bound: "?n + ds j \<le> k" using le Suc.prems(3) by simp
  have polls: "[j..<j + Suc m] = j # [Suc j..<Suc j + m]" by (simp add: upt_conv_Cons)
  note poll = poll_step [OF v1(1), of pause ack m] and step = sleep_step [where ds = ds, OF run acc v1(2) s1 bound, folded pause_def]
  show ?case
  proof (cases "?n = 3")
    case True
    obtain v2 where v2: "asyncio_sleep pause (ack + 1 / 4) v1 = (Inr (), v2)" "after plans c (?n + ds j) w v2"
      using step [of "ack + 1 / 4"] by auto
    obtain v3 where v3: "ScriptedVkMessenger_attempts_for p v2 = (Inr (attempts v2 p), v3)" using attempts_for_run by blast
    have "attempts v2 p = 3 + int (ds j)" using attempts_after [OF run v2(2)] True by simp
    with v2(1) v3 True show ?thesis unfolding poll polls wait_outcome_def by (auto simp: bindM_run thenM_run run_simps)
  next
    case False
    obtain v2 where v2: "asyncio_sleep pause (1 / 10) v1 = (Inr (), v2)" "after plans c (sum ds {..<Suc j}) w v2"
      "slept v2 = slept w + Suc j"
      using step [of "1 / 10"] by auto
    have "poll_exhaustion pause config r p 3 ack (Suc m) v = poll_exhaustion pause config r p 3 ack m v2"
      unfolding poll using v2(1) False by (simp add: thenM_run)
    moreover have "sum ds {..<Suc j + m} \<le> k" using Suc.prems(3) by simp
    ultimately show ?thesis using Suc.IH [OF v2(2,3)] False unfolding polls wait_outcome_def by simp
  qed
qed

lemma three_in_time:
  assumes "sum ds {..<79} = 3" "ds 79 = 0"
  shows "wait_outcome ds [0..<80] = Inr ()"
proof -
  let ?P = "\<lambda>j. sum ds {..<j} = (3 :: nat)"
  have "79 \<in> set [0..<80::nat]" by simp
  with assms(1) have "find ?P [0..<80] \<noteq> None" by (simp only: find_None_iff) blast
  then obtain j where j: "find ?P [0..<80] = Some j" by blast
  then have "j < 80" "sum ds {..<j} = 3" by (auto simp: find_Some_iff)
  moreover have "sum ds {..<80} = 3" using assms by (simp add: eval_nat_numeral)
  moreover have "sum ds {..<Suc j} \<le> sum ds {..<80}" by (rule sum_mono2) (use \<open>j < 80\<close> in auto)
  ultimately show ?thesis by (simp add: wait_outcome_def j)
qed

section \<open>Properties\<close>

text \<open>
  C27. What the delivery-failure scenario tells of a broker.  Over the real handler and ledger, with a
  recipient whose messages always fail, and however the deliveries of the message fall between the
  polls of the harness: the wait answers by the first of its eighty polls that finds exactly three
  deliveries, the bound the consumer was registered with.  It ends well when none follows in the wait
  after that poll, and raises when one does; without such a poll it times out.  So it ends well over
  a broker that makes three deliveries in time and no other, times out over one that makes fewer, and
  it also times out when a fourth delivery came before a poll could find the third.
\<close>

theorem exhaustion_is_observed:
  fixes w :: "'x smoke_world_scheme"
  assumes "accepted u decode payload headers = Some c"
    and "failing_run c config plans w r p (sum ds {..<80})" "map_of peers r = Some p"
  shows "let outcome = fst (wait_for_failed_redelivery_exhaustion
        (redelivering ds w (NotificationCommandsSendVkHandler_handle (ScriptedVkMessenger plans) u decode payload headers))
        config peers SMOKE_MAX_DELIVER ack w)
    in outcome =
      (case find (\<lambda>j. sum ds {..<j} = 3) [0..<80] of
         None \<Rightarrow> Inl (Exn PyTimeoutError (lit ''smoke harness did not exhaust bounded failed redelivery''))
       | Some j \<Rightarrow>
           if ds j = 0 then Inr ()
           else Inl (Exn RuntimeError (lit ''smoke harness exceeded bounded max-deliver''))) \<and>
      (sum ds {..<79} = 3 \<and> ds 79 = 0 \<longrightarrow> outcome = Inr ()) \<and>
      (sum ds {..<80} < 3 \<or> (\<exists>i < 80. sum ds {..<i} < 3 \<and> 3 < sum ds {..<Suc i}) \<longrightarrow>
         outcome = Inl (Exn PyTimeoutError (lit ''smoke harness did not exhaust bounded failed redelivery'')))"
proof -
  let ?P = "\<lambda>j. sum ds {..<j} = (3 :: nat)"
  let ?out = "fst (wait_for_failed_redelivery_exhaustion
        (redelivering ds w (NotificationCommandsSendVkHandler_handle (ScriptedVkMessenger plans) u decode payload headers))
        config peers SMOKE_MAX_DELIVER ack w)"
  have mono: "sum ds {..<i} \<le> sum ds {..<j}" if "i \<le> j" for i j
    by (rule sum_mono2) (use that in auto)
  have out: "?out = wait_outcome ds [0..<80]"
    using poll_run [OF assms(2,1), of ds 0 w 80 ack] after_0 [OF failing_runD(7,6) [OF assms(2)]]
      failing_runD(3) [OF assms(2)] assms(3)
    by (simp add: wait_for_failed_redelivery_exhaustion_def SMOKE_MAX_DELIVER_def)
  have none: "find ?P [0..<80] = None" if few: "sum ds {..<80} < 3 \<or> (\<exists>i < 80. sum ds {..<i} < 3 \<and> 3 < sum ds {..<Suc i})"
  proof -
    have "sum ds {..<j} \<noteq> 3" if "j < 80" for j
      using few
    proof
      assume "sum ds {..<80} < 3"
      then show ?thesis using mono [of j 80] that by simp
    next
      assume "\<exists>i < 80. sum ds {..<i} < 3 \<and> 3 < sum ds {..<Suc i}"
      then obtain i where i: "sum ds {..<i} < 3" "3 < sum ds {..<Suc i}" by blast
      show ?thesis
        using mono [of j i] mono [of "Suc i" j] i by (cases "j \<le> i") (auto simp del: sum.lessThan_Suc)
    qed
    then show ?thesis by (auto simp: find_None_iff)
  qed
  show ?thesis
    unfolding Let_def out
    using three_in_time [of ds] none by (auto simp: wait_outcome_def simp del: sum.lessThan_Suc)
qed

end
