(* ===== verification/Sample_Processes.thy ===== *)
theory Sample_Processes
  imports Sample_Commands Vks_Api Lifespan Sentry_Filter Schema_Enforced Smoke_Exhaustion
begin

text \<open>
  Witnesses of the properties of the processes around the service: the HTTP process, the filter of
  events, the migrations and the smoke harness, over the sample world and its broker.
\<close>

section \<open>The HTTP process\<close>

definition sample_process :: "(nat \<Rightarrow> nats_call \<Rightarrow> exn option) \<Rightarrow> lifespan_world" where
  "sample_process answer =
     nats_world.extend ((sample_broker answer [])\<lparr>nats_connection := None, nats_jetstream := False, consumer_task := None\<rparr>)
       (lifespan_world.fields False None (\<lambda>_. None) [] False)"

lemma sample_process_sel [simp]:
  "\<not> is_connected (sample_process answer)" "\<not> is_running (sample_process answer)" "nats_answer (sample_process answer) = answer"
  "nats_tick (sample_process answer) = 0" "metrics_answer (sample_process answer) = (\<lambda>_. None)"
  "nats_connection (sample_process answer) = None" "nats_calls (sample_process answer) = []"
  by (simp_all add: sample_process_def nats_world.defs lifespan_world.defs is_connected_def is_running_def)

lemma same_lifespan_refl: "same_lifespan w w"
  by (simp add: same_lifespan_def)

lemma yielded_sel:
  "nats_answer (yielded s w) = nats_answer w" "consumer_task (yielded s w) = Some Task_Running"
  by (simp_all add: yielded_def tried_def called_def)

theorem shutdown_lets_go_witness:
  "case lifespan sample_ucd default_nats_settings (lit ''local'') (retM (7 :: nat)) (sample_process (\<lambda>t c. None)) of (r', w') \<Rightarrow>
     r' = Inr 7 \<and> consumer_task w' = None \<and> nats_connection w' = None \<and> engine_disposed w'"
proof -
  let ?w = "sample_process (\<lambda>t c. None)"
  let ?w2 = "with_metrics (in_production sample_ucd (lit ''local'')) (yielded default_nats_settings ?w)"
  have start: "1 \<le> nats_setup_max_attempts default_nats_settings" by (simp add: default_nats_settings_def)
  have "retM (7 :: nat) ?w2 = (Inr 7, ?w2)" by (simp add: prog_simps)
  note out = shutdown_lets_go [where w = ?w and s = default_nats_settings and u = sample_ucd and environment = "lit ''local''" and
      serving = "retM (7 :: nat)" and r = "Inr 7" and ?w2.0 = ?w2, OF _ _ start _ _ _ _ _ this same_lifespan_refl]
  show ?thesis using out by (simp add: yielded_sel split: prod.splits)
qed

text \<open>A broker that accepts the connection and lets the registration time out.\<close>

definition slow_registration :: "nat \<Rightarrow> nats_call \<Rightarrow> exn option" where
  "slow_registration t c = (if t = 1 then Some (Exn PyTimeoutError []) else None)"

theorem half_started_connection_is_left_witness:
  "case lifespan sample_ucd default_nats_settings (lit ''local'') (retM (7 :: nat)) (sample_process slow_registration) of (r', w') \<Rightarrow>
     r' = Inr 7 \<and> is_connected w' \<and> Call_Drain \<notin> set (nats_calls w') \<and> Call_Close \<notin> set (nats_calls w')"
proof -
  let ?w = "sample_process slow_registration" and ?s = default_nats_settings
  let ?v = "tried ?s True (?w\<lparr>nats_connected := False\<rparr>)"
  let ?w2 = "with_metrics (in_production sample_ucd (lit ''local'')) (called [registration ?s] 1 ?v)"
  have late: "nats_setup ?s ?v = (Inl (Exn PyTimeoutError []), called [registration ?s] 1 ?v)"
    by (simp add: nats_setup_def setup_streams_def setup_consumers_def prog_simps)
      (subst setup_attempts.simps, simp add: prog_simps add_consumer_run slow_registration_def default_nats_settings_def)
  have serve: "retM (7 :: nat) ?w2 = (Inr 7, ?w2)" by (simp add: prog_simps)
  note out = half_started_connection_is_left [where w = ?w and s = ?s and u = sample_ucd and environment = "lit ''local''" and
      serving = "retM (7 :: nat)" and r = "Inr 7" and ?w1.0 = "called [registration ?s] 1 ?v" and ?w2.0 = ?w2, OF _ _ _ late serve]
  show ?thesis using out by (auto simp: slow_registration_def same_lifespan_refl split: prod.splits)
qed

section \<open>The filter of events\<close>

definition sample_event :: py_value where
  "sample_event =
     Py_Dict [(Key_Str (lit ''user''), Py_List [Py_Dict [(Key_Str (lit ''Service-Key''), Py_Str (lit ''k''))]]),
       (Key_Str (lit ''n''), Py_Other 5)]"

theorem before_send_exact_witness:
  "look [At_Key (Key_Str (lit ''user'')), At_Index 0, At_Key (Key_Str (lit ''Service-Key''))] (before_send sample_ucd sample_event) =
     Some Filtered \<and>
   look [At_Key (Key_Str (lit ''n''))] (before_send sample_ucd sample_event) = Some (Py_Other 5)"
proof -
  let ?p = "[At_Key (Key_Str (lit ''user'')), At_Index 0, At_Key (Key_Str (lit ''Service-Key''))]"
  note exact = before_send_exact [of sample_ucd sample_event, THEN conjunct1, rule_format]
  have leaf: "is_leaf Filtered" "is_leaf (Py_Other 5)" by (simp_all add: Filtered_def)
  have keys: "cuts sample_ucd (last ?p)" "is_sensitive sample_ucd (Key_Str (lit ''Service-Key''))"
    "\<not> is_body sample_ucd (Key_Str (lit ''Service-Key''))" "\<not> cuts sample_ucd (At_Key (Key_Str (lit ''user'')))"
    "\<not> cuts sample_ucd (At_Key (Key_Str (lit ''n'')))"
    by code_simp+
  show ?thesis
    using exact [OF leaf(1), of ?p] exact [OF leaf(2), of "[At_Key (Key_Str (lit ''n''))]"] keys
    by (simp add: sample_event_def)
qed

section \<open>Migrations\<close>

theorem migrations_make_models_witness:
  "map_option (downgrade_all (take 2 migrations)) (upgrade_all (take 2 migrations) []) = Some (Some [])"
proof -
  have ok: "schema_ok []" by code_simp
  have "upgrade_all (take 2 migrations) [] \<noteq> None" by code_simp
  then obtain s where s: "upgrade_all (take 2 migrations) [] = Some s" by blast
  have "downgrade_all (take 2 migrations) s = Some []"
    using migrations_make_models ok s by blast
  with s show ?thesis by simp
qed

section \<open>The smoke harness: its configuration\<close>

definition sample_config :: smoke_config where
  "sample_config =
     \<lparr>sk_scenario = Delivery_Failure, sk_run_id = 9, sk_target_user_ids = [12], sk_plans = [(12, Fail_Always)],
      sk_event_uuid = 77, sk_callback_request_id = 78\<rparr>"

definition sample_environ :: "pystr \<rightharpoonup> pystr" where
  "sample_environ =
     [lit ''EQSITECMS_SMOKE_HARNESS'' \<mapsto> lit ''1'', lit ''EQSITECMS_ENVIRONMENT'' \<mapsto> lit ''local'',
      lit ''EQSITECMS_SMOKE_RUN_ID'' \<mapsto> uuid_str 9, lit ''EQSITECMS_SMOKE_EVENT_ID'' \<mapsto> uuid_str 77,
      lit ''EQSITECMS_SMOKE_CALLBACK_REQUEST_ID'' \<mapsto> uuid_str 78,
      lit ''EQSITECMS_SMOKE_SCENARIO'' \<mapsto> lit ''delivery-failure'',
      lit ''EQSITECMS_SMOKE_SYNTHETIC_TARGETS'' \<mapsto> uuid_str 12, lit ''EQSITECMS_SMOKE_SCRIPTED_PLANS'' \<mapsto> lit ''plans'']"

definition sample_loads :: "pystr \<Rightarrow> json option" where
  "sample_loads s = Some (J_Object [(uuid_str 12, J_Str (lit ''fail-always''))])"

lemma sample_targets: "uuid_list sample_ucd (uuid_str 12) = retM [12]"
proof -
  have "list_ex (\<lambda>marker. py_contains marker (uuid_str 12)) [lit ''*'', lit ''>''] = False"
    "py_split_on 44 (uuid_str 12) = [uuid_str 12]"
    by code_simp+
  then show ?thesis by (simp add: uuid_list_def uuid_str_strip uuid_of_str_str)
qed

lemma sample_configured: "SmokeHarnessConfig_from_environment sample_ucd sample_loads sample_environ w = (Inr sample_config, w)"
proof -
  have env: "py_lower sample_ucd (py_strip (lit ''local'')) = lit ''local''"
    "enum_of scenario_value scenarios (lit ''delivery-failure'') = Some Delivery_Failure"
    "enum_of plan_value scripted_plans (lit ''fail-always'') = Some Fail_Always"
    by code_simp+
  have names: "env_get sample_environ ''EQSITECMS_ENVIRONMENT'' = lit ''local''"
    "env_get sample_environ ''EQSITECMS_SMOKE_RUN_ID'' = uuid_str 9"
    "env_get sample_environ ''EQSITECMS_SMOKE_EVENT_ID'' = uuid_str 77"
    "env_get sample_environ ''EQSITECMS_SMOKE_CALLBACK_REQUEST_ID'' = uuid_str 78"
    "env_get sample_environ ''EQSITECMS_SMOKE_SCENARIO'' = lit ''delivery-failure''"
    "env_get sample_environ ''EQSITECMS_SMOKE_SYNTHETIC_TARGETS'' = uuid_str 12"
    "env_get sample_environ ''EQSITECMS_SMOKE_SCRIPTED_PLANS'' = lit ''plans''"
    "sample_environ (lit ''EQSITECMS_SMOKE_HARNESS'') = Some (lit ''1'')"
    by (simp_all add: env_get_def sample_environ_def)
  show ?thesis
    by (simp add: SmokeHarnessConfig_from_environment_def names env sample_targets required_uuid_def uuid_str_strip
        uuid_of_str_str prog_simps decode_plans_def sample_loads_def dict_merge_def validate_scenario_plan_def sample_config_def)
qed


section \<open>The smoke harness: deliveries\<close>

definition sample_smoke :: smoke_world where
  "sample_smoke = nats_world.extend (sample_broker (\<lambda>t c. None) []) (smoke_world.fields [])"

lemma domain_ok_smoke: "domain_ok (nats_world.extend w x) = domain_ok w" "room n (nats_world.extend w x) = room n w"
  "committed (nats_world.extend w x) = committed w"
  by (simp_all add: domain_ok_def fresh_supply_def undrawn_def room_def nats_world.defs)

lemma sample_smoke_ok:
  "domain_ok sample_smoke" "n \<le> 1000 \<Longrightarrow> room n sample_smoke" "committed sample_smoke = sample_db"
  by (simp_all add: sample_smoke_def domain_ok_smoke sample_broker_ok)

lemma sample_unwritten: "unwritten [(500, Fail_Always)] (sample_command\<lparr>cm_user_ids := [12]\<rparr>) sample_smoke"
  by (simp add: unwritten_def sample_smoke_ok sample_reach ledger_of_def attempts_def)
    (simp add: sample_smoke_def nats_world.defs smoke_world.defs attempts_at_def)

theorem redeliveries_follow_plan_witness:
  "let handle = NotificationCommandsSendVkHandler_handle (ScriptedVkMessenger [(500, Fail_Always)]) sample_ucd sample_decode [49] sample_headers in
   ledger_of (vk_deliveries (committed (delivered 2 handle sample_smoke))) (77, 12) = Some (STATUS_FAILED, 2) \<and>
   fst (handle (delivered 2 handle sample_smoke)) =
     Inl (Exn VkDeliveryRetryableError (lit ''VK delivery has retryable recipient failures''))"
proof -
  have "room (Suc 2 * length (cm_user_ids (sample_command\<lparr>cm_user_ids := [12]\<rparr>))) sample_smoke" by (simp add: sample_smoke_ok)
  from redeliveries_follow_plan [OF sample_accepted(2) sample_unwritten sample_smoke_ok(1) this]
  show ?thesis by (simp add: sample_smoke_ok sample_reach planned_row_def Let_def)
qed

text \<open>One delivery in the second sleep, and two in a row in the fifth.\<close>

definition sample_schedule :: "nat \<Rightarrow> nat" where
  "sample_schedule i = (if i = 1 then 1 else if i = 4 then 2 else 0)"

theorem exhaustion_is_observed_witness:
  "fst (wait_for_failed_redelivery_exhaustion
     (redelivering sample_schedule sample_smoke
       (NotificationCommandsSendVkHandler_handle (ScriptedVkMessenger [(500, Fail_Always)]) sample_ucd sample_decode [49] sample_headers))
     sample_config [(12, 500)] SMOKE_MAX_DELIVER 1 sample_smoke) = Inr ()"
proof -
  have total: "sum sample_schedule {..<80} = 3" "sum sample_schedule {..<79} = 3" "sample_schedule 79 = 0" by code_simp+
  have "failing_run (sample_command\<lparr>cm_user_ids := [12]\<rparr>) sample_config [(500, Fail_Always)] sample_smoke 12 500
      (sum sample_schedule {..<80})"
    using sample_unwritten unfolding total by (simp add: failing_run_def sample_smoke_ok sample_reach sample_config_def)
  moreover have "map_of [(12, 500)] (12 :: uuid) = Some (500 :: int)" by simp
  ultimately show ?thesis
    using exhaustion_is_observed [OF sample_accepted(2), unfolded Let_def, where ack = 1] total(2,3) by blast
qed

section \<open>The smoke harness: runs\<close>

definition sample_harness :: harness_world where
  "sample_harness = smoke_world.extend sample_smoke (harness_world.fields False False False (\<lambda>_. None))"

lemma sample_harness_committed [simp]: "committed sample_harness = sample_db"
  by (simp add: sample_harness_def sample_smoke_def smoke_world.defs nats_world.defs)

text \<open>The scenario of an unknown user, with an identifier that a linked owner has.\<close>

definition wrong_fixture :: smoke_config where
  "wrong_fixture = sample_config\<lparr>sk_scenario := Unknown_User\<rparr>"

lemma wrong_fixture_refused:
  "sk_scenario wrong_fixture \<noteq> Malformed" "sk_target_user_ids wrong_fixture = [12]" "sk_event_uuid wrong_fixture = 77"
  "\<not> fixtures_match wrong_fixture
     (filter (\<lambda>r. uv_user_id r \<in> set (sk_target_user_ids wrong_fixture)) (user_vks (committed sample_harness)))"
  "unreferenced (sk_target_user_ids wrong_fixture) (committed sample_harness)"
  by (simp_all add: wrong_fixture_def sample_config_def fixtures_match_def expected_state_def unreferenced_def
      sample_db_def sample_binding_def sample_code_def)

lemma referenced_fixture_refused:
  "\<not> fixtures_match (wrong_fixture\<lparr>sk_target_user_ids := [11]\<rparr>)
     (filter (\<lambda>r. uv_user_id r \<in> set (sk_target_user_ids (wrong_fixture\<lparr>sk_target_user_ids := [11]\<rparr>))) (user_vks (committed sample_harness)))"
  "\<not> unreferenced [11] (committed sample_harness)"
  by (simp_all add: wrong_fixture_def sample_config_def fixtures_match_def expected_state_def unreferenced_def
      sample_db_def sample_binding_def sample_code_def)

theorem refused_fixtures_are_deleted_witness:
  "(case run_harness sample_ucd (\<lambda>h t w. w) (\<lambda>c. []) sample_decode default_nats_settings wrong_fixture sample_harness of (r, w') \<Rightarrow>
      r = Inl (Raised (Exn RuntimeError (lit ''synthetic fixtures do not match the guarded scenario''))) \<and>
      map uv_user_id (user_vks (committed sample_harness)) = [11, 12, 13] \<and> map uv_user_id (user_vks (committed w')) = [11, 13]) \<and>
   (case run_harness sample_ucd (\<lambda>h t w. w) (\<lambda>c. []) sample_decode default_nats_settings
       (wrong_fixture\<lparr>sk_target_user_ids := [11]\<rparr>) sample_harness of (r, w') \<Rightarrow>
      (\<exists>es. r = Inl (Raised_Group (lit ''smoke harness body and cleanup failed'') es)) \<and> committed w' = sample_db)"
proof -
  have db: "db_ok (committed sample_harness)" by (simp add: db_ok_sample)
  have m: "sk_scenario (wrong_fixture\<lparr>sk_target_user_ids := [11]\<rparr>) \<noteq> Malformed" using wrong_fixture_refused(1) by simp
  have "map uv_user_id (user_vks (without_fixtures 77 [12] sample_db)) = [11, 13]" "map uv_user_id (user_vks sample_db) = [11, 12, 13]"
    by (simp_all add: without_fixtures_def sample_db_def sample_binding_def)
  then show ?thesis
    using refused_fixtures_are_deleted [where u = sample_ucd and event_loop = "\<lambda>h t w. w" and encode = "\<lambda>c. []" and
        decode = sample_decode and base = default_nats_settings, OF db wrong_fixture_refused(1,4)]
      refused_fixtures_are_deleted [where u = sample_ucd and event_loop = "\<lambda>h t w. w" and encode = "\<lambda>c. []" and
        decode = sample_decode and base = default_nats_settings, OF db m referenced_fixture_refused(1)]
      wrong_fixture_refused(2,3,5) referenced_fixture_refused(2)
    by (simp add: case_prod_beta)
qed

text \<open>A run whose durable cannot be registered: its stream exists by then.\<close>

definition no_registration :: "nat \<Rightarrow> nats_call \<Rightarrow> exn option" where
  "no_registration t c = (case c of Call_Add_Consumer x \<Rightarrow> Some (Exn PyTimeoutError []) | _ \<Rightarrow> None)"

definition unregistered_run :: smoke_config where
  "unregistered_run = sample_config\<lparr>sk_scenario := Unknown_User, sk_target_user_ids := [99]\<rparr>"

abbreviation unregistered_settings :: nats_settings where
  "unregistered_settings \<equiv> harness_nats_settings default_nats_settings (smoke_config_topology sample_ucd unregistered_run)"

lemma unregistered_body:
  "\<exists>w2. smoke_body sample_ucd (\<lambda>h t w. w) (\<lambda>c. []) sample_decode unregistered_run unregistered_settings
      (new_run unregistered_settings (sample_harness\<lparr>nats_answer := no_registration\<rparr>)) = (Inl (Exn PyTimeoutError []), w2) \<and>
    committed w2 = sample_db \<and> stream_created w2 \<and> nats_jetstream w2 \<and> is_connected w2"
proof -
  let ?w = "opened (new_run unregistered_settings (sample_harness\<lparr>nats_answer := no_registration\<rparr>))"
  have rows: "filter (\<lambda>r. uv_user_id r \<in> set (sk_target_user_ids unregistered_run)) (user_vks sample_db) = []"
    by (simp add: unregistered_run_def sample_db_def sample_binding_def)
  have fixture: "fixture_rows (sk_target_user_ids unregistered_run)
      (new_run unregistered_settings (sample_harness\<lparr>nats_answer := no_registration\<rparr>)) = (Inr [], ?w)"
    by (simp add: fixture_rows_def with_session_reads new_run_def new_client_def rows)
  have valid: "validate_fixture_state unregistered_run [] w = (Inr (), w)" for w :: harness_world
    by (simp add: validate_fixture_state_def fixtures_match_def expected_state_def unregistered_run_def prog_simps)
  have plans: "peer_plans unregistered_run (peer_by_user []) w = (Inr [], w)" for w :: harness_world
    by (simp add: peer_plans_def peer_by_user_def dict_merge_def prog_simps)
  have settings: "nats_setup_max_attempts unregistered_settings = 10"
    by (simp add: harness_nats_settings_def default_nats_settings_def)
  have connect: "\<exists>w2. connect_topology unregistered_settings (smoke_config_topology sample_ucd unregistered_run)
      (?w\<lparr>scripted_attempts := []\<rparr>) = (Inl (Exn PyTimeoutError []), w2) \<and>
      committed w2 = sample_db \<and> stream_created w2 \<and> nats_jetstream w2 \<and> is_connected w2"
    unfolding connect_topology_def setup_consumers_def
    by (subst setup_attempts.simps)
      (simp add: prog_simps nats_connect_def get_jetstream_def nats_call_def is_connected_def opened_def new_run_def
        new_client_def no_registration_def add_notification_commands_send_vk_consumer_def settings)
  then obtain w2 where w2: "connect_topology unregistered_settings (smoke_config_topology sample_ucd unregistered_run)
      (?w\<lparr>scripted_attempts := []\<rparr>) = (Inl (Exn PyTimeoutError []), w2)"
    "committed w2 = sample_db" "stream_created w2" "nats_jetstream w2" "is_connected w2" by blast
  have "smoke_body sample_ucd (\<lambda>h t w. w) (\<lambda>c. []) sample_decode unregistered_run unregistered_settings
      (new_run unregistered_settings (sample_harness\<lparr>nats_answer := no_registration\<rparr>)) = (Inl (Exn PyTimeoutError []), w2)"
    unfolding smoke_body_def Let_def using w2(1) by (simp add: bindM_run thenM_run run_simps fixture valid plans)
  with w2 show ?thesis by blast
qed


end
