(* ===== verification/Migration_Env.thy ===== *)
theory Migration_Env
  imports Schema Settings
begin

text \<open>
  \<open>migration/env.py\<close>: the script Alembic runs to bring a database to the schema of the migrations.

  The URL of the database goes through the configuration of Alembic, a \<open>ConfigParser\<close> of the standard
  library, whose values are patterns: \<open>%%\<close> stands for a percent sign and \<open>%(name)s\<close> for another option.
  What \<open>set\<close> refuses and what \<open>items\<close> reads is written out (\<open>settable\<close>, \<open>interpolated\<close>).  What
  \<open>context.run_migrations()\<close> does to the open connection is a parameter; its transaction, the engine
  and its connections are fields of \<open>migration_world\<close>.  A database is found by its URL and holds its
  tables and the revision Alembic has noted in it (the one row of \<open>alembic_version\<close>, if any).
\<close>

section \<open>Values of the configuration\<close>

text \<open>\<open>value.replace('%%', '')\<close>\<close>

fun drop_escaped :: "pystr \<Rightarrow> pystr" where
  "drop_escaped (c # d # cs) = (if c = 37 \<and> d = 37 then drop_escaped cs else c # drop_escaped (d # cs))"
| "drop_escaped cs = cs"

text \<open>The pattern \<open>%\([^)]+\)s\<close> at the start of a string: the name and what follows.\<close>

definition key_match :: "pystr \<Rightarrow> (pystr \<times> pystr) option" where
  "key_match s =
     (if py_startswith s (lit ''%('')
      then
        let name = takeWhile (\<lambda>c. c \<noteq> 41) (drop 2 s);
            rest = drop (2 + length name) s
        in if name \<noteq> [] \<and> py_startswith rest (lit '')s'') then Some (name, drop 2 rest) else None
      else None)"

lemma key_match_shorter [termination_simp]: "key_match (c # cs) = Some (name, rest) \<Longrightarrow> length rest < Suc (length cs)"
  by (auto simp: key_match_def Let_def split: if_splits)

lemma key_match_needs_percent: "c \<noteq> 37 \<Longrightarrow> key_match (c # cs) = None"
  by (simp add: key_match_def py_startswith_def lit_def)

function (sequential) drop_keys :: "pystr \<Rightarrow> pystr" where
  "drop_keys [] = []"
| "drop_keys (c # cs) =
     (case key_match (c # cs) of Some (name, rest) \<Rightarrow> drop_keys rest | None \<Rightarrow> c # drop_keys cs)"
  by pat_completeness auto
termination
  by (relation "measure length") (auto dest: key_match_shorter)

text \<open>What \<open>ConfigParser.set\<close> takes: no percent sign may be left over.\<close>

definition settable :: "pystr \<Rightarrow> bool" where
  "settable v \<longleftrightarrow> 37 \<notin> set (drop_keys (drop_escaped v))"

text \<open>
  \<open>interpolated u n opts s\<close> reads the pattern \<open>s\<close>; \<open>n\<close> is how deep references may still be nested, and
  \<open>None\<close> one of the errors of \<open>ConfigParser\<close>.
\<close>

function (sequential) interpolated :: "ucd \<Rightarrow> nat \<Rightarrow> (pystr \<rightharpoonup> pystr) \<Rightarrow> pystr \<Rightarrow> pystr option" where
  "interpolated u n opts [] = Some []"
| "interpolated u 0 opts (c # cs) = None"
| "interpolated u (Suc n) opts (c # cs) =
     (if c \<noteq> 37 then map_option (Cons c) (interpolated u (Suc n) opts cs)
      else if py_startswith cs (lit ''%'') then map_option (Cons c) (interpolated u (Suc n) opts (tl cs))
      else
        (case key_match (c # cs) of
           None \<Rightarrow> None
         | Some (name, rest) \<Rightarrow>
             (case opts (py_lower u name) of
                None \<Rightarrow> None
              | Some v \<Rightarrow>
                  (case (if 37 \<in> set v then interpolated u n opts v else Some v) of
                     None \<Rightarrow> None
                   | Some x \<Rightarrow> map_option (append x) (interpolated u (Suc n) opts rest)))))"
  by pat_completeness auto
termination
  by (relation "measures [\<lambda>(u, n, opts, s). n, \<lambda>(u, n, opts, s). length s]")
    (auto dest: key_match_shorter)

definition MAX_INTERPOLATION_DEPTH :: nat where
  "MAX_INTERPOLATION_DEPTH = 10"

text \<open>\<open>dict(parser.items(section))\<close>: every option of the section, read.\<close>

fun read_items :: "ucd \<Rightarrow> (pystr \<rightharpoonup> pystr) \<Rightarrow> (pystr \<times> pystr) list \<Rightarrow> (pystr \<times> pystr) list option" where
  "read_items u opts [] = Some []"
| "read_items u opts ((k, v) # kvs) =
     (case interpolated u MAX_INTERPOLATION_DEPTH opts v of
        None \<Rightarrow> None
      | Some x \<Rightarrow> map_option (Cons (k, x)) (read_items u opts kvs))"

section \<open>The world of a migration\<close>

record alembic_config =
  ac_file_name :: "pystr option"
  ac_attributes :: "(pystr \<times> bool) list"
  ac_options :: "(pystr \<times> pystr) list"

record database_state =
  ds_schema :: schema
  ds_revision :: "string option"

datatype migration_context = Offline_Context pystr | Online_Context

record migration_world =
  mw_config :: alembic_config
  mw_offline :: bool
  mw_loggers_replaced :: bool
  mw_databases :: "pystr \<Rightarrow> database_state"
  mw_connect_answer :: "pystr \<Rightarrow> exn option"
  mw_engine :: "pystr option"
  mw_connection :: "(pystr \<times> database_state) option"
  mw_context :: "migration_context option"

definition url_option :: pystr where
  "url_option = lit ''sqlalchemy.url''"

text \<open>\<open>config.set_main_option\<close> and \<open>config.get_section\<close>, on the main section.\<close>

definition set_main_option :: "pystr \<Rightarrow> pystr \<Rightarrow> ('x migration_world_scheme, unit) prog" where
  "set_main_option name v =
     (if \<not> settable v then raiseM ValueError (lit ''invalid interpolation syntax'')
      else
        modifyM (\<lambda>w. w\<lparr>mw_config := (mw_config w)\<lparr>ac_options := AList.update name v (ac_options (mw_config w))\<rparr>\<rparr>))"

definition get_section :: "ucd \<Rightarrow> ('x migration_world_scheme, (pystr \<times> pystr) list) prog" where
  "get_section u =
     bindM (getsM (\<lambda>w. ac_options (mw_config w))) (\<lambda>options.
       case read_items u (map_of options) options of
         None \<Rightarrow> raiseM ConfigParserError (lit ''bad interpolation'')
       | Some items \<Rightarrow> retM items)"

text \<open>The engine (\<open>async_engine_from_config\<close>) and its one connection; a \<open>NullPool\<close> keeps none open.\<close>

definition engine_from_config :: "(pystr \<times> pystr) list \<Rightarrow> ('x migration_world_scheme, pystr) prog" where
  "engine_from_config options =
     (case map_of options url_option of
        None \<Rightarrow> raiseM KeyError (lit ''url'')
      | Some url \<Rightarrow> thenM (modifyM (\<lambda>w. w\<lparr>mw_engine := Some url\<rparr>)) (retM url))"

definition engine_connect :: "pystr \<Rightarrow> ('x migration_world_scheme, unit) prog" where
  "engine_connect url = (\<lambda>w.
     case mw_connect_answer w url of
       Some e \<Rightarrow> (Inl e, w)
     | None \<Rightarrow> (Inr (), w\<lparr>mw_connection := Some (url, mw_databases w url)\<rparr>))"

definition connection_close :: "('x migration_world_scheme, unit) prog" where
  "connection_close = modifyM (\<lambda>w. w\<lparr>mw_connection := None\<rparr>)"

definition engine_dispose :: "('x migration_world_scheme, unit) prog" where
  "engine_dispose = modifyM (\<lambda>w. w\<lparr>mw_engine := None\<rparr>)"

text \<open>
  \<open>with context.begin_transaction()\<close>: on a connection the block is one transaction, committed when it
  returns and rolled back when it raises; offline it only frames the text that is written.
\<close>

definition transaction_commit :: "'x migration_world_scheme \<Rightarrow> 'x migration_world_scheme" where
  "transaction_commit w =
     (case mw_connection w of None \<Rightarrow> w
      | Some (url, s) \<Rightarrow> w\<lparr>mw_databases := (mw_databases w)(url := s)\<rparr>)"

definition transaction_rollback :: "'x migration_world_scheme \<Rightarrow> 'x migration_world_scheme" where
  "transaction_rollback w =
     (case mw_connection w of None \<Rightarrow> w
      | Some (url, s) \<Rightarrow> w\<lparr>mw_connection := Some (url, mw_databases w url)\<rparr>)"

definition begin_transaction :: "('x migration_world_scheme, unit) prog \<Rightarrow> ('x migration_world_scheme, unit) prog" where
  "begin_transaction m =
     thenM
       (catchM m [BaseException] (\<lambda>e. thenM (modifyM transaction_rollback) (throwM e)))
       (modifyM transaction_commit)"

definition context_configure :: "migration_context \<Rightarrow> ('x migration_world_scheme, unit) prog" where
  "context_configure c = modifyM (\<lambda>w. w\<lparr>mw_context := Some c\<rparr>)"

section \<open>The script\<close>

definition env_config :: "app_settings \<Rightarrow> ('x migration_world_scheme, unit) prog" where
  "env_config settings =
     thenM (set_main_option url_option (database_url settings))
     (bindM (getsM mw_config) (\<lambda>config.
       let configure_logger =
             (case map_of (ac_attributes config) (lit ''configure_logger'') of None \<Rightarrow> True | Some b \<Rightarrow> b)
       in
       if ac_file_name config \<noteq> None \<and> ac_file_name config \<noteq> Some [] \<and> configure_logger
       then modifyM (\<lambda>w. w\<lparr>mw_loggers_replaced := True\<rparr>)
       else retM ()))"

definition run_migrations_offline ::
    "('x migration_world_scheme, unit) prog \<Rightarrow> app_settings \<Rightarrow> ('x migration_world_scheme, unit) prog" where
  "run_migrations_offline run_migrations settings =
     thenM (context_configure (Offline_Context (database_url settings)))
       (begin_transaction run_migrations)"

definition do_run_migrations ::
    "('x migration_world_scheme, unit) prog \<Rightarrow> ('x migration_world_scheme, unit) prog" where
  "do_run_migrations run_migrations =
     thenM (context_configure Online_Context) (begin_transaction run_migrations)"

definition run_async_migrations ::
    "('x migration_world_scheme, unit) prog \<Rightarrow> ucd \<Rightarrow> ('x migration_world_scheme, unit) prog" where
  "run_async_migrations run_migrations u =
     bindM (get_section u) (\<lambda>section.
     bindM (engine_from_config section) (\<lambda>connectable.
       thenM
         (thenM (engine_connect connectable)
           (finallyM (do_run_migrations run_migrations) connection_close))
         engine_dispose))"

definition run_migrations_online ::
    "('x migration_world_scheme, unit) prog \<Rightarrow> ucd \<Rightarrow> ('x migration_world_scheme, unit) prog" where
  "run_migrations_online run_migrations u = run_async_migrations run_migrations u"

definition migration_env ::
    "('x migration_world_scheme, unit) prog \<Rightarrow> ucd \<Rightarrow> app_settings \<Rightarrow> ('x migration_world_scheme, unit) prog" where
  "migration_env run_migrations u settings =
     thenM (env_config settings)
     (bindM (getsM mw_offline) (\<lambda>offline.
       if offline then run_migrations_offline run_migrations settings
       else run_migrations_online run_migrations u))"

section \<open>Values without percent signs, and with\<close>

lemma drop_escaped_id: "\<not> py_contains (lit ''%%'') s \<Longrightarrow> drop_escaped s = s"
  by (induction s rule: drop_escaped.induct) (auto simp: py_startswith_def lit_def)

lemma drop_keys_id: "\<not> py_contains (lit ''%('') s \<Longrightarrow> drop_keys s = s"
proof (induction s)
  case (Cons c cs)
  then have "key_match (c # cs) = None" by (simp add: key_match_def)
  with Cons show ?case by simp
qed simp

lemma not_settable:
  "37 \<in> set v \<Longrightarrow> \<not> py_contains (lit ''%%'') v \<Longrightarrow> \<not> py_contains (lit ''%('') v \<Longrightarrow> \<not> settable v"
  by (simp add: settable_def drop_escaped_id drop_keys_id)

lemma no_percent_infix:
  assumes "37 \<notin> set v"
  shows "\<not> py_contains (lit (CHR ''%'' # s)) v"
proof
  assume "py_contains (lit (CHR ''%'' # s)) v"
  then obtain a b where "v = a @ lit (CHR ''%'' # s) @ b" unfolding py_contains_infix by blast
  moreover have "37 \<in> set (lit (CHR ''%'' # s))" by (simp add: lit_def)
  ultimately show False using assms by simp
qed

lemma settable_plain: "37 \<notin> set v \<Longrightarrow> settable v"
  by (simp add: settable_def drop_escaped_id drop_keys_id no_percent_infix)

lemma interpolated_plain: "37 \<notin> set v \<Longrightarrow> interpolated u (Suc n) opts v = Some v"
  by (induction v) auto

lemma interpolated_update:
  assumes "37 \<notin> set v" "interpolated u n opts s \<noteq> None"
  shows "interpolated u n (opts(k \<mapsto> v)) s \<noteq> None"
  using assms
proof (induction u n opts s rule: interpolated.induct)
  case (3 u n opts c cs)
  consider "c \<noteq> 37" | "c = 37" "py_startswith cs (lit ''%'')" | "c = 37" "\<not> py_startswith cs (lit ''%'')" by blast
  then show ?case
  proof cases
    case 1
    with 3 show ?thesis by auto
  next
    case 2
    with 3 show ?thesis by auto
  next
    case 3
    with "3.prems" obtain name rest where m: "key_match (c # cs) = Some (name, rest)"
      by (auto split: option.splits)
    with 3 "3.prems" obtain x y where x: "opts (py_lower u name) = Some x"
      "(if 37 \<in> set x then interpolated u n opts x else Some x) = Some y"
      "interpolated u (Suc n) opts rest \<noteq> None"
      by (auto split: option.splits)
    have c: "\<not> c \<noteq> 37" using 3 by simp
    have r: "interpolated u (Suc n) (opts(k \<mapsto> v)) rest \<noteq> None"
      by (rule "3.IH"(4) [OF c 3(2) m refl x(1,2) "3.prems"(1) x(3)])
    have nested: "interpolated u n (opts(k \<mapsto> v)) x \<noteq> None" if "37 \<in> set x"
      by (rule "3.IH"(3) [OF c 3(2) m refl x(1) that "3.prems"(1)]) (use x(2) that in simp)
    define o' where "o' = opts(k \<mapsto> v)"
    obtain r' where r': "interpolated u (Suc n) o' rest = Some r'" using r unfolding o'_def by auto
    have "\<exists>z. interpolated u (Suc n) o' (c # cs) = Some z"
    proof (cases "py_lower u name = k")
      case True
      then have "o' (py_lower u name) = Some v" by (simp add: o'_def)
      with 3 m r' "3.prems"(1) show ?thesis by simp
    next
      case False
      then have "o' (py_lower u name) = Some x" by (simp add: o'_def x(1))
      moreover obtain z where "(if 37 \<in> set x then interpolated u n o' x else Some x) = Some z"
        using nested unfolding o'_def by fastforce
      ultimately show ?thesis using 3 m r' by simp
    qed
    then show ?thesis unfolding o'_def by (elim exE) (simp only: option.distinct not_False_eq_True)
  qed
qed auto

lemma read_items_mono:
  assumes "read_items u opts kvs \<noteq> None" "\<And>s. interpolated u MAX_INTERPOLATION_DEPTH opts s \<noteq> None \<Longrightarrow>
    interpolated u MAX_INTERPOLATION_DEPTH opts' s \<noteq> None"
  shows "read_items u opts' kvs \<noteq> None"
  using assms(1)
proof (induction kvs)
  case (Cons kv kvs)
  obtain a b where kv: "kv = (a, b)" by force
  with Cons.prems have "interpolated u MAX_INTERPOLATION_DEPTH opts b \<noteq> None" "read_items u opts kvs \<noteq> None"
    by (auto split: option.splits)
  with Cons.IH assms(2) kv show ?case by (fastforce split: option.splits)
qed simp

lemma read_items_update:
  assumes "37 \<notin> set v" "read_items u opts kvs \<noteq> None"
  shows "\<exists>items. read_items u (opts(k \<mapsto> v)) (AList.update k v kvs) = Some items \<and> map_of items k = Some v"
proof -
  define opts' where "opts' = opts(k \<mapsto> v)"
  have self: "interpolated u MAX_INTERPOLATION_DEPTH opts' v = Some v"
    using interpolated_plain [OF assms(1), of u 9] by (simp add: MAX_INTERPOLATION_DEPTH_def numeral_eq_Suc)
  have more: "interpolated u MAX_INTERPOLATION_DEPTH opts s \<noteq> None \<Longrightarrow> interpolated u MAX_INTERPOLATION_DEPTH opts' s \<noteq> None"
    for s unfolding opts'_def by (rule interpolated_update [OF assms(1)])
  have "\<exists>items. read_items u opts' (AList.update k v kvs) = Some items \<and> map_of items k = Some v"
    using assms(2)
  proof (induction kvs)
    case Nil
    show ?case by (simp add: self)
  next
    case (Cons kv kvs)
    obtain a b where kv: "kv = (a, b)" by force
    with Cons.prems have s: "interpolated u MAX_INTERPOLATION_DEPTH opts b \<noteq> None" "read_items u opts kvs \<noteq> None"
      by (auto split: option.splits)
    from more [OF s(1)] read_items_mono [OF s(2) more] Cons.IH [OF s(2)] kv self
    show ?case by (auto split: option.splits)
  qed
  then show ?thesis by (simp add: opts'_def)
qed

section \<open>Where the migrations run\<close>

lemma database_url_password: "c \<in> set (postgres_password s) \<Longrightarrow> c \<in> set (database_url s)"
  by (simp add: database_url_def)

text \<open>The configuration after the first lines of the script, and the world it leaves.\<close>

definition configured :: "app_settings \<Rightarrow> 'x migration_world_scheme \<Rightarrow> 'x migration_world_scheme \<Rightarrow> bool" where
  "configured s w v \<longleftrightarrow>
     ac_options (mw_config v) = AList.update url_option (database_url s) (ac_options (mw_config w)) \<and>
     mw_databases v = mw_databases w \<and> mw_offline v = mw_offline w \<and>
     mw_connect_answer v = mw_connect_answer w \<and> mw_connection v = mw_connection w"

lemma env_config_run:
  assumes "settable (database_url s)"
  obtains v where "env_config s w = (Inr (), v)" "configured s w v"
proof -
  have "\<exists>v. env_config s w = (Inr (), v) \<and> configured s w v"
    using assms by (simp add: env_config_def set_main_option_def prog_simps Let_def configured_def)
  with that show thesis by blast
qed

lemma begin_transaction_run:
  "begin_transaction m w =
     (case m w of (Inr _, w') \<Rightarrow> (Inr (), transaction_commit w') | (Inl e, w') \<Rightarrow> (Inl e, transaction_rollback w'))"
  by (auto simp: begin_transaction_def prog_simps split: prod.split sum.split)

lemma section_url:
  assumes "configured s w v" "37 \<notin> set (database_url s)"
    and "read_items u (map_of (ac_options (mw_config w))) (ac_options (mw_config w)) \<noteq> None"
  obtains items where "get_section u v = (Inr items, v)" "map_of items url_option = Some (database_url s)"
proof -
  from read_items_update [OF assms(2,3)] obtain items where i:
    "read_items u ((map_of (ac_options (mw_config w)))(url_option \<mapsto> database_url s))
      (AList.update url_option (database_url s) (ac_options (mw_config w))) = Some items"
    "map_of items url_option = Some (database_url s)" by blast
  with assms(1) have "get_section u v = (Inr items, v)"
    by (simp add: get_section_def configured_def prog_simps update_conv')
  with i(2) that show thesis by blast
qed

text \<open>
  What \<open>upgrade head\<close> has left to do: the migrations after the revision noted in the database, all of
  them when none is noted, and \<open>None\<close> when the revision is not one of the repository.
\<close>

definition pending :: "migration list \<Rightarrow> string option \<Rightarrow> migration list option" where
  "pending ms r =
     (case r of
        None \<Rightarrow> Some ms
      | Some x \<Rightarrow>
          if x \<in> set (map mg_revision ms) then Some (tl (dropWhile (\<lambda>m. mg_revision m \<noteq> x) ms)) else None)"

text \<open>The database after migrations, each of which is noted as it is done.\<close>

definition noted :: "migration list \<Rightarrow> string option \<Rightarrow> string option" where
  "noted ms r = (if ms = [] then r else Some (mg_revision (last ms)))"

text \<open>The database that the first migrations make of an empty one.\<close>

definition migrated :: "nat \<Rightarrow> database_state" where
  "migrated n =
     \<lparr>ds_schema = the (upgrade_all (take n migrations) []), ds_revision = noted (take n migrations) None\<rparr>"

lemma upgrade_all_append:
  "upgrade_all (ms @ ns) sc = Option.bind (upgrade_all ms sc) (upgrade_all ns)"
  by (simp add: upgrade_all_def run_ops_append split: option.split)

lemma pending_migrated: "pending migrations (ds_revision (migrated n)) = Some (drop n migrations)"
proof (cases "n \<le> 3")
  case True
  then consider "n = 0" | "n = 1" | "n = 2" | "n = 3" by linarith
  then show ?thesis
    by cases (simp_all add: migrated_def noted_def pending_def migrations_def migration_0001_initial_def
        migration_0002_add_vk_domain_def migration_0003_add_vk_notification_deliveries_def numeral_2_eq_2 numeral_3_eq_3)
next
  case False
  then have "length migrations \<le> n" by (simp add: migrations_def)
  then have "take n migrations = migrations" "drop n migrations = []" by simp_all
  then show ?thesis
    by (simp add: migrated_def noted_def pending_def migrations_def migration_0001_initial_def
        migration_0002_add_vk_domain_def migration_0003_add_vk_notification_deliveries_def)
qed

lemma upgrade_migrated: "upgrade_all (drop n migrations) (ds_schema (migrated n)) = Some models_schema"
proof -
  have "upgrade_all (take n migrations @ drop n migrations) [] = Some models_schema"
    by (simp only: append_take_drop_id migrations_upgrade)
  then show ?thesis
    by (auto simp: upgrade_all_append migrated_def bind_eq_Some_conv simp del: append_take_drop_id)
qed

lemma noted_migrated: "noted (drop n migrations) (ds_revision (migrated n)) = Some ''20260827_0003''"
proof -
  have last: "mg_revision (last migrations) = ''20260827_0003''" "migrations \<noteq> []"
    by (simp_all add: migrations_def migration_0003_add_vk_notification_deliveries_def)
  show ?thesis
  proof (cases "drop n migrations = []")
    case True
    then have "take n migrations = migrations" by simp
    with True last show ?thesis by (simp add: noted_def migrated_def)
  next
    case False
    then have "last (drop n migrations) = last migrations" by (simp add: last_drop)
    with False last show ?thesis by (simp add: noted_def)
  qed
qed

text \<open>
  C19. The migrations run in the database the service itself uses, as one transaction: the URL
  survives its way through the configuration when it has no percent sign; the migrations after the
  revision of the database are applied, and when every one is accepted the database has the tables they
  make and the revision of the last.  So a database that any number of the migrations made, none, some
  or all, has the declared models and the last revision afterwards, and one that is up to date is
  what it was.  When a migration is refused, the revision is not known or the database cannot be
  reached, no database is changed.  The connection is closed in every case; the engine is disposed
  only when the migrations succeed.  (The command is \<open>upgrade head\<close>, and \<open>run\<close> says what it does.)
\<close>

theorem migrations_reach_service_database:
  fixes w :: "'x migration_world_scheme"
  assumes run: "\<And>(v :: 'x migration_world_scheme) url d.
      mw_context v = Some Online_Context \<Longrightarrow> mw_connection v = Some (url, d) \<Longrightarrow>
      run_migrations v =
        (case pending migrations (ds_revision d) of
           None \<Rightarrow> (Inl unknown_revision, v)
         | Some ms \<Rightarrow>
             (case upgrade_all ms (ds_schema d) of
                Some sc' \<Rightarrow>
                  (Inr (), v\<lparr>mw_connection := Some (url, \<lparr>ds_schema = sc', ds_revision = noted ms (ds_revision d)\<rparr>)\<rparr>)
              | None \<Rightarrow> (Inl refused, v\<lparr>mw_connection := Some (url, half_done d)\<rparr>)))"
    and "\<not> mw_offline w" "mw_connection w = None" "37 \<notin> set (database_url s)"
    and "read_items u (map_of (ac_options (mw_config w))) (ac_options (mw_config w)) \<noteq> None"
  shows "\<exists>w'. mw_connection w' = None \<and>
    (case mw_connect_answer w (database_url s) of
       Some e \<Rightarrow> migration_env run_migrations u s w = (Inl e, w') \<and> mw_databases w' = mw_databases w
     | None \<Rightarrow>
         (case pending migrations (ds_revision (mw_databases w (database_url s))) of
            None \<Rightarrow>
              migration_env run_migrations u s w = (Inl unknown_revision, w') \<and> mw_databases w' = mw_databases w \<and>
              mw_engine w' = Some (database_url s)
          | Some ms \<Rightarrow>
              (case upgrade_all ms (ds_schema (mw_databases w (database_url s))) of
                 None \<Rightarrow>
                   migration_env run_migrations u s w = (Inl refused, w') \<and> mw_databases w' = mw_databases w \<and>
                   mw_engine w' = Some (database_url s)
               | Some sc \<Rightarrow>
                   migration_env run_migrations u s w = (Inr (), w') \<and> mw_engine w' = None \<and>
                   mw_databases w' = (mw_databases w)(database_url s :=
                     \<lparr>ds_schema = sc, ds_revision = noted ms (ds_revision (mw_databases w (database_url s)))\<rparr>))) \<and>
         (\<forall>n. mw_databases w (database_url s) = migrated n \<longrightarrow>
            migration_env run_migrations u s w = (Inr (), w') \<and>
            mw_databases w' = (mw_databases w)(database_url s :=
              \<lparr>ds_schema = models_schema, ds_revision = Some ''20260827_0003''\<rparr>)))"
proof -
  obtain v where v: "env_config s w = (Inr (), v)" "configured s w v"
    using env_config_run [OF settable_plain [OF assms(4)]] by blast
  obtain items where items: "get_section u v = (Inr items, v)" "map_of items url_option = Some (database_url s)"
    using section_url [OF v(2) assms(4,5)] by blast
  let ?url = "database_url s" and ?e = "v\<lparr>mw_engine := Some (database_url s)\<rparr>" and ?d = "mw_databases w (database_url s)"
  let ?c = "?e\<lparr>mw_connection := Some (?url, ?d), mw_context := Some Online_Context\<rparr>"
  have env: "migration_env run_migrations u s w =
      thenM (thenM (engine_connect ?url) (finallyM (do_run_migrations run_migrations) connection_close)) engine_dispose ?e"
    using v items assms(2)
    by (simp add: migration_env_def run_migrations_online_def run_async_migrations_def engine_from_config_def
        configured_def prog_simps)
  have same: "mw_databases v = mw_databases w" "mw_connect_answer v = mw_connect_answer w" "mw_connection v = None"
    using v(2) assms(3) by (simp_all add: configured_def)
  have start: "run_migrations ?c =
      (case pending migrations (ds_revision ?d) of
         None \<Rightarrow> (Inl unknown_revision, ?c)
       | Some ms \<Rightarrow>
           (case upgrade_all ms (ds_schema ?d) of
              Some sc' \<Rightarrow>
                (Inr (), ?c\<lparr>mw_connection := Some (?url, \<lparr>ds_schema = sc', ds_revision = noted ms (ds_revision ?d)\<rparr>)\<rparr>)
            | None \<Rightarrow> (Inl refused, ?c\<lparr>mw_connection := Some (?url, half_done ?d)\<rparr>)))"
    by (rule run) simp_all
  note runs = env engine_connect_def do_run_migrations_def context_configure_def begin_transaction_run
    transaction_commit_def transaction_rollback_def connection_close_def engine_dispose_def finallyM_def prog_simps same
  show ?thesis
  proof (cases "mw_connect_answer w ?url")
    case (Some e)
    then show ?thesis
      by (intro exI [of _ ?e]) (simp add: env engine_connect_def prog_simps same)
  next
    case c: None
    show ?thesis
    proof (cases "pending migrations (ds_revision ?d)")
      case None
      then have "?d \<noteq> migrated n" for n using pending_migrated [of n] by auto
      then show ?thesis using c start None by (auto simp: runs)
    next
      case ms: (Some ms)
      show ?thesis
      proof (cases "upgrade_all ms (ds_schema ?d)")
        case None
        then have "?d \<noteq> migrated n" for n using ms pending_migrated [of n] upgrade_migrated [of n] by auto
        then show ?thesis using c start ms None by (auto simp: runs)
      next
        case (Some sc)
        have head: "sc = models_schema \<and> noted ms (ds_revision ?d) = Some ''20260827_0003''" if "?d = migrated n" for n
          using ms Some pending_migrated [of n] upgrade_migrated [of n] noted_migrated [of n] that by auto
        have "\<exists>w'. mw_connection w' = None \<and> migration_env run_migrations u s w = (Inr (), w') \<and> mw_engine w' = None \<and>
            mw_databases w' = (mw_databases w)(?url := \<lparr>ds_schema = sc, ds_revision = noted ms (ds_revision ?d)\<rparr>)"
          using c start ms Some by (auto simp: runs)
        with c ms Some head show ?thesis by fastforce
      qed
    qed
  qed
qed

text \<open>
  C33. A percent sign in the password of the database, as in a password with an escaped character,
  stops every migration, online or offline, before anything is done, when the URL has no doubled
  percent sign and no \<open>%(\<close>: \<open>set_main_option\<close> takes the URL for a pattern and refuses it, though the
  service itself connects with this URL.
\<close>

theorem percent_stops_migrations:
  assumes "37 \<in> set (postgres_password s)"
    and "\<not> py_contains (lit ''%%'') (database_url s)" "\<not> py_contains (lit ''%('') (database_url s)"
  shows "migration_env run_migrations u s w = (Inl (Exn ValueError (lit ''invalid interpolation syntax'')), w)"
  using not_settable [OF database_url_password [OF assms(1)] assms(2,3)]
  by (simp add: migration_env_def env_config_def set_main_option_def prog_simps)

end
