(* ===== verification/Settings_Load.thy ===== *)
theory Settings_Load
  imports Main_Backend Celery_Probe
begin

text \<open>
  \<open>settings.py\<close>, executed: the settings objects the module makes when it is imported, from the
  environment of the process and the \<open>.env\<close> file.

  A field is looked up by its alias, whatever the case of the letters (of several names that differ in
  case only, the last one counts); what is found is converted to the type of the field and checked
  against its bounds, and what is not found is the default.  The settings library does the
  conversion (\<open>field_parsers\<close>, \<open>None\<close> for a text it refuses).  A class whose \<open>model_config\<close> names
  \<open>env_file\<close> reads the file after the environment, and one without it the environment only.  Whatever a
  field or a validator refuses becomes a \<open>ValidationError\<close>.
\<close>

section \<open>Fields\<close>

record field_parsers =
  fp_int :: "pystr \<Rightarrow> int option"
  fp_bool :: "pystr \<Rightarrow> bool option"
  fp_float :: "pystr \<Rightarrow> py_float option"

text \<open>The names and values of \<open>os.environ\<close> or of the file, in their order, and what the library looks up in them.\<close>

type_synonym env_items = "(pystr \<times> pystr) list"

type_synonym env_source = "pystr \<rightharpoonup> pystr"

definition settings_source :: "ucd \<Rightarrow> env_items \<Rightarrow> env_source" where
  "settings_source u items alias = map_of (rev (map (\<lambda>(k, v). (py_lower u k, v)) items)) (py_lower u alias)"

definition env_field :: "env_source \<Rightarrow> (pystr \<Rightarrow> 'a option) \<Rightarrow> ('a \<Rightarrow> bool) \<Rightarrow> string \<Rightarrow> 'a \<Rightarrow> 'a option" where
  "env_field src parse ok alias dflt =
     (case src (lit alias) of
        None \<Rightarrow> Some dflt
      | Some raw \<Rightarrow> (case parse raw of None \<Rightarrow> None | Some x \<Rightarrow> if ok x then Some x else None))"

abbreviation str_field :: "env_source \<Rightarrow> string \<Rightarrow> pystr \<Rightarrow> pystr option" where
  "str_field src \<equiv> env_field src Some (\<lambda>_. True)"

definition env_then_file :: "ucd \<Rightarrow> env_items \<Rightarrow> env_items \<Rightarrow> env_source" where
  "env_then_file u environ dotenv = settings_source u dotenv ++ settings_source u environ"

definition from_fields :: "'a option \<Rightarrow> ('w, 'a) prog" where
  "from_fields x = (case x of None \<Rightarrow> raiseM ValidationError (lit ''invalid settings'') | Some s \<Rightarrow> retM s)"

text \<open>A \<open>ValueError\<close> of a validator is reported as a \<open>ValidationError\<close>.\<close>

definition validated :: "('w, 'a) prog \<Rightarrow> ('w, 'a) prog" where
  "validated m = catchM m [ValueError] (\<lambda>e. raiseM ValidationError (message e))"

section \<open>The classes\<close>

definition settings_fields :: "field_parsers \<Rightarrow> env_source \<Rightarrow> app_settings option" where
  "settings_fields P src =
     Option.bind (str_field src ''ENVIRONMENT'' (app_environment default_app_settings)) (\<lambda>environment.
     Option.bind (env_field src (fp_bool P) (\<lambda>_. True) ''DEBUG'' (app_debug default_app_settings)) (\<lambda>debug.
     Option.bind (str_field src ''APP_TITLE'' (app_title default_app_settings)) (\<lambda>title.
     Option.bind (str_field src ''POSTGRES_USER'' (postgres_user default_app_settings)) (\<lambda>user.
     Option.bind (str_field src ''POSTGRES_PASSWORD'' (postgres_password default_app_settings)) (\<lambda>password.
     Option.bind (str_field src ''POSTGRES_HOST'' (postgres_host default_app_settings)) (\<lambda>host.
     Option.bind (env_field src (fp_int P) (\<lambda>_. True) ''POSTGRES_PORT'' (postgres_port default_app_settings)) (\<lambda>port.
     Option.bind (str_field src ''POSTGRES_DB'' (postgres_db default_app_settings)) (\<lambda>name.
       Some \<lparr>app_environment = environment, app_debug = debug, app_title = title, postgres_user = user,
             postgres_password = password, postgres_host = host, postgres_port = port, postgres_db = name\<rparr>))))))))"

definition load_settings ::
    "ucd \<Rightarrow> field_parsers \<Rightarrow> env_items \<Rightarrow> env_items \<Rightarrow> ('w, app_settings) prog" where
  "load_settings u P environ dotenv =
     bindM (from_fields (settings_fields P (env_then_file u environ dotenv)))
       (\<lambda>s. validated (validate_production_secrets u (map_of environ) s))"

definition sentry_fields :: "field_parsers \<Rightarrow> env_source \<Rightarrow> sentry_settings option" where
  "sentry_fields P src =
     Option.bind (env_field src (fp_bool P) (\<lambda>_. True) ''SENTRY_ENABLED'' False) (\<lambda>enabled.
     Option.bind (str_field src ''SENTRY_DSN'' []) (\<lambda>dsn.
     Option.bind (str_field src ''SENTRY_ENVIRONMENT'' (lit ''development'')) (\<lambda>environment.
     Option.bind (env_field src (fp_float P) (\<lambda>r. \<not> float_less r (Finite 0) \<and> \<not> float_less (Finite 1) r)
       ''SENTRY_TRACES_SAMPLE_RATE'' (Finite 0)) (\<lambda>rate.
     Option.bind (env_field src (\<lambda>s. Some (Some s)) (\<lambda>_. True) ''SENTRY_RELEASE'' None) (\<lambda>release.
       Some \<lparr>sentry_enabled = enabled, sentry_dsn = dsn, sentry_environment = environment,
             sentry_traces_sample_rate = rate, sentry_release = release\<rparr>)))))"

definition load_sentry_settings ::
    "ucd \<Rightarrow> field_parsers \<Rightarrow> env_items \<Rightarrow> env_items \<Rightarrow> ('w, sentry_settings) prog" where
  "load_sentry_settings u P environ dotenv =
     bindM (from_fields (sentry_fields P (env_then_file u environ dotenv)))
       (\<lambda>s. validated (validate_sentry_configuration s))"

abbreviation at_least_one :: "int \<Rightarrow> bool" where
  "at_least_one i \<equiv> 1 \<le> i"

definition nats_fields :: "field_parsers \<Rightarrow> env_source \<Rightarrow> nats_settings option" where
  "nats_fields P src =
     (let d = default_nats_settings in
      Option.bind (str_field src ''NATS_SERVERS'' (nats_servers_raw d)) (\<lambda>servers.
      Option.bind (str_field src ''NATS_STREAM_SITE_EVENTS'' (nats_stream_site_events d)) (\<lambda>site_events.
      Option.bind (str_field src ''NATS_STREAM_NOTIFICATION_COMMANDS'' (nats_stream_notification_commands d)) (\<lambda>commands.
      Option.bind (str_field src ''NATS_CONSUMER_NOTIFICATION_COMMANDS_SEND_VK''
          (nats_consumer_notification_commands_send_vk d)) (\<lambda>durable.
      Option.bind (str_field src ''NATS_SUBJECT_NOTIFICATION_COMMANDS_SEND_VK''
          (nats_subject_notification_commands_send_vk d)) (\<lambda>subject.
      Option.bind (str_field src ''NATS_SUBJECTS_NOTIFICATION_COMMANDS''
          (nats_subjects_notification_commands_raw d)) (\<lambda>subjects.
      Option.bind (env_field src (fp_int P) at_least_one ''NATS_CONSUMER_ACK_WAIT_SECONDS''
          (nats_consumer_ack_wait_seconds d)) (\<lambda>ack_wait.
      Option.bind (env_field src (fp_int P) at_least_one ''NATS_CONSUMER_MAX_DELIVER'' (nats_consumer_max_deliver d)) (\<lambda>max_deliver.
      Option.bind (env_field src (fp_int P) at_least_one ''NATS_ERROR_REPORT_AFTER_ATTEMPTS''
          (nats_error_report_after_attempts d)) (\<lambda>report_after.
      Option.bind (env_field src (fp_int P) at_least_one ''NATS_SETUP_MAX_ATTEMPTS'' (nats_setup_max_attempts d)) (\<lambda>attempts.
      Option.bind (env_field src (fp_float P) (\<lambda>r. \<not> float_less r (Finite 0)) ''NATS_SETUP_BACKOFF_SECONDS''
          (nats_setup_backoff_seconds d)) (\<lambda>backoff.
      Option.bind (env_field src (fp_int P) at_least_one ''NATS_CONSUMER_FETCH_BATCH_SIZE''
          (nats_consumer_fetch_batch_size d)) (\<lambda>batch.
      Option.bind (env_field src (fp_float P) (\<lambda>r. \<not> float_le r (Finite 0)) ''NATS_CONSUMER_FETCH_TIMEOUT_SECONDS''
          (nats_consumer_fetch_timeout_seconds d)) (\<lambda>timeout.
        Some \<lparr>nats_servers_raw = servers, nats_stream_site_events = site_events,
              nats_stream_notification_commands = commands,
              nats_consumer_notification_commands_send_vk = durable,
              nats_subject_notification_commands_send_vk = subject,
              nats_subjects_notification_commands_raw = subjects,
              nats_consumer_ack_wait_seconds = ack_wait, nats_consumer_max_deliver = max_deliver,
              nats_error_report_after_attempts = report_after, nats_setup_max_attempts = attempts,
              nats_setup_backoff_seconds = backoff, nats_consumer_fetch_batch_size = batch,
              nats_consumer_fetch_timeout_seconds = timeout\<rparr>))))))))))))))"

definition load_nats_settings :: "ucd \<Rightarrow> field_parsers \<Rightarrow> env_items \<Rightarrow> ('w, nats_settings) prog" where
  "load_nats_settings u P environ = from_fields (nats_fields P (settings_source u environ))"

definition load_celery_settings :: "ucd \<Rightarrow> env_items \<Rightarrow> ('w, celery_settings) prog" where
  "load_celery_settings u environ =
     (let src = settings_source u environ in
      from_fields
       (Option.bind (str_field src ''CELERY_APP_MAIN'' (celery_app_main default_celery_settings)) (\<lambda>name.
        Option.bind (str_field src ''CELERY_APP_BROKER'' (celery_app_broker default_celery_settings)) (\<lambda>broker.
        Option.bind (str_field src ''CELERY_APP_BACKEND'' (celery_app_backend default_celery_settings)) (\<lambda>backend.
          Some \<lparr>celery_app_main = name, celery_app_broker = broker, celery_app_backend = backend\<rparr>)))))"

definition parse_group_id :: "ucd \<Rightarrow> field_parsers \<Rightarrow> pystr \<Rightarrow> int option" where
  "parse_group_id u P raw =
     (case treat_placeholder_group_id_as_unset u (EnvStr raw) of EnvInt i \<Rightarrow> Some i | EnvStr s \<Rightarrow> fp_int P s)"

definition vk_fields :: "ucd \<Rightarrow> field_parsers \<Rightarrow> env_source \<Rightarrow> vk_settings option" where
  "vk_fields u P src =
     (let d = default_vk_settings in
      Option.bind (str_field src ''VK_GROUP_TOKEN'' (vk_group_token d)) (\<lambda>token.
      Option.bind (env_field src (parse_group_id u P) (\<lambda>_. True) ''VK_GROUP_ID'' (vk_group_id d)) (\<lambda>group_id.
      Option.bind (str_field src ''VK_GROUP_SCREEN_NAME'' (vk_group_screen_name d)) (\<lambda>screen_name.
      Option.bind (str_field src ''VK_API_VERSION'' (vk_api_version d)) (\<lambda>version.
      Option.bind (str_field src ''VK_BOT_LINK_COMMAND'' (vk_bot_link_command d)) (\<lambda>link_command.
      Option.bind (env_field src (fp_int P) at_least_one ''VK_CONFIRMATION_TTL_MINUTES''
          (vk_confirmation_ttl_minutes d)) (\<lambda>ttl.
      Option.bind (env_field src (fp_int P) (\<lambda>i. 4 \<le> i \<and> i \<le> 16) ''VK_CONFIRMATION_CODE_LENGTH''
          (vk_confirmation_code_length d)) (\<lambda>code_length.
      Option.bind (env_field src (fp_int P) at_least_one ''VK_CONFIRMATION_MAX_ATTEMPTS''
          (vk_confirmation_max_attempts d)) (\<lambda>max_attempts.
      Option.bind (env_field src (fp_int P) at_least_one ''VK_CONFIRMATION_ATTEMPT_WINDOW_MINUTES''
          (vk_confirmation_attempt_window_minutes d)) (\<lambda>window.
      Option.bind (env_field src (fp_int P) (\<lambda>i. 1 \<le> i \<and> i \<le> 90) ''VK_LONGPOLL_WAIT_SECONDS''
          (vk_longpoll_wait_seconds d)) (\<lambda>wait.
        Some \<lparr>vk_group_token = token, vk_group_id = group_id, vk_group_screen_name = screen_name,
              vk_api_version = version, vk_bot_link_command = link_command, vk_confirmation_ttl_minutes = ttl,
              vk_confirmation_code_length = code_length, vk_confirmation_max_attempts = max_attempts,
              vk_confirmation_attempt_window_minutes = window, vk_longpoll_wait_seconds = wait\<rparr>)))))))))))"

definition load_vk_settings ::
    "ucd \<Rightarrow> field_parsers \<Rightarrow> env_items \<Rightarrow> env_items \<Rightarrow> ('w, vk_settings) prog" where
  "load_vk_settings u P environ dotenv = from_fields (vk_fields u P (env_then_file u environ dotenv))"

definition load_main_backend_settings :: "ucd \<Rightarrow> env_items \<Rightarrow> env_items \<Rightarrow> ('w, main_backend_settings) prog" where
  "load_main_backend_settings u environ dotenv =
     (let src = env_then_file u environ dotenv in
      from_fields
       (Option.bind (str_field src ''MAIN_BACKEND_URL'' (main_backend_url default_main_backend_settings)) (\<lambda>url.
        Option.bind (str_field src ''MAIN_BACKEND_SERVICE_KEY'' (main_backend_service_key default_main_backend_settings)) (\<lambda>key.
          Some \<lparr>main_backend_url = url, main_backend_service_key = key\<rparr>))))"

section \<open>The module\<close>

record all_settings =
  as_settings :: app_settings
  as_sentry :: sentry_settings
  as_nats :: nats_settings
  as_celery :: celery_settings
  as_vk :: vk_settings
  as_main_backend :: main_backend_settings

definition settings_module :: "ucd \<Rightarrow> field_parsers \<Rightarrow> env_items \<Rightarrow> env_items \<Rightarrow> ('w, all_settings) prog" where
  "settings_module u P environ dotenv =
     bindM (load_settings u P environ dotenv) (\<lambda>settings.
     bindM (load_sentry_settings u P environ dotenv) (\<lambda>sentry_settings.
     bindM (load_nats_settings u P environ) (\<lambda>nats_settings.
     bindM (load_celery_settings u environ) (\<lambda>celery_settings.
     bindM (load_vk_settings u P environ dotenv) (\<lambda>vk_settings.
     bindM (load_main_backend_settings u environ dotenv) (\<lambda>main_backend_settings.
       retM \<lparr>as_settings = settings, as_sentry = sentry_settings, as_nats = nats_settings,
             as_celery = celery_settings, as_vk = vk_settings, as_main_backend = main_backend_settings\<rparr>))))))"

section \<open>What was loaded\<close>

lemma env_field_ok: "env_field src parse ok alias dflt = Some x \<Longrightarrow> ok dflt \<Longrightarrow> ok x"
  by (auto simp: env_field_def split: option.splits if_splits)

lemma from_fields_Inr: "from_fields x w = (Inr s, w') \<longleftrightarrow> x = Some s \<and> w' = w"
  by (auto simp: from_fields_def prog_simps split: option.split)

lemma bindM_Inr: "bindM m f w = (Inr y, w') \<longleftrightarrow> (\<exists>x v. m w = (Inr x, v) \<and> f x v = (Inr y, w'))"
  by (auto simp: bindM_def split: prod.split sum.split)

lemma validated_Inr: "validated m w = (Inr x, w') \<longleftrightarrow> m w = (Inr x, w')"
  by (auto simp: validated_def prog_simps split: prod.split sum.split)

lemma env_field_bounds:
  "env_field src parse (\<lambda>i. b \<le> i) alias dflt = Some x \<Longrightarrow> b \<le> dflt \<Longrightarrow> b \<le> x"
  "env_field src parse (\<lambda>i. b < i) alias dflt = Some x \<Longrightarrow> b < dflt \<Longrightarrow> b < x"
  "env_field src parse (\<lambda>i. b \<le> i \<and> i \<le> c) alias dflt = Some x \<Longrightarrow> b \<le> dflt \<Longrightarrow> dflt \<le> c \<Longrightarrow> b \<le> x \<and> x \<le> c"
  for b :: "'a :: linorder"
  using env_field_ok [of src parse "\<lambda>i. b \<le> i"] env_field_ok [of src parse "\<lambda>i. b < i"]
    env_field_ok [of src parse "\<lambda>i. b \<le> i \<and> i \<le> c"] by blast+

lemma env_field_float_bounds:
  "env_field src parse (\<lambda>r. \<not> float_less r b) alias dflt = Some x \<Longrightarrow> \<not> float_less dflt b \<Longrightarrow> \<not> float_less x b"
  "env_field src parse (\<lambda>r. \<not> float_le r b) alias dflt = Some x \<Longrightarrow> \<not> float_le dflt b \<Longrightarrow> \<not> float_le x b"
  "env_field src parse (\<lambda>r. \<not> float_less r b \<and> \<not> float_less c r) alias dflt = Some x \<Longrightarrow> \<not> float_less dflt b \<Longrightarrow>
     \<not> float_less c dflt \<Longrightarrow> \<not> float_less x b \<and> \<not> float_less c x"
  using env_field_ok [of src parse "\<lambda>r. \<not> float_less r b"] env_field_ok [of src parse "\<lambda>r. \<not> float_le r b"]
    env_field_ok [of src parse "\<lambda>r. \<not> float_less r b \<and> \<not> float_less c r"] by blast+

lemma nats_fields_valid:
  assumes "nats_fields P src = Some s"
  shows "nats_settings_valid s"
  using assms unfolding nats_fields_def Let_def Option.bind_eq_Some_conv
  by (elim exE conjE) (auto simp: nats_settings_valid_def default_nats_settings_def dest: env_field_bounds env_field_float_bounds)

lemma vk_fields_valid:
  assumes "vk_fields u P src = Some s"
  shows "vk_settings_valid s"
  using assms unfolding vk_fields_def Let_def Option.bind_eq_Some_conv
  by (elim exE conjE) (auto simp: vk_settings_valid_def default_vk_settings_def dest: env_field_bounds)

lemma load_settings_Inr:
  assumes "load_settings u P environ dotenv w = (Inr s, w')"
  shows "w' = w" "py_lower u (app_environment s) = lit ''production'' \<Longrightarrow>
    n \<in> set required_secrets \<Longrightarrow> \<not> is_unsafe u (map_of environ) n"
  using assms
  by (auto simp: load_settings_def bindM_Inr validated_Inr from_fields_Inr validate_production_secrets_def run_simps
      filter_empty_conv Let_def split: if_splits)

lemma load_sentry_settings_Inr:
  assumes "load_sentry_settings u P environ dotenv w = (Inr s, w')"
  shows "w' = w" "sentry_enabled s \<Longrightarrow> sentry_dsn s \<noteq> []"
    "\<not> float_less (sentry_traces_sample_rate s) (Finite 0)" "\<not> float_less (Finite 1) (sentry_traces_sample_rate s)"
  using assms
  by (auto simp: load_sentry_settings_def bindM_Inr validated_Inr from_fields_Inr validate_sentry_configuration_def
      run_simps Let_def sentry_fields_def Option.bind_eq_Some_conv split: if_splits dest!: env_field_float_bounds)

text \<open>
  C36. The settings a process runs with are within their bounds, whatever the environment and the file
  say: those of the confirmation codes, of the long poll and of the broker, and a DSN when Sentry is
  enabled; in production every required secret of the environment is safe.  A placeholder for the
  group id leaves the group not configured.  Of the three floats this holds as the settings library
  checks it, by looking for a number out of bounds: each is within its bound or is \<open>nan\<close>, and the two
  without an upper bound may be infinite.
\<close>

theorem loaded_settings_in_bounds:
  assumes "settings_module u P environ dotenv w = (Inr a, w')"
  shows "w' = w \<and> vk_settings_valid (as_vk a) \<and> nats_settings_valid (as_nats a) \<and>
    (sentry_traces_sample_rate (as_sentry a) = Not_A_Number \<or>
     (\<exists>q. sentry_traces_sample_rate (as_sentry a) = Finite q \<and> 0 \<le> q \<and> q \<le> 1)) \<and>
    (nats_setup_backoff_seconds (as_nats a) \<in> {Not_A_Number, Plus_Infinity} \<or>
     (\<exists>q. nats_setup_backoff_seconds (as_nats a) = Finite q \<and> 0 \<le> q)) \<and>
    (nats_consumer_fetch_timeout_seconds (as_nats a) \<in> {Not_A_Number, Plus_Infinity} \<or>
     (\<exists>q. nats_consumer_fetch_timeout_seconds (as_nats a) = Finite q \<and> 0 < q)) \<and>
    (sentry_enabled (as_sentry a) \<longrightarrow> sentry_dsn (as_sentry a) \<noteq> []) \<and>
    (py_lower u (app_environment (as_settings a)) = lit ''production'' \<longrightarrow>
       (\<forall>n \<in> set required_secrets. \<not> is_unsafe u (map_of environ) n)) \<and>
    (\<forall>raw. env_then_file u environ dotenv (lit ''VK_GROUP_ID'') = Some raw \<and>
       \<not> py_isdigit u (py_lstrip (\<lambda>c. c = 45) (py_strip raw)) \<longrightarrow> \<not> is_group_configured (as_vk a))"
proof -
  from assms obtain s w1 se w2 n w3 c w4 v w5 m w6 where
    l0: "load_settings u P environ dotenv w = (Inr s, w1)" "load_sentry_settings u P environ dotenv w1 = (Inr se, w2)"
      "load_nats_settings u P environ w2 = (Inr n, w3)" "load_celery_settings u environ w3 = (Inr c, w4)"
      "load_vk_settings u P environ dotenv w4 = (Inr v, w5)" "load_main_backend_settings u environ dotenv w5 = (Inr m, w6)"
    and r: "retM \<lparr>as_settings = s, as_sentry = se, as_nats = n, as_celery = c, as_vk = v, as_main_backend = m\<rparr> w6 = (Inr a, w')"
    unfolding settings_module_def bindM_Inr by blast
  have w: "w1 = w" "w2 = w1" "w3 = w2" "w4 = w3" "w5 = w4" "w6 = w5"
    using load_settings_Inr(1) [OF l0(1)] load_sentry_settings_Inr(1) [OF l0(2)] l0(3-6)
    by (simp_all add: load_nats_settings_def load_celery_settings_def load_vk_settings_def
        load_main_backend_settings_def from_fields_Inr Let_def)
  have l: "load_settings u P environ dotenv w = (Inr s, w)" "load_sentry_settings u P environ dotenv w = (Inr se, w)"
      "nats_fields P (settings_source u environ) = Some n" "vk_fields u P (env_then_file u environ dotenv) = Some v"
    using l0 w by (simp_all add: load_nats_settings_def load_vk_settings_def from_fields_Inr)
  have a: "a = \<lparr>as_settings = s, as_sentry = se, as_nats = n, as_celery = c, as_vk = v, as_main_backend = m\<rparr>"
    and w': "w' = w" using r w by (simp_all add: run_simps)
  have "\<not> is_group_configured v"
    if "env_then_file u environ dotenv (lit ''VK_GROUP_ID'') = Some raw" "\<not> py_isdigit u (py_lstrip (\<lambda>c. c = 45) (py_strip raw))"
    for raw
    using l(4) that
    by (auto simp: vk_fields_def Let_def Option.bind_eq_Some_conv env_field_def parse_group_id_def
        treat_placeholder_group_id_as_unset_def is_group_configured_def)
  moreover have "sentry_traces_sample_rate se = Not_A_Number \<or>
      (\<exists>q. sentry_traces_sample_rate se = Finite q \<and> 0 \<le> q \<and> q \<le> 1)"
    using load_sentry_settings_Inr(3,4) [OF l(2)] by (auto simp: not_below_iff)
  moreover have "nats_setup_backoff_seconds n \<in> {Not_A_Number, Plus_Infinity} \<or>
      (\<exists>q. nats_setup_backoff_seconds n = Finite q \<and> 0 \<le> q)"
    "nats_consumer_fetch_timeout_seconds n \<in> {Not_A_Number, Plus_Infinity} \<or>
      (\<exists>q. nats_consumer_fetch_timeout_seconds n = Finite q \<and> 0 < q)"
    using nats_fields_valid [OF l(3)] by (auto simp: nats_settings_valid_def not_below_iff float_le_iff positive_iff)
  ultimately show ?thesis
    using nats_fields_valid [OF l(3)] vk_fields_valid [OF l(4)] load_settings_Inr(2) [OF l(1)] load_sentry_settings_Inr(2) [OF l(2)]
    unfolding a w' by auto
qed

text \<open>The bounds let \<open>nan\<close> pass: a text the library reads as \<open>nan\<close> is taken for a sample rate and for a time-out.\<close>

lemma nan_passes_the_bounds:
  assumes "fp_float P raw = Some Not_A_Number"
  shows "map_option sentry_traces_sample_rate (sentry_fields P [lit ''SENTRY_TRACES_SAMPLE_RATE'' \<mapsto> raw]) = Some Not_A_Number"
    and "map_option nats_consumer_fetch_timeout_seconds
      (nats_fields P [lit ''NATS_CONSUMER_FETCH_TIMEOUT_SECONDS'' \<mapsto> raw]) = Some Not_A_Number"
    and "map_option nats_setup_backoff_seconds
      (nats_fields P [lit ''NATS_SETUP_BACKOFF_SECONDS'' \<mapsto> raw]) = Some Not_A_Number"
  using assms by (simp_all add: sentry_fields_def nats_fields_def env_field_def Let_def default_nats_settings_def)

text \<open>
  C37. A process does not start in production on a placeholder: when the environment lacks a required
  secret, or has it blank, at a published default or with the marker of a template, importing the
  settings fails, with an error that names it if the other fields of the class can be read.  The secret
  counts only under its exact name and in the environment, although the settings themselves are read
  from names in any case and from the \<open>.env\<close> file too.
\<close>

theorem production_process_needs_secrets:
  assumes "env_then_file u environ dotenv (lit ''ENVIRONMENT'') = Some e" "py_lower u e = lit ''production''"
    and "n \<in> set required_secrets"
    and "case map_of environ n of None \<Rightarrow> True
      | Some v \<Rightarrow> \<exists>a b x. py_lower u (py_strip v) = x \<and>
          (x = [] \<or> x = lit ''changeme'' \<or> x = a @ lit ''<set-'' @ b \<or> x = a @ lit ''<generate-'' @ b)"
  shows "\<exists>m. settings_module u P environ dotenv w = (Inl (Exn ValidationError m), w) \<and>
    (settings_fields P (env_then_file u environ dotenv) \<noteq> None \<longrightarrow> py_contains n m)"
proof (cases "settings_fields P (env_then_file u environ dotenv)")
  case None
  then show ?thesis by (simp add: settings_module_def load_settings_def from_fields_def prog_simps)
next
  case (Some s)
  then have "app_environment s = e"
    using assms(1) by (auto simp: settings_fields_def Option.bind_eq_Some_conv env_field_def)
  with production_needs_secrets [where u = u and s = s and w = w and environ = "map_of environ", OF _ assms(3,4)] assms(2)
  obtain m where "validate_production_secrets u (map_of environ) s w = (Inl (Exn ValueError m), w)" "py_contains n m" by blast
  with Some show ?thesis
    by (simp add: settings_module_def load_settings_def from_fields_def validated_def prog_simps)
qed

end
