(* ===== verification/Containers.thy ===== *)
theory Containers
  imports Settings_Load Vk_Api_Object Nats_Client
begin

text \<open>
  \<open>containers/application.py\<close>: the objects of a process and the container that makes them, with their
  constructors (\<open>clients/nats/client.py\<close>, \<open>clients/nats/consumers/\<close>, \<open>clients/nats/handlers/\<close>, the
  engine and the session factory of \<open>utils/database.py\<close>).

  The objects live in a store and refer to each other by address, the position in the store.  A
  \<open>Singleton\<close> provider makes its object, and first the objects it is made of, when it is called for the
  first time, and returns the same one ever after.
\<close>

section \<open>Objects\<close>

record database_engine =
  de_url :: pystr
  de_pool_pre_ping :: bool

record session_factory =
  sf_engine :: database_engine
  sf_expire_on_commit :: bool
  sf_autoflush :: bool

definition engine :: "app_settings \<Rightarrow> database_engine" where
  "engine settings = \<lparr>de_url = database_url settings, de_pool_pre_ping = True\<rparr>"

definition SessionFactory :: "app_settings \<Rightarrow> session_factory" where
  "SessionFactory settings =
     \<lparr>sf_engine = engine settings, sf_expire_on_commit = False, sf_autoflush = False\<rparr>"

record nats_jetstream_client =
  nj_settings :: nats_settings
  nj_connection :: "nats_connection option"
  nj_jetstream :: bool
  nj_error_policy :: connection_error_policy

definition NatsJetstreamClient_init :: "nats_settings \<Rightarrow> nats_jetstream_client" where
  "NatsJetstreamClient_init settings =
     \<lparr>nj_settings = settings, nj_connection = None, nj_jetstream = False,
      nj_error_policy = new_policy service_name (nats_error_report_after_attempts settings)\<rparr>"

type_synonym address = nat

datatype delivery_service_class = VkNotificationDeliveryService_Class

record send_vk_handler =
  hd_session_factory :: session_factory
  hd_messenger :: address
  hd_service_factory :: delivery_service_class

definition NotificationCommandsSendVkHandler_init ::
    "session_factory \<Rightarrow> address \<Rightarrow> delivery_service_class option \<Rightarrow> send_vk_handler" where
  "NotificationCommandsSendVkHandler_init session_factory messenger service_factory =
     \<lparr>hd_session_factory = session_factory, hd_messenger = messenger,
      hd_service_factory = (case service_factory of None \<Rightarrow> VkNotificationDeliveryService_Class | Some f \<Rightarrow> f)\<rparr>"

record send_vk_consumer =
  sc_client :: address
  sc_settings :: nats_settings
  sc_handler :: address
  sc_subscription :: bool
  sc_task :: "consumer_task option"

definition NotificationCommandsSendVkConsumer_init :: "address \<Rightarrow> nats_settings \<Rightarrow> address \<Rightarrow> send_vk_consumer" where
  "NotificationCommandsSendVkConsumer_init client settings handler =
     \<lparr>sc_client = client, sc_settings = settings, sc_handler = handler, sc_subscription = False, sc_task = None\<rparr>"

section \<open>The container\<close>

datatype app_object =
    Nats_Object nats_jetstream_client | Celery_Object celery_app | Messenger_Object vkbottle_messenger
  | Handler_Object send_vk_handler | Consumer_Object send_vk_consumer

datatype provider =
    P_Nats_Client | P_Celery_App | P_Vk_Messenger | P_Vk_Notification_Handler | P_Vk_Notification_Consumer

record container =
  ct_objects :: "app_object list"
  ct_instances :: "provider \<rightharpoonup> address"

definition new_container :: container where
  "new_container = \<lparr>ct_objects = [], ct_instances = Map.empty\<rparr>"

definition new_object :: "app_object \<Rightarrow> (container, address) prog" where
  "new_object obj = (\<lambda>c. (Inr (length (ct_objects c)), c\<lparr>ct_objects := ct_objects c @ [obj]\<rparr>))"

definition singleton :: "provider \<Rightarrow> (container, app_object) prog \<Rightarrow> (container, address) prog" where
  "singleton p build =
     bindM (getsM (\<lambda>c. ct_instances c p)) (\<lambda>instance.
       case instance of
         Some a \<Rightarrow> retM a
       | None \<Rightarrow>
           bindM build (\<lambda>obj.
           bindM (new_object obj) (\<lambda>a.
           thenM (modifyM (\<lambda>c. c\<lparr>ct_instances := (ct_instances c)(p \<mapsto> a)\<rparr>)) (retM a))))"

definition container_nats_client :: "all_settings \<Rightarrow> (container, address) prog" where
  "container_nats_client S = singleton P_Nats_Client (retM (Nats_Object (NatsJetstreamClient_init (as_nats S))))"

definition container_celery_app :: "all_settings \<Rightarrow> (container, address) prog" where
  "container_celery_app S = singleton P_Celery_App (retM (Celery_Object (make_celery_app (as_celery S))))"

definition container_vk_messenger :: "all_settings \<Rightarrow> (container, address) prog" where
  "container_vk_messenger S =
     singleton P_Vk_Messenger (retM (Messenger_Object (VkbottleMessenger_init (as_vk S) None)))"

definition container_vk_notification_handler :: "all_settings \<Rightarrow> (container, address) prog" where
  "container_vk_notification_handler S =
     singleton P_Vk_Notification_Handler
       (bindM (container_vk_messenger S) (\<lambda>messenger.
          retM (Handler_Object
            (NotificationCommandsSendVkHandler_init (SessionFactory (as_settings S)) messenger None))))"

definition container_vk_notification_consumer :: "all_settings \<Rightarrow> (container, address) prog" where
  "container_vk_notification_consumer S =
     singleton P_Vk_Notification_Consumer
       (bindM (container_nats_client S) (\<lambda>client.
        bindM (container_vk_notification_handler S) (\<lambda>handler.
          retM (Consumer_Object (NotificationCommandsSendVkConsumer_init client (as_nats S) handler)))))"

fun provide :: "all_settings \<Rightarrow> provider \<Rightarrow> (container, address) prog" where
  "provide S P_Nats_Client = container_nats_client S"
| "provide S P_Celery_App = container_celery_app S"
| "provide S P_Vk_Messenger = container_vk_messenger S"
| "provide S P_Vk_Notification_Handler = container_vk_notification_handler S"
| "provide S P_Vk_Notification_Consumer = container_vk_notification_consumer S"

fun provide_all :: "all_settings \<Rightarrow> provider list \<Rightarrow> (container, address list) prog" where
  "provide_all S [] = retM []"
| "provide_all S (p # ps) = bindM (provide S p) (\<lambda>a. bindM (provide_all S ps) (\<lambda>as. retM (a # as)))"

section \<open>One object for each provider\<close>

text \<open>What a provider is made of, and the object it makes where those are at \<open>inst\<close>.\<close>

fun made_of :: "provider \<Rightarrow> provider set" where
  "made_of P_Vk_Notification_Handler = {P_Vk_Messenger}"
| "made_of P_Vk_Notification_Consumer = {P_Nats_Client, P_Vk_Notification_Handler}"
| "made_of _ = {}"

fun object_of :: "all_settings \<Rightarrow> (provider \<rightharpoonup> address) \<Rightarrow> provider \<Rightarrow> app_object" where
  "object_of S inst P_Nats_Client = Nats_Object (NatsJetstreamClient_init (as_nats S))"
| "object_of S inst P_Celery_App = Celery_Object (make_celery_app (as_celery S))"
| "object_of S inst P_Vk_Messenger = Messenger_Object (VkbottleMessenger_init (as_vk S) None)"
| "object_of S inst P_Vk_Notification_Handler =
     Handler_Object (NotificationCommandsSendVkHandler_init (SessionFactory (as_settings S)) (the (inst P_Vk_Messenger)) None)"
| "object_of S inst P_Vk_Notification_Consumer =
     Consumer_Object (NotificationCommandsSendVkConsumer_init (the (inst P_Nats_Client)) (as_nats S)
       (the (inst P_Vk_Notification_Handler)))"

text \<open>
  The objects are those of the providers, one each; an object is made after those it is made of.
\<close>

definition wired :: "all_settings \<Rightarrow> container \<Rightarrow> bool" where
  "wired S c \<longleftrightarrow>
     inj_on (ct_instances c) (dom (ct_instances c)) \<and>
     ran (ct_instances c) = {..<length (ct_objects c)} \<and>
     (\<forall>p a. ct_instances c p = Some a \<longrightarrow>
        ct_objects c ! a = object_of S (ct_instances c) p \<and>
        (\<forall>q \<in> made_of p. \<exists>b. ct_instances c q = Some b \<and> b < a))"

fun level :: "provider \<Rightarrow> nat" where
  "level P_Vk_Notification_Consumer = 2"
| "level P_Vk_Notification_Handler = 1"
| "level _ = 0"

text \<open>
  A call that keeps what there is, makes nothing of a higher level and returns where the object of \<open>p\<close> is.
\<close>

definition grows :: "nat \<Rightarrow> container \<Rightarrow> container \<Rightarrow> bool" where
  "grows n c c' \<longleftrightarrow>
     ct_instances c \<subseteq>\<^sub>m ct_instances c' \<and> (\<forall>q. n < level q \<longrightarrow> ct_instances c' q = ct_instances c q)"

definition provides :: "all_settings \<Rightarrow> provider \<Rightarrow> (container, address) prog \<Rightarrow> bool" where
  "provides S p m \<longleftrightarrow>
     (\<forall>c. wired S c \<longrightarrow>
        (\<exists>a c'. m c = (Inr a, c') \<and> wired S c' \<and> ct_instances c' p = Some a \<and> grows (level p) c c'))"

lemma providesE:
  assumes "provides S p m" "wired S c"
  obtains a c' where "m c = (Inr a, c')" "wired S c'" "ct_instances c' p = Some a" "grows (level p) c c'"
  using assms unfolding provides_def by blast

lemma grows_refl: "grows n c c"
  by (simp add: grows_def)

lemma grows_trans: "grows m a b \<Longrightarrow> grows n b c \<Longrightarrow> m \<le> k \<Longrightarrow> n \<le> k \<Longrightarrow> grows k a c"
  by (auto simp: grows_def intro: map_le_trans)

lemma growsD: "grows n c c' \<Longrightarrow> ct_instances c q = Some a \<Longrightarrow> ct_instances c' q = Some a"
  by (metis domI grows_def map_le_def)

lemma wired_new: "wired S new_container"
  by (simp add: wired_def new_container_def)

lemma object_of_update:
  "ct_instances c p = None \<Longrightarrow> wired S c \<Longrightarrow> ct_instances c q = Some a \<Longrightarrow>
     object_of S ((ct_instances c)(p \<mapsto> b)) q = object_of S (ct_instances c) q"
  by (cases q) (fastforce simp: wired_def)+

text \<open>Adding the object of a provider that has none yet.\<close>

lemma wired_add:
  assumes "wired S c" "ct_instances c p = None" "made_of p \<subseteq> dom (ct_instances c)"
    and "obj = object_of S (ct_instances c) p"
  shows "wired S (c\<lparr>ct_objects := ct_objects c @ [obj], ct_instances := (ct_instances c)(p \<mapsto> length (ct_objects c))\<rparr>)"
proof -
  have below: "a < length (ct_objects c)" if "ct_instances c q = Some a" for q a
    using that assms(1) by (auto simp: wired_def ran_def)
  have not_self: "p \<notin> made_of p" by (cases p) simp_all
  have self: "object_of S ((ct_instances c)(p \<mapsto> length (ct_objects c))) p = object_of S (ct_instances c) p"
    by (cases p) simp_all
  have "inj_on ((ct_instances c)(p \<mapsto> length (ct_objects c))) (insert p (dom (ct_instances c)))"
    using assms(1,2) below by (fastforce simp: wired_def inj_on_def dom_def)
  moreover have "ran ((ct_instances c)(p \<mapsto> length (ct_objects c))) = {..<Suc (length (ct_objects c))}"
    using assms(1,2) by (auto simp: wired_def)
  moreover have "\<exists>b. ((ct_instances c)(p \<mapsto> length (ct_objects c))) q = Some b \<and> b < a"
    if "((ct_instances c)(p \<mapsto> length (ct_objects c))) r = Some a" "q \<in> made_of r" for r a q
  proof (cases "r = p")
    case True
    with that have a: "a = length (ct_objects c)" "q \<noteq> p" using not_self by auto
    from that(2) True assms(3) obtain b where "ct_instances c q = Some b" by blast
    with below a show ?thesis by auto
  next
    case False
    with that assms(1) obtain b where "ct_instances c q = Some b" "b < a" by (fastforce simp: wired_def)
    moreover from this assms(2) have "q \<noteq> p" by auto
    ultimately show ?thesis by auto
  qed
  moreover have "(ct_objects c @ [obj]) ! a = object_of S ((ct_instances c)(p \<mapsto> length (ct_objects c))) r"
    if r: "((ct_instances c)(p \<mapsto> length (ct_objects c))) r = Some a" for r a
  proof (cases "r = p")
    case True
    with r assms(4) self show ?thesis by (auto simp: nth_append)
  next
    case False
    with r have i: "ct_instances c r = Some a" by simp
    with assms(1) have "ct_objects c ! a = object_of S (ct_instances c) r" by (simp add: wired_def)
    with object_of_update [OF assms(2,1) i] below [OF i] show ?thesis by (simp add: nth_append)
  qed
  ultimately show ?thesis unfolding wired_def by simp
qed

lemma singleton_provides:
  assumes "\<And>c. wired S c \<Longrightarrow> \<exists>c'. build c = (Inr (object_of S (ct_instances c') p), c') \<and> wired S c' \<and>
      made_of p \<subseteq> dom (ct_instances c') \<and> grows (level p) c c' \<and> ct_instances c' p = ct_instances c p"
  shows "provides S p (singleton p build)"
  unfolding provides_def
proof (intro allI impI)
  fix c assume c: "wired S c"
  show "\<exists>a c'. singleton p build c = (Inr a, c') \<and> wired S c' \<and> ct_instances c' p = Some a \<and> grows (level p) c c'"
  proof (cases "ct_instances c p")
    case (Some a)
    then show ?thesis using c by (auto simp: singleton_def prog_simps grows_refl)
  next
    case None
    from assms [OF c] obtain v where v: "build c = (Inr (object_of S (ct_instances v) p), v)" "wired S v"
      "made_of p \<subseteq> dom (ct_instances v)" "grows (level p) c v" "ct_instances v p = None" using None by auto
    let ?v = "v\<lparr>ct_objects := ct_objects v @ [object_of S (ct_instances v) p],
      ct_instances := (ct_instances v)(p \<mapsto> length (ct_objects v))\<rparr>"
    have "singleton p build c = (Inr (length (ct_objects v)), ?v)"
      using None v(1) by (simp add: singleton_def new_object_def prog_simps)
    moreover have "grows (level p) v ?v" using v(5) by (auto simp: grows_def map_le_def)
    then have "grows (level p) c ?v" by (rule grows_trans [OF v(4)]) simp_all
    ultimately show ?thesis using wired_add [OF v(2,5,3) refl] by auto
  qed
qed

lemma provide_provides: "provides S p (provide S p)"
proof -
  have leaf: "provides S q (singleton q (retM obj))" if "made_of q = {}" "\<And>i. object_of S i q = obj" for q obj
    by (rule singleton_provides) (simp add: that prog_simps grows_refl)
  have client: "provides S P_Nats_Client (container_nats_client S)"
    unfolding container_nats_client_def by (rule leaf) simp_all
  have messenger: "provides S P_Vk_Messenger (container_vk_messenger S)"
    unfolding container_vk_messenger_def by (rule leaf) simp_all
  have handler: "provides S P_Vk_Notification_Handler (container_vk_notification_handler S)"
    unfolding container_vk_notification_handler_def
  proof (rule singleton_provides)
    fix c assume c: "wired S c"
    obtain a v where v: "container_vk_messenger S c = (Inr a, v)" "wired S v" "ct_instances v P_Vk_Messenger = Some a"
      "grows (level P_Vk_Messenger) c v" by (rule providesE [OF messenger c])
    then show "\<exists>v. bindM (container_vk_messenger S) (\<lambda>m. retM (Handler_Object
          (NotificationCommandsSendVkHandler_init (SessionFactory (as_settings S)) m None))) c =
        (Inr (object_of S (ct_instances v) P_Vk_Notification_Handler), v) \<and> wired S v \<and>
        made_of P_Vk_Notification_Handler \<subseteq> dom (ct_instances v) \<and> grows (level P_Vk_Notification_Handler) c v \<and>
        ct_instances v P_Vk_Notification_Handler = ct_instances c P_Vk_Notification_Handler"
      by (intro exI [of _ v]) (auto simp: prog_simps grows_def)
  qed
  have consumer: "provides S P_Vk_Notification_Consumer (container_vk_notification_consumer S)"
    unfolding container_vk_notification_consumer_def
  proof (rule singleton_provides)
    fix c assume c: "wired S c"
    obtain a v where v: "container_nats_client S c = (Inr a, v)" "wired S v" "ct_instances v P_Nats_Client = Some a"
      "grows (level P_Nats_Client) c v" by (rule providesE [OF client c])
    obtain b x where x: "container_vk_notification_handler S v = (Inr b, x)" "wired S x"
      "ct_instances x P_Vk_Notification_Handler = Some b" "grows (level P_Vk_Notification_Handler) v x"
      by (rule providesE [OF handler v(2)])
    have nats: "ct_instances x P_Nats_Client = Some a" using growsD [OF x(4) v(3)] .
    have two: "grows 2 c x" by (rule grows_trans [OF v(4) x(4)]) simp_all
    have "ct_instances x P_Vk_Notification_Consumer = ct_instances v P_Vk_Notification_Consumer"
      "ct_instances v P_Vk_Notification_Consumer = ct_instances c P_Vk_Notification_Consumer"
      using v(4) x(4) by (simp_all add: grows_def)
    then have same: "ct_instances x P_Vk_Notification_Consumer = ct_instances c P_Vk_Notification_Consumer" by simp
    have run: "bindM (container_nats_client S) (\<lambda>k. bindM (container_vk_notification_handler S) (\<lambda>h.
          retM (Consumer_Object (NotificationCommandsSendVkConsumer_init k (as_nats S) h)))) c =
        (Inr (object_of S (ct_instances x) P_Vk_Notification_Consumer), x)"
      by (simp add: bindM_run v(1) x(1) run_simps nats x(3))
    show "\<exists>x. bindM (container_nats_client S) (\<lambda>k. bindM (container_vk_notification_handler S) (\<lambda>h.
          retM (Consumer_Object (NotificationCommandsSendVkConsumer_init k (as_nats S) h)))) c =
        (Inr (object_of S (ct_instances x) P_Vk_Notification_Consumer), x) \<and> wired S x \<and>
        made_of P_Vk_Notification_Consumer \<subseteq> dom (ct_instances x) \<and> grows (level P_Vk_Notification_Consumer) c x \<and>
        ct_instances x P_Vk_Notification_Consumer = ct_instances c P_Vk_Notification_Consumer"
      by (rule exI [of _ x]) (simp add: run x(2) two same domI nats x(3))
  qed
  show ?thesis
  proof (cases p)
    case P_Celery_App
    then show ?thesis unfolding provide.simps container_celery_app_def by (simp add: leaf container_celery_app_def)
  qed (use client messenger handler consumer in simp_all)
qed

text \<open>
  C23. However often and in whatever order the providers of the container are called, each returns one and
  the same object and no two share one; there are no other objects.  The consumer is made of the very
  client, with the settings of the process, that the process connects and closes, and of the handler
  over the messenger of the container.
\<close>

theorem container_shares_singletons:
  "\<exists>c. provide_all S ps new_container = (Inr (map (the \<circ> ct_instances c) ps), c) \<and> wired S c \<and>
     set ps \<subseteq> dom (ct_instances c) \<and> length (ct_objects c) \<le> 5"
proof -
  have all: "\<exists>c'. provide_all S ps c = (Inr (map (the \<circ> ct_instances c') ps), c') \<and> wired S c' \<and>
      set ps \<subseteq> dom (ct_instances c') \<and> ct_instances c \<subseteq>\<^sub>m ct_instances c'" if "wired S c" for c
    using that
  proof (induction ps arbitrary: c)
    case (Cons p ps)
    from providesE [OF provide_provides Cons.prems, of p] obtain a v where
      v: "provide S p c = (Inr a, v)" "wired S v" "ct_instances v p = Some a" "grows (level p) c v" by metis
    from Cons.IH [OF v(2)] obtain c' where
      c': "provide_all S ps v = (Inr (map (the \<circ> ct_instances c') ps), c')" "wired S c'"
        "set ps \<subseteq> dom (ct_instances c')" "ct_instances v \<subseteq>\<^sub>m ct_instances c'" by blast
    have "ct_instances c' p = Some a" using c'(4) v(3) by (metis domI map_le_def)
    moreover have "ct_instances c \<subseteq>\<^sub>m ct_instances c'"
      using v(4) c'(4) by (auto simp: grows_def intro: map_le_trans)
    ultimately show ?case using v(1) c'(1-3) by (intro exI [of _ c']) (auto simp: prog_simps)
  qed (auto simp: prog_simps)
  have five: "length (ct_objects c) \<le> 5" if "wired S c" for c
  proof -
    have univ: "UNIV = {P_Nats_Client, P_Celery_App, P_Vk_Messenger, P_Vk_Notification_Handler, P_Vk_Notification_Consumer}"
      using provider.exhaust by auto
    have fin: "finite (UNIV :: provider set)" unfolding univ by simp
    have "ran (ct_instances c) \<subseteq> (the \<circ> ct_instances c) ` UNIV"
    proof
      fix a assume "a \<in> ran (ct_instances c)"
      then obtain p where "ct_instances c p = Some a" by (auto simp: ran_def)
      then show "a \<in> (the \<circ> ct_instances c) ` UNIV" by (intro image_eqI [of _ _ p]) simp_all
    qed
    then have "card (ran (ct_instances c)) \<le> card ((the \<circ> ct_instances c) ` UNIV)"
      using fin by (intro card_mono) simp_all
    also have "\<dots> \<le> card (UNIV :: provider set)" by (rule card_image_le [OF fin])
    also have "\<dots> = 5" unfolding univ by simp
    also have "ran (ct_instances c) = {..<length (ct_objects c)}" using that by (simp add: wired_def)
    finally show ?thesis by simp
  qed
  from all [OF wired_new] obtain c where
    "provide_all S ps new_container = (Inr (map (the \<circ> ct_instances c) ps), c)" "wired S c"
    "set ps \<subseteq> dom (ct_instances c)" by blast
  with five show ?thesis by blast
qed

end
