(* ===== verification/Spec2Isabelle.thy ===== *)
theory Spec2Isabelle
  imports Command_Service Sample_Flows Main_Backend Celery_Probe Sample_Processes Sample_Startup
begin

text \<open>
  A verification library for the VK service of EqSiteCMS (Python, \<open>src/src\<close>): the service that links
  VK accounts to the users of the site and delivers notifications to them.

  \<^bold>\<open>The program.\<close>  Four tables (\<open>models/\<close>) hold the bindings of users to VK accounts, the confirmation
  codes, the journal and the ledger of deliveries.  Three processes work on them.  The HTTP API
  (\<open>main.py\<close>, \<open>api/\<close>) creates bindings, issues codes, reads and deletes bindings, one transaction a
  request.  The bot (\<open>bot/\<close>) receives the events of the long poll: a message with a code confirms a
  binding, \<open>message_deny\<close> and \<open>message_allow\<close> block and unblock it.  The consumer (\<open>clients/nats/\<close>)
  fetches notification commands from JetStream and hands each to the handler, which delivers it to
  every recipient with an \<open>ACTIVE\<close> binding and keeps the ledger, so that a redelivered command is not
  sent twice.  The three meet only in the committed tables and in the calls of the VK API.  Beside them stand the
  migrations that create the tables, a Celery worker with one probe task, a client of the main
  backend nobody calls yet, and the smoke harness (\<open>smoke_harness/\<close>), a program that sends one command
  through the real consumer, handler and ledger with a scripted messenger in place of the VK API.

  \<^bold>\<open>The model.\<close>  A coroutine is a \<open>prog\<close> (theory \<open>Program\<close>): a function from the state of the world to a
  result or an exception and the state after it.  \<open>world\<close> (theory \<open>Database\<close>) has the tables as the
  session sees them (\<open>db\<close>) and as committed (\<open>committed\<close>), the advisory locks, the calls made of the
  VK API (\<open>outbox\<close>), and, as functions of a counter, everything read from outside: clocks, random
  numbers, new identifiers and the answers of the VK API.  \<open>nats_world\<close> extends it with the broker,
  \<open>lifespan_world\<close> with the state of the HTTP process, \<open>smoke_world\<close> and \<open>harness_world\<close> with those of the
  scripted messenger and of the harness.
  \<open>migration_world\<close> is that of a migration, \<open>container\<close> the objects of a process.
  Protocols of the source are records of operations (\<open>Protocols\<close>), and what their callers rely on are
  locales, interpreted on the SQL repositories, the messenger and the handler.

  \<^bold>\<open>Theories and sources.\<close>
  \<^item> \<open>Prelude\<close>, \<open>Py_Uuid\<close>, \<open>Py_Uuid5\<close>: strings, lists and dictionaries of Python, \<open>uuid.UUID\<close> from and
    to text, \<open>uuid5\<close> with SHA-1; \<open>core/schemas/messaging/command_identity.py\<close>.
  \<^item> \<open>Py_Float\<close>: the floats of the settings, with \<open>nan\<close> and the infinities, their comparisons and products.
  \<^item> \<open>Program\<close>: exceptions (\<open>core/exceptions/base.py\<close>), programs and their weakest preconditions.
  \<^item> \<open>Messages\<close>: the texts the services and the bot write (\<open>bot/replies.py\<close> among them).
  \<^item> \<open>Database\<close>: \<open>models/\<close>, with the declared keys, unique indexes, checks and column types.
  \<^item> \<open>Protocols\<close>: \<open>repositories/protocols.py\<close>, \<open>core/protocols/vk/messenger.py\<close> and their contracts.
  \<^item> \<open>User_Vk_Repository\<close>, \<open>Vk_Confirmation_Repository\<close>, \<open>Vk_Log_Repository\<close>,
    \<open>Vk_Delivery_Repository\<close>: \<open>repositories/\<close>, statement by statement.
  \<^item> \<open>Vk_Code\<close>: \<open>core/services/vk_code.py\<close>; \<open>Domain_Invariant\<close>: the invariant \<open>domain_ok\<close>.
  \<^item> \<open>Vk_Client\<close>, \<open>Vk_Api_Object\<close>: \<open>clients/vk/client.py\<close>, what the messenger does and the objects it is made of.
  \<^item> \<open>Binding_Service\<close>, \<open>Confirmation_Service\<close>, \<open>State_Service\<close>, \<open>Delivery_Service\<close>: \<open>core/services/\<close>.
  \<^item> \<open>Settings\<close>, \<open>Settings_Load\<close>: \<open>settings.py\<close>, the classes and the objects the module makes from the
    environment and the \<open>.env\<close> file; \<open>Sessions\<close>: \<open>utils/database.py\<close>.
  \<^item> \<open>Containers\<close>: \<open>containers/\<close>, the store of the objects of a process and the providers that make them.
  \<^item> \<open>Vks_Api\<close>: \<open>api/\<close> and the routes and exception handlers of \<open>main.py\<close>.
  \<^item> \<open>Bot_Handlers\<close>, \<open>Bot_Main\<close>: \<open>bot/handlers.py\<close>, \<open>bot/main.py\<close>.
  \<^item> \<open>Notification_Handler\<close>, \<open>Nats_Lifecycle\<close>, \<open>Nats_Client\<close>, \<open>Notification_Consumer\<close>,
    \<open>Command_Service\<close>: \<open>clients/nats/\<close> and the command consumer over the real handler.
  \<^item> \<open>Lifespan\<close>: \<open>lifespan\<close> of \<open>main.py\<close>, \<open>utils/observability.py\<close>; \<open>Sentry_Filter\<close>: \<open>utils/configure_sentry.py\<close>;
    \<open>Main_Backend\<close>: \<open>clients/main_backend/\<close>; \<open>Celery_Probe\<close>: \<open>workers/\<close>.
  \<^item> \<open>Schema\<close>, \<open>Schema_Enforced\<close>: the tables of \<open>models/\<close> as declarations, \<open>migration/versions/\<close> as
    operations on a schema, and what a schema admits; \<open>Migration_Env\<close>: \<open>migration/env.py\<close>.
  \<^item> \<open>Smoke_Config\<close>, \<open>Smoke_Messenger\<close>, \<open>Smoke_Runner\<close>: \<open>smoke_harness/\<close>; \<open>Smoke_Delivery\<close>: the command
    handler over the scripted messenger; \<open>Smoke_Exhaustion\<close>: the delivery-failure scenario as a whole.
  \<^item> \<open>Store_Frame\<close>, \<open>Service_Runs\<close>, \<open>Service_Flows\<close>: the service as a whole, a step relation whose
    steps are requests, bot events and commands, and flows across the components.
  \<^item> \<open>Sample\<close>, \<open>Sample_Requests\<close>, \<open>Sample_Commands\<close>, \<open>Sample_Flows\<close>, \<open>Sample_Processes\<close>,
    \<open>Sample_Startup\<close>: concrete worlds at which the
    properties that have hypotheses are applied.

  \<^bold>\<open>What is shown.\<close>  Each repository operation keeps the constraints and does what its contract says,
  on every branch.  \<open>domain_ok\<close> (the constraints, a live binding is \<open>PENDING\<close> exactly when it has no
  account, a usable code is the only one of a live \<open>PENDING\<close> binding) is kept by every operation and
  every run.  Confirming a code refines an abstract verdict.  A delivery writes once to each
  recipient that is due, and what it leaves in the ledger makes redelivery safe; \<open>SENT\<close> is final in
  every run.  A request that answers with an error has no effect.  The consumer settles each message
  as its handling went and outlives failing commands.  Loops end: the search for a free code, the
  registration of the durable consumer (a measure on the attempts left).

  The constraints \<open>db_ok\<close> are those of the schema the migrations make, value by value; the migrations
  make the declared models and are undone by their downgrades.  The script that runs them reaches the
  database of the service, applies the migrations after its revision as a whole or not at all, and is
  stopped by a percent sign in the password.  The settings of a process, read from names in any case,
  are within the bounds the other theories assume, but for \<open>nan\<close>, which passes every bound of a float
  (\<open>nan_passes_the_bounds\<close>), and those of a production process have their secrets.  The
  providers of the container share one object each.  The filter of events lets through exactly what
  its keys allow.  The shutdown of the HTTP process releases what the start acquired,
  with two exceptions stated as theorems.  The scripted messenger interprets the same contract as the
  VK messenger; over it the handler's ledger is determined for any number of deliveries, and the answer
  of the harness's wait is determined for every way the deliveries fall between its polls.  A run of the
  harness deletes its stream, if it made one, and lets its connection and its pool go whatever happened
  in it; the rows of its fixtures, even those it refused, are deleted unless a code references one.

  \<^bold>\<open>Bounds.\<close>  New identifiers are a function of how many were drawn before; \<open>fresh_supply\<close> says that
  the first \<open>uuid_limit\<close> (\<open>2 ^ 64\<close>) of them are new, and \<open>room n w\<close> that \<open>n\<close> are left, so that an
  \<open>INSERT\<close> does not meet a used key.  The endless loop of the consumer is its first \<open>n\<close> rounds, for
  every \<open>n\<close>; the polls of the harness are the 80 of the source.  A binding of at most \<open>VARCHAR\<close> length and accounts within \<open>BIGINT\<close> are stated where a
  statement needs them (\<open>account_fits\<close>, \<open>claimable\<close>).

  \<^bold>\<open>Not modelled.\<close>  Transactions run one after another: waiting for an advisory or row lock, and what two
  sessions see of each other while both are open, is the database's work; the uniqueness constraints
  and their error handlers are modelled.  Left to the libraries, as parameters: parsing JSON and request
  bodies, converting a text of the environment to the type of its field, the long poll and the event
  loop of the bot, the broker (its answers are a function of the world), SQL itself, what Alembic runs on
  a connection, when Celery delivers a task again, the registry of metrics.  The base classes of
  \<open>core/entities\<close> and \<open>core/schemas/base.py\<close> have no subclass, and the field \<open>occurred_at\<close> of a command
  is read by no code.  The tasks that run while the harness sleeps are a parameter; the property of the
  delivery-failure scenario instantiates it with the handler, run an arbitrary number of times in each
  sleep.  What the broker does with a registered consumer, and so how many deliveries it makes and when,
  is not modelled.  Floats are exact: products are not rounded and do not overflow, and zero has no sign.
  A \<open>SELECT\<close> without \<open>ORDER BY\<close> answers in the order of insertion, which PostgreSQL does not promise.
  A text with a NUL character, which PostgreSQL refuses with \<open>DataError\<close>, is stored like any other.
\<close>

end
